theory Spec2Isabelle
  imports Main "HOL-Library.Word"
begin

section \<open>Receiver pulse capture and calibration (receiver.c)\<close>

text \<open>
  A shallow embedding of the receiver module of the flight controller: the value
  normalizer, the input capture decoder, the calibration sampler, the calibration
  controller and the activity monitor.

  Conventions. A \<open>uint16_t\<close> is a \<open>16 word\<close>, a \<open>uint32_t\<close> a \<open>32 word\<close>. The target has
  32-bit \<open>int\<close>: an expression over \<open>uint16_t\<close> operands is computed after integer
  promotion, so it is modelled on \<open>32 word\<close> (\<open>ucast\<close> is the promotion), read with
  \<open>sint\<close> where the C value is signed and with \<open>unat\<close> after its conversion to
  \<open>uint32_t\<close>. Where an \<open>int\<close> value would leave the 32-bit range the model takes the
  two's complement wrap-around of the target. An \<open>int16_t\<close> is a \<open>16 word\<close> read with
  \<open>sint\<close>; the conversion of a wider value to \<open>int16_t\<close> keeps the low 16 bits.
\<close>

subsection \<open>Types\<close>

type_synonym uint16_t = "16 word"
type_synonym uint32_t = "32 word"
type_synonym int16_t = "16 word"

text \<open>
  \<open>ReceiverErrorStatus\<close>: the functions of the module return the value of a C truth
  expression where their documentation says \<open>RECEIVER_OK\<close> and test a status with \<open>!\<close>,
  so \<open>RECEIVER_ERROR\<close> is 0 and \<open>RECEIVER_OK\<close> is 1.
\<close>

datatype ReceiverErrorStatus = RECEIVER_ERROR | RECEIVER_OK

datatype Pulse_State = PULSE_LOW | PULSE_HIGH

datatype ReceiverCalibrationState =
  RECEIVER_CALIBRATION_WAITING | RECEIVER_CALIBRATION_IN_PROGRESS

datatype IC_Polarity = TIM_ICPOLARITY_RISING | TIM_ICPOLARITY_FALLING

record Receiver_IC_Values_TypeDef =
  PeriodCount :: uint32_t
  RisingCount :: uint16_t
  FallingCounter :: uint16_t
  PreviousRisingCount :: uint16_t
  PreviousRisingCountTimerPeriodCount :: uint16_t
  PulseTimerCount :: uint16_t
  IsActive :: ReceiverErrorStatus

record Receiver_IC_ChannelCalibrationValues_TypeDef =
  ChannelMaxCount :: uint16_t
  ChannelMinCount :: uint16_t

text \<open>The truth value of a C expression as a status, and back (\<open>!status\<close> is \<open>\<not> status_ok\<close>).\<close>

definition status_of_bool :: "bool \<Rightarrow> ReceiverErrorStatus" where
  "status_of_bool b = (if b then RECEIVER_OK else RECEIVER_ERROR)"

definition status_ok :: "ReceiverErrorStatus \<Rightarrow> bool" where
  "status_ok s = (s \<noteq> RECEIVER_ERROR)"

subsection \<open>Value normalizer\<close>

definition INT16_MIN :: int where
  "INT16_MIN = - 32768"

definition INT16_MAX :: int where
  "INT16_MAX = 32767"

definition UINT16_MAX :: int where
  "UINT16_MAX = 65535"

text \<open>
  The two operands of the division in \<open>GetSignedReceiverChannel\<close>:
  \<open>(uint32_t) (PulseTimerCount - ChannelMinCount) * UINT16_MAX\<close> and
  \<open>ChannelMaxCount - ChannelMinCount\<close> (an \<open>int\<close>, converted to \<open>uint32_t\<close> by the
  division).
\<close>

definition scaled_pulse_offset ::
  "Receiver_IC_Values_TypeDef \<Rightarrow> Receiver_IC_ChannelCalibrationValues_TypeDef \<Rightarrow> uint32_t" where
  "scaled_pulse_offset ic cal =
     (ucast (PulseTimerCount ic) - ucast (ChannelMinCount cal)) * word_of_int UINT16_MAX"

definition calibration_span :: "Receiver_IC_ChannelCalibrationValues_TypeDef \<Rightarrow> uint32_t" where
  "calibration_span cal = ucast (ChannelMaxCount cal) - ucast (ChannelMinCount cal)"

definition GetSignedReceiverChannel ::
  "Receiver_IC_Values_TypeDef \<Rightarrow> Receiver_IC_ChannelCalibrationValues_TypeDef \<Rightarrow> int16_t" where
  "GetSignedReceiverChannel ic cal =
     (if PulseTimerCount ic < ChannelMinCount cal then word_of_int INT16_MIN
      else if PulseTimerCount ic > ChannelMaxCount cal then word_of_int INT16_MAX
      else if ChannelMaxCount cal > ChannelMinCount cal then
        ucast ((word_of_int INT16_MIN :: uint32_t)
                 + scaled_pulse_offset ic cal div calibration_span cal)
      else 0)"

text \<open>The quotient of the interpolation, on the natural numbers.\<close>

definition interpolation_quotient ::
  "Receiver_IC_Values_TypeDef \<Rightarrow> Receiver_IC_ChannelCalibrationValues_TypeDef \<Rightarrow> nat" where
  "interpolation_quotient ic cal =
     ((unat (PulseTimerCount ic) - unat (ChannelMinCount cal)) * 65535)
       div (unat (ChannelMaxCount cal) - unat (ChannelMinCount cal))"

subsection \<open>Constants of receiver.h\<close>

text \<open>
  The header receiver.h is not among the sources. Its constants are parameters of the
  model: the counts and sizes as natural numbers, the value the sample buffers are
  initialised with as the \<open>uint16_t\<close> it is stored as.
\<close>

record receiver_constants =
  RECEIVER_MAX_VALID_IC_PULSE_COUNT :: nat
  RECEIVER_MIN_VALID_IC_PULSE_COUNT :: nat
  RECEIVER_MAX_VALID_PERIOD_COUNT :: nat
  RECEIVER_MIN_VALID_PERIOD_COUNT :: nat
  IS_RECEIVER_CHANNEL_INACTIVE_PERIODS_COUNT :: nat
  RECEIVER_MAX_CALIBRATION_DURATION :: nat
  RECEIVER_CALIBRATION_MIN_PULSE_COUNT :: nat
  RECEIVER_CALIBRATION_SAMPLES_BUFFER_SIZE :: nat
  RECEIVER_CALIBRATION_BUFFER_INIT_VALUE :: uint16_t
  RECEIVER_MAX_CALIBRATION_MAX_PULSE_COUNT :: nat
  RECEIVER_MAX_CALIBRATION_MIN_PULSE_COUNT :: nat
  RECEIVER_MIN_CALIBRATION_MAX_PULSE_COUNT :: nat
  RECEIVER_MIN_CALIBRATION_MIN_PULSE_COUNT :: nat

text \<open>
  The sample buffers are arrays of \<open>RECEIVER_CALIBRATION_SAMPLES_BUFFER_SIZE\<close> slots
  scanned with a \<open>uint16_t\<close> index: the size is positive and the index reaches it.
\<close>

definition buffer_size_ok :: "receiver_constants \<Rightarrow> bool" where
  "buffer_size_ok k =
     (0 < RECEIVER_CALIBRATION_SAMPLES_BUFFER_SIZE k
      \<and> RECEIVER_CALIBRATION_SAMPLES_BUFFER_SIZE k < 65536)"

subsection \<open>Validity predicates\<close>

text \<open>
  \<open>IsReceiverPulseValid\<close>: the period counts are \<open>uint16_t\<close> promoted to \<open>int\<close>, so their
  difference is signed and compared with 1 as such.
\<close>

definition IsReceiverPulseValid ::
  "receiver_constants \<Rightarrow> uint16_t \<Rightarrow> uint16_t \<Rightarrow> uint16_t \<Rightarrow> ReceiverErrorStatus" where
  "IsReceiverPulseValid k pulseTimerCount currentPeriodCount previousPeriodCount =
     status_of_bool
       (unat pulseTimerCount \<le> RECEIVER_MAX_VALID_IC_PULSE_COUNT k
        \<and> unat pulseTimerCount \<ge> RECEIVER_MIN_VALID_IC_PULSE_COUNT k
        \<and> sint (ucast currentPeriodCount - ucast previousPeriodCount :: uint32_t) \<le> 1)"

definition IsReceiverPeriodValid :: "receiver_constants \<Rightarrow> uint32_t \<Rightarrow> ReceiverErrorStatus" where
  "IsReceiverPeriodValid k periodTimerCount =
     status_of_bool
       (unat periodTimerCount \<le> RECEIVER_MAX_VALID_PERIOD_COUNT k
        \<and> unat periodTimerCount \<ge> RECEIVER_MIN_VALID_PERIOD_COUNT k)"

definition IsCalibrationMaxPulseValueValid :: "receiver_constants \<Rightarrow> uint16_t \<Rightarrow> ReceiverErrorStatus" where
  "IsCalibrationMaxPulseValueValid k maxPulseValue =
     (if unat maxPulseValue \<le> RECEIVER_MAX_CALIBRATION_MAX_PULSE_COUNT k
         \<and> unat maxPulseValue \<ge> RECEIVER_MAX_CALIBRATION_MIN_PULSE_COUNT k
      then RECEIVER_OK else RECEIVER_ERROR)"

definition IsCalibrationMinPulseValueValid :: "receiver_constants \<Rightarrow> uint16_t \<Rightarrow> ReceiverErrorStatus" where
  "IsCalibrationMinPulseValueValid k minPulseValue =
     (if unat minPulseValue \<le> RECEIVER_MIN_CALIBRATION_MAX_PULSE_COUNT k
         \<and> unat minPulseValue \<ge> RECEIVER_MIN_CALIBRATION_MIN_PULSE_COUNT k
      then RECEIVER_OK else RECEIVER_ERROR)"

subsection \<open>Calibration sampler\<close>

record Receiver_ChannelCalibrationSampling_TypeDef =
  maxSamplesBuffer :: "uint16_t list"
  minSamplesBuffer :: "uint16_t list"
  channelCalibrationPulseSamples :: uint16_t
  tmpMaxIndex :: uint16_t
  tmpMaxBufferMinValue :: uint16_t
  tmpMinIndex :: uint16_t
  tmpMinBufferMaxValue :: uint16_t
  maxBufferUpdated :: bool
  minBufferUpdated :: bool

definition ResetCalibrationSampling ::
  "receiver_constants \<Rightarrow> Receiver_ChannelCalibrationSampling_TypeDef
     \<Rightarrow> Receiver_ChannelCalibrationSampling_TypeDef" where
  "ResetCalibrationSampling k s =
     s\<lparr>channelCalibrationPulseSamples := 0,
       maxBufferUpdated := False,
       maxSamplesBuffer := replicate (RECEIVER_CALIBRATION_SAMPLES_BUFFER_SIZE k)
                             (RECEIVER_CALIBRATION_BUFFER_INIT_VALUE k),
       tmpMaxBufferMinValue := RECEIVER_CALIBRATION_BUFFER_INIT_VALUE k,
       tmpMaxIndex := 0,
       minBufferUpdated := False,
       minSamplesBuffer := replicate (RECEIVER_CALIBRATION_SAMPLES_BUFFER_SIZE k)
                             (RECEIVER_CALIBRATION_BUFFER_INIT_VALUE k),
       tmpMinBufferMaxValue := RECEIVER_CALIBRATION_BUFFER_INIT_VALUE k,
       tmpMinIndex := 0\<rparr>"

text \<open>
  The bodies of the two scanning loops of \<open>UpdateChannelCalibrationSamples\<close>, at index
  \<open>i\<close>, and the loops over \<open>i = 0, ..., RECEIVER_CALIBRATION_SAMPLES_BUFFER_SIZE - 1\<close>.
\<close>

definition scan_max_buffer_step ::
  "nat \<Rightarrow> Receiver_ChannelCalibrationSampling_TypeDef \<Rightarrow> Receiver_ChannelCalibrationSampling_TypeDef" where
  "scan_max_buffer_step i s =
     (if tmpMaxBufferMinValue s > maxSamplesBuffer s ! i
      then s\<lparr>tmpMaxBufferMinValue := maxSamplesBuffer s ! i,
             tmpMaxIndex := of_nat i,
             maxBufferUpdated := False\<rparr>
      else s)"

definition scan_min_buffer_step ::
  "nat \<Rightarrow> Receiver_ChannelCalibrationSampling_TypeDef \<Rightarrow> Receiver_ChannelCalibrationSampling_TypeDef" where
  "scan_min_buffer_step i s =
     (if tmpMinBufferMaxValue s < minSamplesBuffer s ! i
      then s\<lparr>tmpMinBufferMaxValue := minSamplesBuffer s ! i,
             tmpMinIndex := of_nat i,
             minBufferUpdated := False\<rparr>
      else s)"

definition scan_max_buffer ::
  "receiver_constants \<Rightarrow> Receiver_ChannelCalibrationSampling_TypeDef
     \<Rightarrow> Receiver_ChannelCalibrationSampling_TypeDef" where
  "scan_max_buffer k s =
     fold scan_max_buffer_step [0 ..< RECEIVER_CALIBRATION_SAMPLES_BUFFER_SIZE k] s"

definition scan_min_buffer ::
  "receiver_constants \<Rightarrow> Receiver_ChannelCalibrationSampling_TypeDef
     \<Rightarrow> Receiver_ChannelCalibrationSampling_TypeDef" where
  "scan_min_buffer k s =
     fold scan_min_buffer_step [0 ..< RECEIVER_CALIBRATION_SAMPLES_BUFFER_SIZE k] s"

text \<open>The maximum side and the minimum side of \<open>UpdateChannelCalibrationSamples\<close>.\<close>

definition update_max_samples ::
  "receiver_constants \<Rightarrow> uint16_t \<Rightarrow> Receiver_ChannelCalibrationSampling_TypeDef
     \<Rightarrow> Receiver_ChannelCalibrationSampling_TypeDef" where
  "update_max_samples k channelPulseTimerCount s =
     (let s1 = (if maxBufferUpdated s then scan_max_buffer k s else s)
      in if channelPulseTimerCount > tmpMaxBufferMinValue s1
         then s1\<lparr>tmpMaxBufferMinValue := 0xFFFF,
                 maxSamplesBuffer :=
                   (maxSamplesBuffer s1)[unat (tmpMaxIndex s1) := channelPulseTimerCount],
                 maxBufferUpdated := True\<rparr>
         else s1)"

definition update_min_samples ::
  "receiver_constants \<Rightarrow> uint16_t \<Rightarrow> Receiver_ChannelCalibrationSampling_TypeDef
     \<Rightarrow> Receiver_ChannelCalibrationSampling_TypeDef" where
  "update_min_samples k channelPulseTimerCount s =
     (let s1 = (if minBufferUpdated s then scan_min_buffer k s else s)
      in if channelPulseTimerCount < tmpMinBufferMaxValue s1
         then s1\<lparr>tmpMinBufferMaxValue := 0,
                 minSamplesBuffer :=
                   (minSamplesBuffer s1)[unat (tmpMinIndex s1) := channelPulseTimerCount],
                 minBufferUpdated := True\<rparr>
         else s1)"

definition UpdateChannelCalibrationSamples ::
  "receiver_constants \<Rightarrow> Receiver_ChannelCalibrationSampling_TypeDef \<Rightarrow> uint16_t
     \<Rightarrow> ReceiverErrorStatus \<times> Receiver_ChannelCalibrationSampling_TypeDef" where
  "UpdateChannelCalibrationSamples k channelCalibrationSampling channelPulseTimerCount =
     (let s1 = update_max_samples k channelPulseTimerCount channelCalibrationSampling;
          s2 = update_min_samples k channelPulseTimerCount s1
      in (RECEIVER_OK,
          s2\<lparr>channelCalibrationPulseSamples := channelCalibrationPulseSamples s2 + 1\<rparr>))"

subsection \<open>Input capture decoder\<close>

text \<open>
  The two local variables of \<open>UpdateReceiverChannel\<close>, as functions of the channel's
  values after the captured count has been stored. The operands of the period are
  \<open>uint16_t\<close> promoted to \<open>int\<close> and \<open>UINT16_MAX\<close>, the result is converted to \<open>uint32_t\<close>;
  the pulse is stored in a \<open>uint16_t\<close>, which keeps the low 16 bits of the difference.
\<close>

definition tempPeriodTimerCount :: "Receiver_IC_Values_TypeDef \<Rightarrow> uint16_t \<Rightarrow> uint32_t" where
  "tempPeriodTimerCount ic ReceiverTimerPeriodCount =
     (if ReceiverTimerPeriodCount > PreviousRisingCountTimerPeriodCount ic
      then ucast (RisingCount ic) + word_of_int UINT16_MAX - ucast (PreviousRisingCount ic)
             + word_of_int UINT16_MAX
                 * (ucast ReceiverTimerPeriodCount
                      - ucast (PreviousRisingCountTimerPeriodCount ic) - 1)
      else ucast (RisingCount ic) - ucast (PreviousRisingCount ic))"

definition tempPulseTimerCount :: "Receiver_IC_Values_TypeDef \<Rightarrow> uint16_t" where
  "tempPulseTimerCount ic = FallingCounter ic - RisingCount ic"

text \<open>
  The candidate period of a rising edge and the candidate pulse of a falling edge, from the
  channel's values before the event and the captured count.
\<close>

definition rising_edge_period :: "Receiver_IC_Values_TypeDef \<Rightarrow> uint32_t \<Rightarrow> uint16_t \<Rightarrow> uint32_t" where
  "rising_edge_period ic icValue ReceiverTimerPeriodCount =
     tempPeriodTimerCount
       (ic\<lparr>PreviousRisingCount := RisingCount ic, RisingCount := ucast icValue\<rparr>)
       ReceiverTimerPeriodCount"

definition falling_edge_pulse :: "Receiver_IC_Values_TypeDef \<Rightarrow> uint32_t \<Rightarrow> uint16_t" where
  "falling_edge_pulse ic icValue = tempPulseTimerCount (ic\<lparr>FallingCounter := ucast icValue\<rparr>)"

text \<open>
  What \<open>UpdateReceiverChannel\<close> reads and writes through its pointer arguments, together
  with the module variable \<open>receiverCalibrationState\<close>. The function's other inputs are the
  captured count (\<open>HAL_TIM_ReadCapturedValue\<close>), the tick count (\<open>HAL_GetTick\<close>), the
  module variable \<open>calibrationStartTime\<close> and the timer's period count. The registers
  written by \<open>ReceiverToggleICPolarity\<close> from \<open>ICPolarity\<close> are outside the model.
\<close>

record Receiver_Channel_Frame =
  channelInputState :: Pulse_State
  ICPolarity :: IC_Polarity
  ChannelICValues :: Receiver_IC_Values_TypeDef
  ChannelCalibrationSampling :: Receiver_ChannelCalibrationSampling_TypeDef
  calibrationState :: ReceiverCalibrationState

definition UpdateReceiverChannel ::
  "receiver_constants \<Rightarrow> uint32_t \<Rightarrow> uint32_t \<Rightarrow> uint32_t \<Rightarrow> uint16_t \<Rightarrow> Receiver_Channel_Frame
     \<Rightarrow> ReceiverErrorStatus \<times> Receiver_Channel_Frame" where
  "UpdateReceiverChannel k icValue tick startTime ReceiverTimerPeriodCount f =
     (case channelInputState f of
        PULSE_LOW \<Rightarrow>
          (let ic1 = (ChannelICValues f)
                       \<lparr>PreviousRisingCount := RisingCount (ChannelICValues f),
                        RisingCount := ucast icValue\<rparr>;
               valid = status_ok
                         (IsReceiverPeriodValid k (tempPeriodTimerCount ic1 ReceiverTimerPeriodCount));
               ic2 = (if valid
                      then ic1\<lparr>PeriodCount := tempPeriodTimerCount ic1 ReceiverTimerPeriodCount\<rparr>
                      else ic1)
           in (if valid then RECEIVER_OK else RECEIVER_ERROR,
               f\<lparr>channelInputState := PULSE_HIGH,
                 ICPolarity := TIM_ICPOLARITY_FALLING,
                 ChannelICValues :=
                   ic2\<lparr>PreviousRisingCountTimerPeriodCount := ReceiverTimerPeriodCount\<rparr>\<rparr>))
      | PULSE_HIGH \<Rightarrow>
          (let ic1 = (ChannelICValues f)\<lparr>FallingCounter := ucast icValue\<rparr>;
               f1 = f\<lparr>channelInputState := PULSE_LOW,
                      ICPolarity := TIM_ICPOLARITY_RISING,
                      ChannelICValues := ic1\<rparr>
           in if status_ok (IsReceiverPulseValid k (tempPulseTimerCount ic1) ReceiverTimerPeriodCount
                              (PreviousRisingCountTimerPeriodCount ic1))
              then
                (let f2 = f1\<lparr>ChannelICValues :=
                               ic1\<lparr>PulseTimerCount := tempPulseTimerCount ic1,
                                   IsActive := RECEIVER_OK\<rparr>\<rparr>
                 in (RECEIVER_OK,
                     if calibrationState f2 = RECEIVER_CALIBRATION_IN_PROGRESS
                     then (if tick > of_nat (RECEIVER_MAX_CALIBRATION_DURATION k) + startTime
                           then f2\<lparr>calibrationState := RECEIVER_CALIBRATION_WAITING\<rparr>
                           else f2\<lparr>ChannelCalibrationSampling :=
                                     snd (UpdateChannelCalibrationSamples k
                                            (ChannelCalibrationSampling f2)
                                            (tempPulseTimerCount ic1))\<rparr>)
                     else f2))
              else (RECEIVER_ERROR, f1)))"

subsection \<open>Module state\<close>

datatype Channel = Throttle | Aileron | Elevator | Rudder | Gear | Aux1

record Receiver_CalibrationValues_TypeDef =
  ThrottleChannel :: Receiver_IC_ChannelCalibrationValues_TypeDef
  AileronChannel :: Receiver_IC_ChannelCalibrationValues_TypeDef
  ElevatorChannel :: Receiver_IC_ChannelCalibrationValues_TypeDef
  RudderChannel :: Receiver_IC_ChannelCalibrationValues_TypeDef
  GearChannel :: Receiver_IC_ChannelCalibrationValues_TypeDef
  Aux1Channel :: Receiver_IC_ChannelCalibrationValues_TypeDef

text \<open>
  The static variables of the module. The six variables of one kind
  (\<open>ThrottleICValues\<close>, ..., \<open>Aux1ICValues\<close>; the six sampling structures; the six input
  states and the six capture configurations) are one function of the channel each.
\<close>

record Receiver_State =
  ReceiverPulseStates :: "Channel \<Rightarrow> Pulse_State"
  ChannelICConfig :: "Channel \<Rightarrow> IC_Polarity"
  ICValues :: "Channel \<Rightarrow> Receiver_IC_Values_TypeDef"
  CalibrationValues :: Receiver_CalibrationValues_TypeDef
  receiverCalibrationState :: ReceiverCalibrationState
  calibrationStartTime :: uint32_t
  CalibrationSampling :: "Channel \<Rightarrow> Receiver_ChannelCalibrationSampling_TypeDef"
  PrimaryReceiverTimerPeriodCount :: uint16_t
  AuxReceiverTimerPeriodCount :: uint16_t

text \<open>
  The wrappers \<open>UpdateReceiverThrottleChannel\<close>, ..., \<open>UpdateReceiverAux1Channel\<close> pass the
  channel's variables and the period count of its timer: the primary timer for throttle,
  aileron, elevator and rudder, the auxiliary timer for gear and aux1.
\<close>

definition channel_timer_period_count :: "Receiver_State \<Rightarrow> Channel \<Rightarrow> uint16_t" where
  "channel_timer_period_count g ch =
     (case ch of
        Gear \<Rightarrow> AuxReceiverTimerPeriodCount g
      | Aux1 \<Rightarrow> AuxReceiverTimerPeriodCount g
      | _ \<Rightarrow> PrimaryReceiverTimerPeriodCount g)"

definition channel_frame :: "Receiver_State \<Rightarrow> Channel \<Rightarrow> Receiver_Channel_Frame" where
  "channel_frame g ch =
     \<lparr>channelInputState = ReceiverPulseStates g ch,
      ICPolarity = ChannelICConfig g ch,
      ChannelICValues = ICValues g ch,
      ChannelCalibrationSampling = CalibrationSampling g ch,
      calibrationState = receiverCalibrationState g\<rparr>"

definition store_channel_frame ::
  "Receiver_State \<Rightarrow> Channel \<Rightarrow> Receiver_Channel_Frame \<Rightarrow> Receiver_State" where
  "store_channel_frame g ch f =
     g\<lparr>ReceiverPulseStates := (ReceiverPulseStates g)(ch := channelInputState f),
       ChannelICConfig := (ChannelICConfig g)(ch := ICPolarity f),
       ICValues := (ICValues g)(ch := ChannelICValues f),
       CalibrationSampling := (CalibrationSampling g)(ch := ChannelCalibrationSampling f),
       receiverCalibrationState := calibrationState f\<rparr>"

definition UpdateReceiverChannelOf ::
  "receiver_constants \<Rightarrow> Channel \<Rightarrow> uint32_t \<Rightarrow> uint32_t \<Rightarrow> Receiver_State
     \<Rightarrow> ReceiverErrorStatus \<times> Receiver_State" where
  "UpdateReceiverChannelOf k ch icValue tick g =
     (let r = UpdateReceiverChannel k icValue tick (calibrationStartTime g)
                (channel_timer_period_count g ch) (channel_frame g ch)
      in (fst r, store_channel_frame g ch (snd r)))"

definition UpdateReceiverThrottleChannel ::
  "receiver_constants \<Rightarrow> uint32_t \<Rightarrow> uint32_t \<Rightarrow> Receiver_State \<Rightarrow> ReceiverErrorStatus \<times> Receiver_State" where
  "UpdateReceiverThrottleChannel k = UpdateReceiverChannelOf k Throttle"

definition UpdateReceiverAileronChannel ::
  "receiver_constants \<Rightarrow> uint32_t \<Rightarrow> uint32_t \<Rightarrow> Receiver_State \<Rightarrow> ReceiverErrorStatus \<times> Receiver_State" where
  "UpdateReceiverAileronChannel k = UpdateReceiverChannelOf k Aileron"

definition UpdateReceiverElevatorChannel ::
  "receiver_constants \<Rightarrow> uint32_t \<Rightarrow> uint32_t \<Rightarrow> Receiver_State \<Rightarrow> ReceiverErrorStatus \<times> Receiver_State" where
  "UpdateReceiverElevatorChannel k = UpdateReceiverChannelOf k Elevator"

definition UpdateReceiverRudderChannel ::
  "receiver_constants \<Rightarrow> uint32_t \<Rightarrow> uint32_t \<Rightarrow> Receiver_State \<Rightarrow> ReceiverErrorStatus \<times> Receiver_State" where
  "UpdateReceiverRudderChannel k = UpdateReceiverChannelOf k Rudder"

definition UpdateReceiverGearChannel ::
  "receiver_constants \<Rightarrow> uint32_t \<Rightarrow> uint32_t \<Rightarrow> Receiver_State \<Rightarrow> ReceiverErrorStatus \<times> Receiver_State" where
  "UpdateReceiverGearChannel k = UpdateReceiverChannelOf k Gear"

definition UpdateReceiverAux1Channel ::
  "receiver_constants \<Rightarrow> uint32_t \<Rightarrow> uint32_t \<Rightarrow> Receiver_State \<Rightarrow> ReceiverErrorStatus \<times> Receiver_State" where
  "UpdateReceiverAux1Channel k = UpdateReceiverChannelOf k Aux1"

text \<open>
  The two interrupt callbacks of the module. \<open>HAL_TIM_IC_CaptureCallback\<close> dispatches on
  the timer and its active channel, which together name the receiver channel; its further
  arguments are the captured count and the tick count read during the call.
  \<open>HAL_TIM_PeriodElapsedCallback\<close> counts the periods of the two timers in \<open>uint16_t\<close>
  counters.
\<close>

datatype Receiver_Timer = PRIMARY_RECEIVER_TIM | AUX_RECEIVER_TIM

definition HAL_TIM_IC_CaptureCallback ::
  "receiver_constants \<Rightarrow> Channel \<Rightarrow> uint32_t \<Rightarrow> uint32_t \<Rightarrow> Receiver_State \<Rightarrow> Receiver_State" where
  "HAL_TIM_IC_CaptureCallback k ch icValue tick g =
     (case ch of
        Throttle \<Rightarrow> snd (UpdateReceiverThrottleChannel k icValue tick g)
      | Aileron \<Rightarrow> snd (UpdateReceiverAileronChannel k icValue tick g)
      | Elevator \<Rightarrow> snd (UpdateReceiverElevatorChannel k icValue tick g)
      | Rudder \<Rightarrow> snd (UpdateReceiverRudderChannel k icValue tick g)
      | Gear \<Rightarrow> snd (UpdateReceiverGearChannel k icValue tick g)
      | Aux1 \<Rightarrow> snd (UpdateReceiverAux1Channel k icValue tick g))"

definition HAL_TIM_PeriodElapsedCallback :: "Receiver_Timer \<Rightarrow> Receiver_State \<Rightarrow> Receiver_State" where
  "HAL_TIM_PeriodElapsedCallback htim g =
     (case htim of
        PRIMARY_RECEIVER_TIM \<Rightarrow>
          g\<lparr>PrimaryReceiverTimerPeriodCount := PrimaryReceiverTimerPeriodCount g + 1\<rparr>
      | AUX_RECEIVER_TIM \<Rightarrow>
          g\<lparr>AuxReceiverTimerPeriodCount := AuxReceiverTimerPeriodCount g + 1\<rparr>)"

text \<open>A sequence of interrupts, handled in order.\<close>

datatype Receiver_Interrupt =
  Capture Channel uint32_t uint32_t | PeriodElapsed Receiver_Timer

fun handle_interrupt :: "receiver_constants \<Rightarrow> Receiver_State \<Rightarrow> Receiver_Interrupt \<Rightarrow> Receiver_State" where
  "handle_interrupt k g (Capture ch icValue tick) = HAL_TIM_IC_CaptureCallback k ch icValue tick g"
| "handle_interrupt k g (PeriodElapsed htim) = HAL_TIM_PeriodElapsedCallback htim g"

definition run_interrupts ::
  "receiver_constants \<Rightarrow> Receiver_State \<Rightarrow> Receiver_Interrupt list \<Rightarrow> Receiver_State" where
  "run_interrupts k g evs = foldl (handle_interrupt k) g evs"

subsection \<open>Calibration controller\<close>

definition IsCalibrationValuesValid ::
  "receiver_constants \<Rightarrow> Receiver_CalibrationValues_TypeDef \<Rightarrow> ReceiverErrorStatus" where
  "IsCalibrationValuesValid k calibrationValues =
     (if \<not> status_ok (IsCalibrationMaxPulseValueValid k (ChannelMaxCount (ThrottleChannel calibrationValues)))
        then RECEIVER_ERROR
      else if \<not> status_ok (IsCalibrationMinPulseValueValid k (ChannelMinCount (ThrottleChannel calibrationValues)))
        then RECEIVER_ERROR
      else if \<not> status_ok (IsCalibrationMaxPulseValueValid k (ChannelMaxCount (AileronChannel calibrationValues)))
        then RECEIVER_ERROR
      else if \<not> status_ok (IsCalibrationMinPulseValueValid k (ChannelMinCount (AileronChannel calibrationValues)))
        then RECEIVER_ERROR
      else if \<not> status_ok (IsCalibrationMaxPulseValueValid k (ChannelMaxCount (ElevatorChannel calibrationValues)))
        then RECEIVER_ERROR
      else if \<not> status_ok (IsCalibrationMinPulseValueValid k (ChannelMinCount (ElevatorChannel calibrationValues)))
        then RECEIVER_ERROR
      else if \<not> status_ok (IsCalibrationMaxPulseValueValid k (ChannelMaxCount (RudderChannel calibrationValues)))
        then RECEIVER_ERROR
      else if \<not> status_ok (IsCalibrationMinPulseValueValid k (ChannelMinCount (RudderChannel calibrationValues)))
        then RECEIVER_ERROR
      else if \<not> status_ok (IsCalibrationMaxPulseValueValid k (ChannelMaxCount (GearChannel calibrationValues)))
        then RECEIVER_ERROR
      else if \<not> status_ok (IsCalibrationMinPulseValueValid k (ChannelMinCount (GearChannel calibrationValues)))
        then RECEIVER_ERROR
      else if \<not> status_ok (IsCalibrationMaxPulseValueValid k (ChannelMaxCount (Aux1Channel calibrationValues)))
        then RECEIVER_ERROR
      else if \<not> status_ok (IsCalibrationMinPulseValueValid k (ChannelMinCount (Aux1Channel calibrationValues)))
        then RECEIVER_ERROR
      else RECEIVER_OK)"

definition EnforceNewCalibrationValues ::
  "Receiver_CalibrationValues_TypeDef \<Rightarrow> Receiver_State \<Rightarrow> Receiver_State" where
  "EnforceNewCalibrationValues newCalibrationValues g =
     g\<lparr>CalibrationValues :=
         \<lparr>ThrottleChannel =
            \<lparr>ChannelMaxCount = ChannelMaxCount (ThrottleChannel newCalibrationValues),
             ChannelMinCount = ChannelMinCount (ThrottleChannel newCalibrationValues)\<rparr>,
          AileronChannel =
            \<lparr>ChannelMaxCount = ChannelMaxCount (AileronChannel newCalibrationValues),
             ChannelMinCount = ChannelMinCount (AileronChannel newCalibrationValues)\<rparr>,
          ElevatorChannel =
            \<lparr>ChannelMaxCount = ChannelMaxCount (ElevatorChannel newCalibrationValues),
             ChannelMinCount = ChannelMinCount (ElevatorChannel newCalibrationValues)\<rparr>,
          RudderChannel =
            \<lparr>ChannelMaxCount = ChannelMaxCount (RudderChannel newCalibrationValues),
             ChannelMinCount = ChannelMinCount (RudderChannel newCalibrationValues)\<rparr>,
          GearChannel =
            \<lparr>ChannelMaxCount = ChannelMaxCount (GearChannel newCalibrationValues),
             ChannelMinCount = ChannelMinCount (GearChannel newCalibrationValues)\<rparr>,
          Aux1Channel =
            \<lparr>ChannelMaxCount = ChannelMaxCount (Aux1Channel newCalibrationValues),
             ChannelMinCount = ChannelMinCount (Aux1Channel newCalibrationValues)\<rparr>\<rparr>\<rparr>"

text \<open>
  \<open>StartReceiverCalibration\<close>; \<open>tick\<close> is the value of \<open>HAL_GetTick\<close>. The sampling print
  task it starts is outside the model.
\<close>

definition StartReceiverCalibration ::
  "receiver_constants \<Rightarrow> uint32_t \<Rightarrow> Receiver_State \<Rightarrow> ReceiverErrorStatus \<times> Receiver_State" where
  "StartReceiverCalibration k tick g =
     (if receiverCalibrationState g \<noteq> RECEIVER_CALIBRATION_IN_PROGRESS
      then (RECEIVER_OK,
            g\<lparr>CalibrationSampling := (\<lambda>ch. ResetCalibrationSampling k (CalibrationSampling g ch)),
              calibrationStartTime := tick,
              receiverCalibrationState := RECEIVER_CALIBRATION_IN_PROGRESS\<rparr>)
      else (RECEIVER_ERROR, g))"

text \<open>
  \<open>StopReceiverCalibration\<close>. \<open>UInt16Mean\<close> is defined in common.c, which is not among the
  sources: it is the parameter \<open>mean\<close>, applied to a buffer and its size. The write to
  flash, the messages sent over USB and the sampling print task do not touch the variables
  of the module and are outside the model.
\<close>

definition under_sampled :: "receiver_constants \<Rightarrow> Receiver_State \<Rightarrow> Channel \<Rightarrow> bool" where
  "under_sampled k g ch =
     (unat (channelCalibrationPulseSamples (CalibrationSampling g ch))
        < RECEIVER_CALIBRATION_MIN_PULSE_COUNT k)"

definition channel_mean_calibration ::
  "receiver_constants \<Rightarrow> (uint16_t list \<Rightarrow> nat \<Rightarrow> uint16_t) \<Rightarrow> Receiver_State \<Rightarrow> Channel
     \<Rightarrow> Receiver_IC_ChannelCalibrationValues_TypeDef" where
  "channel_mean_calibration k mean g ch =
     \<lparr>ChannelMaxCount = mean (maxSamplesBuffer (CalibrationSampling g ch))
                            (RECEIVER_CALIBRATION_SAMPLES_BUFFER_SIZE k),
      ChannelMinCount = mean (minSamplesBuffer (CalibrationSampling g ch))
                            (RECEIVER_CALIBRATION_SAMPLES_BUFFER_SIZE k)\<rparr>"

definition StopReceiverCalibration ::
  "receiver_constants \<Rightarrow> (uint16_t list \<Rightarrow> nat \<Rightarrow> uint16_t) \<Rightarrow> Receiver_State
     \<Rightarrow> ReceiverErrorStatus \<times> Receiver_State" where
  "StopReceiverCalibration k mean g =
     (if receiverCalibrationState g = RECEIVER_CALIBRATION_IN_PROGRESS
      then
        (let rs0 = RECEIVER_OK;
             rs1 = (if under_sampled k g Throttle then RECEIVER_ERROR else rs0);
             rs2 = (if under_sampled k g Aileron then RECEIVER_ERROR else rs1);
             rs3 = (if under_sampled k g Elevator then RECEIVER_ERROR else rs2);
             rs4 = (if under_sampled k g Rudder then RECEIVER_ERROR else rs3);
             rs5 = (if under_sampled k g Gear then RECEIVER_ERROR else rs4);
             rs6 = (if under_sampled k g Aux1 then RECEIVER_ERROR else rs5);
             tmpCalibrationValues =
               \<lparr>ThrottleChannel = channel_mean_calibration k mean g Throttle,
                AileronChannel = channel_mean_calibration k mean g Aileron,
                ElevatorChannel = channel_mean_calibration k mean g Elevator,
                RudderChannel = channel_mean_calibration k mean g Rudder,
                GearChannel = channel_mean_calibration k mean g Gear,
                Aux1Channel = channel_mean_calibration k mean g Aux1\<rparr>;
             returnStatus =
               (if \<not> status_ok (IsCalibrationValuesValid k tmpCalibrationValues)
                then RECEIVER_ERROR else rs6);
             g1 = (if returnStatus \<noteq> RECEIVER_ERROR
                   then EnforceNewCalibrationValues tmpCalibrationValues g else g)
         in (returnStatus, g1\<lparr>receiverCalibrationState := RECEIVER_CALIBRATION_WAITING\<rparr>))
      else (RECEIVER_ERROR, g))"

subsection \<open>Activity monitor\<close>

text \<open>
  \<open>IsReceiverChannelActive\<close>: the two period counts are \<open>uint16_t\<close> promoted to \<open>int\<close>; their
  difference is converted to the \<open>uint32_t\<close> \<open>periodsSinceLastChannelPulse\<close>.
\<close>

definition periodsSinceLastChannelPulse :: "Receiver_IC_Values_TypeDef \<Rightarrow> uint16_t \<Rightarrow> uint32_t" where
  "periodsSinceLastChannelPulse ic ReceiverTimerPeriodCount =
     ucast ReceiverTimerPeriodCount - ucast (PreviousRisingCountTimerPeriodCount ic)"

definition IsReceiverChannelActive ::
  "receiver_constants \<Rightarrow> Receiver_IC_Values_TypeDef \<Rightarrow> uint16_t
     \<Rightarrow> ReceiverErrorStatus \<times> Receiver_IC_Values_TypeDef" where
  "IsReceiverChannelActive k ic ReceiverTimerPeriodCount =
     (let ic' = (if unat (periodsSinceLastChannelPulse ic ReceiverTimerPeriodCount)
                      > IS_RECEIVER_CHANNEL_INACTIVE_PERIODS_COUNT k
                 then ic\<lparr>IsActive := RECEIVER_ERROR\<rparr> else ic)
      in (IsActive ic', ic'))"

definition IsReceiverActive ::
  "receiver_constants \<Rightarrow> Receiver_State \<Rightarrow> ReceiverErrorStatus \<times> Receiver_State" where
  "IsReceiverActive k g =
     (let a = IsReceiverChannelActive k (ICValues g Aileron) (PrimaryReceiverTimerPeriodCount g);
          g1 = g\<lparr>ICValues := (ICValues g)(Aileron := snd a)\<rparr>;
          e = IsReceiverChannelActive k (ICValues g1 Elevator) (PrimaryReceiverTimerPeriodCount g1);
          g2 = g1\<lparr>ICValues := (ICValues g1)(Elevator := snd e)\<rparr>;
          r = IsReceiverChannelActive k (ICValues g2 Rudder) (PrimaryReceiverTimerPeriodCount g2);
          g3 = g2\<lparr>ICValues := (ICValues g2)(Rudder := snd r)\<rparr>
      in (status_of_bool (status_ok (fst a) \<and> status_ok (fst e) \<and> status_ok (fst r)), g3))"

subsection \<open>Sampling sessions and the cache of the sampling window\<close>

text \<open>
  The window of a channel after \<open>ResetCalibrationSampling\<close> and the pulses \<open>ps\<close>, observed
  in this order.
\<close>

definition observe_samples ::
  "receiver_constants \<Rightarrow> Receiver_ChannelCalibrationSampling_TypeDef \<Rightarrow> uint16_t list
     \<Rightarrow> Receiver_ChannelCalibrationSampling_TypeDef" where
  "observe_samples k s ps = foldl (\<lambda>s p. snd (UpdateChannelCalibrationSamples k s p)) s ps"

text \<open>
  The cached minimum of the buffer of maxima is either marked stale, and then reset to
  \<open>0xFFFF\<close>, or it is the minimum of the buffer and the cached index holds it. Dually for
  the cached maximum of the buffer of minima.
\<close>

definition max_side_inv :: "receiver_constants \<Rightarrow> Receiver_ChannelCalibrationSampling_TypeDef \<Rightarrow> bool" where
  "max_side_inv k s =
     (length (maxSamplesBuffer s) = RECEIVER_CALIBRATION_SAMPLES_BUFFER_SIZE k
      \<and> unat (tmpMaxIndex s) < RECEIVER_CALIBRATION_SAMPLES_BUFFER_SIZE k
      \<and> (if maxBufferUpdated s then tmpMaxBufferMinValue s = 0xFFFF
         else tmpMaxBufferMinValue s = Min (set (maxSamplesBuffer s))
              \<and> maxSamplesBuffer s ! unat (tmpMaxIndex s) = tmpMaxBufferMinValue s))"

definition min_side_inv :: "receiver_constants \<Rightarrow> Receiver_ChannelCalibrationSampling_TypeDef \<Rightarrow> bool" where
  "min_side_inv k s =
     (length (minSamplesBuffer s) = RECEIVER_CALIBRATION_SAMPLES_BUFFER_SIZE k
      \<and> unat (tmpMinIndex s) < RECEIVER_CALIBRATION_SAMPLES_BUFFER_SIZE k
      \<and> (if minBufferUpdated s then tmpMinBufferMaxValue s = 0
         else tmpMinBufferMaxValue s = Max (set (minSamplesBuffer s))
              \<and> minSamplesBuffer s ! unat (tmpMinIndex s) = tmpMinBufferMaxValue s))"

subsection \<open>Sample values\<close>

text \<open>A channel at mid-stick under a calibration of 2000 to 4000 ticks.\<close>

definition sample_ic :: Receiver_IC_Values_TypeDef where
  "sample_ic = \<lparr>PeriodCount = 52800, RisingCount = 1000, FallingCounter = 4000,
     PreviousRisingCount = 1000, PreviousRisingCountTimerPeriodCount = 7,
     PulseTimerCount = 3000, IsActive = RECEIVER_OK\<rparr>"

definition sample_cal :: Receiver_IC_ChannelCalibrationValues_TypeDef where
  "sample_cal = \<lparr>ChannelMaxCount = 4000, ChannelMinCount = 2000\<rparr>"

text \<open>Sample constants (a timer clocked at 2.4 MHz, three slots per buffer) and a window.\<close>

definition sample_constants :: receiver_constants where
  "sample_constants = \<lparr>RECEIVER_MAX_VALID_IC_PULSE_COUNT = 6000,
     RECEIVER_MIN_VALID_IC_PULSE_COUNT = 1200,
     RECEIVER_MAX_VALID_PERIOD_COUNT = 65535,
     RECEIVER_MIN_VALID_PERIOD_COUNT = 40000,
     IS_RECEIVER_CHANNEL_INACTIVE_PERIODS_COUNT = 10,
     RECEIVER_MAX_CALIBRATION_DURATION = 30000,
     RECEIVER_CALIBRATION_MIN_PULSE_COUNT = 3,
     RECEIVER_CALIBRATION_SAMPLES_BUFFER_SIZE = 3,
     RECEIVER_CALIBRATION_BUFFER_INIT_VALUE = 3600,
     RECEIVER_MAX_CALIBRATION_MAX_PULSE_COUNT = 5400,
     RECEIVER_MAX_CALIBRATION_MIN_PULSE_COUNT = 4200,
     RECEIVER_MIN_CALIBRATION_MAX_PULSE_COUNT = 3000,
     RECEIVER_MIN_CALIBRATION_MIN_PULSE_COUNT = 1800\<rparr>"

definition zero_sampling :: Receiver_ChannelCalibrationSampling_TypeDef where
  "zero_sampling = \<lparr>maxSamplesBuffer = [0, 0, 0], minSamplesBuffer = [0, 0, 0],
     channelCalibrationPulseSamples = 0, tmpMaxIndex = 0, tmpMaxBufferMinValue = 0,
     tmpMinIndex = 0, tmpMinBufferMaxValue = 0, maxBufferUpdated = False,
     minBufferUpdated = False\<rparr>"

definition sample_window :: Receiver_ChannelCalibrationSampling_TypeDef where
  "sample_window =
     observe_samples sample_constants (ResetCalibrationSampling sample_constants zero_sampling)
       [4000]"

text \<open>A channel waiting for a rising edge, and one waiting for a falling edge in a session.\<close>

definition sample_frame_low :: Receiver_Channel_Frame where
  "sample_frame_low = \<lparr>channelInputState = PULSE_LOW, ICPolarity = TIM_ICPOLARITY_RISING,
     ChannelICValues = sample_ic, ChannelCalibrationSampling = zero_sampling,
     calibrationState = RECEIVER_CALIBRATION_WAITING\<rparr>"

definition sample_frame_high :: Receiver_Channel_Frame where
  "sample_frame_high = \<lparr>channelInputState = PULSE_HIGH, ICPolarity = TIM_ICPOLARITY_FALLING,
     ChannelICValues = sample_ic, ChannelCalibrationSampling = zero_sampling,
     calibrationState = RECEIVER_CALIBRATION_IN_PROGRESS\<rparr>"

text \<open>
  A module state in a calibration session started at tick 1000, every channel high with one
  sample observed; and a mean for \<open>UInt16Mean\<close> (the sum of the slots over their number).
\<close>

definition sample_state :: Receiver_State where
  "sample_state = \<lparr>ReceiverPulseStates = (\<lambda>ch. PULSE_HIGH),
     ChannelICConfig = (\<lambda>ch. TIM_ICPOLARITY_FALLING),
     ICValues = (\<lambda>ch. sample_ic),
     CalibrationValues = \<lparr>ThrottleChannel = sample_cal, AileronChannel = sample_cal,
       ElevatorChannel = sample_cal, RudderChannel = sample_cal, GearChannel = sample_cal,
       Aux1Channel = sample_cal\<rparr>,
     receiverCalibrationState = RECEIVER_CALIBRATION_IN_PROGRESS,
     calibrationStartTime = 1000,
     CalibrationSampling = (\<lambda>ch. sample_window),
     PrimaryReceiverTimerPeriodCount = 7,
     AuxReceiverTimerPeriodCount = 7\<rparr>"

definition sample_mean :: "uint16_t list \<Rightarrow> nat \<Rightarrow> uint16_t" where
  "sample_mean buffer n = of_nat (sum_list (map unat buffer) div n)"

text \<open>
  A channel waiting for a falling edge in a session, not yet active, whose rising edge was
  recorded at period count 65534; the session of \<open>sample_state\<close> started at tick 4294930000
  instead; and the channels of \<open>sample_state\<close> at period count 18.
\<close>

definition period_wrap_frame :: Receiver_Channel_Frame where
  "period_wrap_frame =
     sample_frame_high\<lparr>ChannelICValues :=
       sample_ic\<lparr>PreviousRisingCountTimerPeriodCount := 65534, IsActive := RECEIVER_ERROR\<rparr>\<rparr>"

definition tick_wrap_state :: Receiver_State where
  "tick_wrap_state = sample_state\<lparr>calibrationStartTime := 4294930000\<rparr>"

definition aged_state :: Receiver_State where
  "aged_state = sample_state\<lparr>PrimaryReceiverTimerPeriodCount := 18\<rparr>"

text \<open>
  What the activity monitor and the next edge of a channel depend on: the input state of
  the channel, its \<open>IsActive\<close> flag, the count captured at its last rising edge and the
  period count recorded at that edge.
\<close>

definition channel_summary ::
  "Receiver_State \<Rightarrow> Channel \<Rightarrow> Pulse_State \<times> ReceiverErrorStatus \<times> uint16_t \<times> uint16_t" where
  "channel_summary g ch =
     (ReceiverPulseStates g ch, IsActive (ICValues g ch), RisingCount (ICValues g ch),
      PreviousRisingCountTimerPeriodCount (ICValues g ch))"

text \<open>
  A link with no session and no channel yet active at period count 7: the aileron channel
  is high since a rising edge in that period, the other channels are low. The interrupts
  that follow: the aileron pulse ends, valid; eleven periods elapse; the aileron channel
  rises and falls again, this time with an invalid pulse; the elevator and the rudder
  channels each rise and fall with a valid pulse.
\<close>

definition link_start :: Receiver_State where
  "link_start = \<lparr>ReceiverPulseStates = (\<lambda>ch. PULSE_LOW)(Aileron := PULSE_HIGH),
     ChannelICConfig = (\<lambda>ch. TIM_ICPOLARITY_RISING)(Aileron := TIM_ICPOLARITY_FALLING),
     ICValues = (\<lambda>ch. sample_ic\<lparr>IsActive := RECEIVER_ERROR\<rparr>),
     CalibrationValues = \<lparr>ThrottleChannel = sample_cal, AileronChannel = sample_cal,
       ElevatorChannel = sample_cal, RudderChannel = sample_cal, GearChannel = sample_cal,
       Aux1Channel = sample_cal\<rparr>,
     receiverCalibrationState = RECEIVER_CALIBRATION_WAITING,
     calibrationStartTime = 0,
     CalibrationSampling = (\<lambda>ch. zero_sampling),
     PrimaryReceiverTimerPeriodCount = 7,
     AuxReceiverTimerPeriodCount = 7\<rparr>"

definition aileron_pulse_ends :: "Receiver_Interrupt list" where
  "aileron_pulse_ends = [Capture Aileron 4600 0]"

definition eleven_periods :: "Receiver_Interrupt list" where
  "eleven_periods = replicate 11 (PeriodElapsed PRIMARY_RECEIVER_TIM)"

definition aileron_rises :: "Receiver_Interrupt list" where
  "aileron_rises = [Capture Aileron 2000 0]"

definition others_pulse :: "Receiver_Interrupt list" where
  "others_pulse = [Capture Elevator 2000 0, Capture Elevator 5600 0,
                   Capture Rudder 2000 0, Capture Rudder 5600 0]"

definition link_before_invalid_pulse :: Receiver_State where
  "link_before_invalid_pulse =
     run_interrupts sample_constants link_start (aileron_pulse_ends @ eleven_periods @ aileron_rises)"

definition link_at_query :: Receiver_State where
  "link_at_query =
     run_interrupts sample_constants link_before_invalid_pulse
       (Capture Aileron 11000 0 # others_pulse)"

section \<open>Properties\<close>

subsection \<open>Word arithmetic used by the module\<close>

lemma unat_promote: "unat (ucast (x :: uint16_t) :: uint32_t) = unat x"
proof -
  have "unat x < 2 ^ 32"
    using unsigned_less [of x, where 'a = nat] by simp
  then show ?thesis
    by (simp add: unsigned_ucast_eq take_bit_nat_eq_self_iff)
qed

lemma unat_uint16_less: "unat (x :: uint16_t) < 65536"
  using unsigned_less [of x, where 'a = nat] by simp

lemma promote_le_iff: "(ucast (x :: uint16_t) :: uint32_t) \<le> ucast (y :: uint16_t) \<longleftrightarrow> x \<le> y"
  by (simp add: word_le_nat_alt unat_promote)

lemma promote_less_iff: "(ucast (x :: uint16_t) :: uint32_t) < ucast (y :: uint16_t) \<longleftrightarrow> x < y"
  by (simp add: word_less_nat_alt unat_promote)

lemma unat_promote_diff:
  assumes "y \<le> x"
  shows "unat (ucast (x :: uint16_t) - ucast (y :: uint16_t) :: uint32_t) = unat x - unat y"
  using assms by (simp add: unat_sub promote_le_iff unat_promote)

lemma int16_of_sint: "sint (x :: int16_t) = k \<Longrightarrow> x = word_of_int k"
  by (metis of_int_sint scast_id)

lemma int16_wrap_of_offset:
  assumes "0 \<le> (x :: int)" "x \<le> 65535"
  shows "((x - 32768) mod 4294967296 + 32768) mod 65536 - 32768 = - 32768 + x"
proof -
  have d: "(65536 :: int) dvd 4294967296"
    by simp
  have "((x - 32768) mod 4294967296 + 32768) mod 65536
      = ((x - 32768) mod 4294967296 mod 65536 + 32768) mod 65536"
    by (simp only: mod_add_left_eq)
  also have "\<dots> = ((x - 32768) mod 65536 + 32768) mod 65536"
    by (simp only: mod_mod_cancel [OF d])
  also have "\<dots> = (x - 32768 + 32768) mod 65536"
    by (simp only: mod_add_left_eq)
  also have "\<dots> = x"
    using assms by simp
  finally show ?thesis
    by simp
qed

lemma sint_int16_of_sum:
  assumes "unat (q :: uint32_t) \<le> 65535"
  shows "sint (ucast ((word_of_int (- 32768) :: uint32_t) + q) :: int16_t) = - 32768 + int (unat q)"
proof -
  have e: "uint q = int (unat q)"
    by simp
  have a: "0 \<le> uint q" "uint q \<le> 65535"
    using assms e by linarith+
  have t: "(ucast ((word_of_int (- 32768) :: uint32_t) + q) :: int16_t)
             = word_of_int (uint ((word_of_int (- 32768) :: uint32_t) + q))"
    by simp
  have "sint (ucast ((word_of_int (- 32768) :: uint32_t) + q) :: int16_t)
      = ((uint q - 32768) mod 4294967296 + 32768) mod 65536 - 32768"
    by (subst t, subst int_word_sint) (simp add: uint_word_ariths)
  also have "\<dots> = - 32768 + uint q"
    by (rule int16_wrap_of_offset [OF a])
  finally show ?thesis
    by simp
qed

subsection \<open>The interpolation branch of the normalizer\<close>

lemma unat_scaled_pulse_offset:
  assumes "ChannelMinCount cal \<le> PulseTimerCount ic"
  shows "unat (scaled_pulse_offset ic cal)
           = (unat (PulseTimerCount ic) - unat (ChannelMinCount cal)) * 65535"
proof -
  let ?d = "ucast (PulseTimerCount ic) - ucast (ChannelMinCount cal) :: uint32_t"
  have d: "unat ?d = unat (PulseTimerCount ic) - unat (ChannelMinCount cal)"
    by (rule unat_promote_diff [OF assms])
  have "unat (PulseTimerCount ic) - unat (ChannelMinCount cal) \<le> 65535"
    using unat_uint16_less [of "PulseTimerCount ic"] by simp
  then have "(unat (PulseTimerCount ic) - unat (ChannelMinCount cal)) * 65535 \<le> 65535 * 65535"
    by (rule mult_le_mono1)
  then have "unat ?d * unat (65535 :: uint32_t) < 2 ^ LENGTH(32)"
    by (simp add: d)
  then have "unat (?d * 65535) = unat ?d * unat (65535 :: uint32_t)"
    by (simp only: unat_mult_lem)
  then show ?thesis
    by (simp add: scaled_pulse_offset_def UINT16_MAX_def d)
qed

lemma unat_calibration_span:
  assumes "ChannelMinCount cal \<le> ChannelMaxCount cal"
  shows "unat (calibration_span cal) = unat (ChannelMaxCount cal) - unat (ChannelMinCount cal)"
  unfolding calibration_span_def by (rule unat_promote_diff [OF assms])

lemma interpolation_quotient_le:
  assumes "PulseTimerCount ic \<le> ChannelMaxCount cal" "ChannelMinCount cal < ChannelMaxCount cal"
  shows "interpolation_quotient ic cal \<le> 65535"
proof -
  let ?p = "unat (PulseTimerCount ic)" and ?lo = "unat (ChannelMinCount cal)"
    and ?hi = "unat (ChannelMaxCount cal)"
  have pos: "0 < ?hi - ?lo"
    using assms(2) by (simp add: word_less_nat_alt)
  have "?p - ?lo \<le> ?hi - ?lo"
    using assms(1) by (simp add: word_le_nat_alt)
  then have "(?p - ?lo) * 65535 \<le> 65535 * (?hi - ?lo)"
    by simp
  then have "((?p - ?lo) * 65535) div (?hi - ?lo) \<le> (65535 * (?hi - ?lo)) div (?hi - ?lo)"
    by (rule div_le_mono)
  also have "\<dots> = 65535"
    using pos by simp
  finally show ?thesis
    by (simp add: interpolation_quotient_def)
qed

lemma sint_GetSignedReceiverChannel:
  assumes "ChannelMinCount cal \<le> PulseTimerCount ic"
    and "PulseTimerCount ic \<le> ChannelMaxCount cal"
    and "ChannelMinCount cal < ChannelMaxCount cal"
  shows "sint (GetSignedReceiverChannel ic cal) = INT16_MIN + int (interpolation_quotient ic cal)"
proof -
  let ?q = "scaled_pulse_offset ic cal div calibration_span cal"
  have q: "unat ?q = interpolation_quotient ic cal"
    using assms
    by (simp add: unat_div unat_scaled_pulse_offset unat_calibration_span
        interpolation_quotient_def)
  have "unat ?q \<le> 65535"
    unfolding q by (rule interpolation_quotient_le [OF assms(2,3)])
  then have "sint (ucast ((word_of_int (- 32768) :: uint32_t) + ?q) :: int16_t)
               = - 32768 + int (unat ?q)"
    by (rule sint_int16_of_sum)
  moreover have "\<not> PulseTimerCount ic < ChannelMinCount cal"
    and "\<not> PulseTimerCount ic > ChannelMaxCount cal"
    using assms(1,2) by (simp_all add: not_less)
  then have "GetSignedReceiverChannel ic cal
               = ucast ((word_of_int (- 32768) :: uint32_t) + ?q)"
    using assms(3) by (simp add: GetSignedReceiverChannel_def INT16_MIN_def)
  ultimately show ?thesis
    by (simp only: q INT16_MIN_def)
qed

subsection \<open>Claims about the value normalizer\<close>

text \<open>
  C1. For a calibration record with \<open>ChannelMaxCount > ChannelMinCount\<close> and pulse widths
  between the two bounds, \<open>GetSignedReceiverChannel\<close> is monotonically non-decreasing in
  the pulse width, returns exactly \<open>INT16_MIN\<close> at \<open>ChannelMinCount\<close> and exactly
  \<open>INT16_MAX\<close> at \<open>ChannelMaxCount\<close>.
\<close>

theorem GetSignedReceiverChannel_monotone_exact:
  assumes "ChannelMinCount cal < ChannelMaxCount cal"
  shows "(\<forall>p1 p2. ChannelMinCount cal \<le> p1 \<and> p1 \<le> p2 \<and> p2 \<le> ChannelMaxCount cal \<longrightarrow>
            sint (GetSignedReceiverChannel (ic\<lparr>PulseTimerCount := p1\<rparr>) cal)
              \<le> sint (GetSignedReceiverChannel (ic\<lparr>PulseTimerCount := p2\<rparr>) cal))
       \<and> GetSignedReceiverChannel (ic\<lparr>PulseTimerCount := ChannelMinCount cal\<rparr>) cal
           = word_of_int INT16_MIN
       \<and> sint (GetSignedReceiverChannel (ic\<lparr>PulseTimerCount := ChannelMinCount cal\<rparr>) cal)
           = INT16_MIN
       \<and> GetSignedReceiverChannel (ic\<lparr>PulseTimerCount := ChannelMaxCount cal\<rparr>) cal
           = word_of_int INT16_MAX
       \<and> sint (GetSignedReceiverChannel (ic\<lparr>PulseTimerCount := ChannelMaxCount cal\<rparr>) cal)
           = INT16_MAX"
proof -
  let ?lo = "unat (ChannelMinCount cal)" and ?hi = "unat (ChannelMaxCount cal)"
  have pos: "0 < ?hi - ?lo"
    using assms by (simp add: word_less_nat_alt)
  have le: "ChannelMinCount cal \<le> ChannelMaxCount cal"
    using assms by simp
  have mono: "sint (GetSignedReceiverChannel (ic\<lparr>PulseTimerCount := p1\<rparr>) cal)
                \<le> sint (GetSignedReceiverChannel (ic\<lparr>PulseTimerCount := p2\<rparr>) cal)"
    if b: "ChannelMinCount cal \<le> p1" "p1 \<le> p2" "p2 \<le> ChannelMaxCount cal" for p1 p2
  proof -
    have b1: "p1 \<le> ChannelMaxCount cal" and b2: "ChannelMinCount cal \<le> p2"
      using b by simp_all
    have "unat p1 - ?lo \<le> unat p2 - ?lo"
      using b(2) by (simp add: word_le_nat_alt)
    then have "(unat p1 - ?lo) * 65535 \<le> (unat p2 - ?lo) * 65535"
      by simp
    then have "((unat p1 - ?lo) * 65535) div (?hi - ?lo) \<le> ((unat p2 - ?lo) * 65535) div (?hi - ?lo)"
      by (rule div_le_mono)
    then have "interpolation_quotient (ic\<lparr>PulseTimerCount := p1\<rparr>) cal
                 \<le> interpolation_quotient (ic\<lparr>PulseTimerCount := p2\<rparr>) cal"
      by (simp add: interpolation_quotient_def)
    moreover have "sint (GetSignedReceiverChannel (ic\<lparr>PulseTimerCount := p1\<rparr>) cal)
                     = INT16_MIN + int (interpolation_quotient (ic\<lparr>PulseTimerCount := p1\<rparr>) cal)"
      using b(1) b1 assms by (intro sint_GetSignedReceiverChannel) simp_all
    moreover have "sint (GetSignedReceiverChannel (ic\<lparr>PulseTimerCount := p2\<rparr>) cal)
                     = INT16_MIN + int (interpolation_quotient (ic\<lparr>PulseTimerCount := p2\<rparr>) cal)"
      using b2 b(3) assms by (intro sint_GetSignedReceiverChannel) simp_all
    ultimately show ?thesis
      by simp
  qed
  have q_lo: "interpolation_quotient (ic\<lparr>PulseTimerCount := ChannelMinCount cal\<rparr>) cal = 0"
    by (simp add: interpolation_quotient_def)
  have q_hi: "interpolation_quotient (ic\<lparr>PulseTimerCount := ChannelMaxCount cal\<rparr>) cal = 65535"
    using pos by (simp add: interpolation_quotient_def)
  have s_lo: "sint (GetSignedReceiverChannel (ic\<lparr>PulseTimerCount := ChannelMinCount cal\<rparr>) cal)
                = INT16_MIN"
    using le assms q_lo
      sint_GetSignedReceiverChannel [of cal "ic\<lparr>PulseTimerCount := ChannelMinCount cal\<rparr>"]
    by simp
  have s_hi: "sint (GetSignedReceiverChannel (ic\<lparr>PulseTimerCount := ChannelMaxCount cal\<rparr>) cal)
                = INT16_MAX"
    using le assms q_hi
      sint_GetSignedReceiverChannel [of cal "ic\<lparr>PulseTimerCount := ChannelMaxCount cal\<rparr>"]
    by (simp add: INT16_MIN_def INT16_MAX_def)
  have w_lo: "GetSignedReceiverChannel (ic\<lparr>PulseTimerCount := ChannelMinCount cal\<rparr>) cal
                = word_of_int INT16_MIN"
    by (rule int16_of_sint [OF s_lo])
  have w_hi: "GetSignedReceiverChannel (ic\<lparr>PulseTimerCount := ChannelMaxCount cal\<rparr>) cal
                = word_of_int INT16_MAX"
    by (rule int16_of_sint [OF s_hi])
  show ?thesis
    using mono s_lo s_hi w_lo w_hi by blast
qed

theorem GetSignedReceiverChannel_monotone_exact_witness:
  "ChannelMinCount sample_cal < ChannelMaxCount sample_cal
   \<and> sint (GetSignedReceiverChannel (sample_ic\<lparr>PulseTimerCount := 2500\<rparr>) sample_cal)
       \<le> sint (GetSignedReceiverChannel (sample_ic\<lparr>PulseTimerCount := 3500\<rparr>) sample_cal)
   \<and> sint (GetSignedReceiverChannel (sample_ic\<lparr>PulseTimerCount := 2000\<rparr>) sample_cal) = - 32768
   \<and> sint (GetSignedReceiverChannel (sample_ic\<lparr>PulseTimerCount := 4000\<rparr>) sample_cal) = 32767"
proof -
  have h: "ChannelMinCount sample_cal < ChannelMaxCount sample_cal"
    by (simp add: sample_cal_def)
  note t = GetSignedReceiverChannel_monotone_exact [OF h, of sample_ic]
  have "ChannelMinCount sample_cal \<le> 2500 \<and> (2500 :: uint16_t) \<le> 3500
          \<and> 3500 \<le> ChannelMaxCount sample_cal"
    by (simp add: sample_cal_def)
  with t have "sint (GetSignedReceiverChannel (sample_ic\<lparr>PulseTimerCount := 2500\<rparr>) sample_cal)
       \<le> sint (GetSignedReceiverChannel (sample_ic\<lparr>PulseTimerCount := 3500\<rparr>) sample_cal)"
    by blast
  moreover from t
  have "sint (GetSignedReceiverChannel (sample_ic\<lparr>PulseTimerCount := 2000\<rparr>) sample_cal) = - 32768"
    and "sint (GetSignedReceiverChannel (sample_ic\<lparr>PulseTimerCount := 4000\<rparr>) sample_cal) = 32767"
    by (simp_all add: sample_cal_def INT16_MIN_def INT16_MAX_def)
  ultimately show ?thesis
    using h by simp
qed

text \<open>
  The calibration records of the module are ordered: a record accepted by
  \<open>IsCalibrationValuesValid\<close> has the minimum of every channel below its maximum, when the
  band of valid minima lies below the band of valid maxima.
\<close>

lemma IsCalibrationValuesValid_ordered:
  assumes "IsCalibrationValuesValid k cv = RECEIVER_OK"
    and "RECEIVER_MIN_CALIBRATION_MAX_PULSE_COUNT k < RECEIVER_MAX_CALIBRATION_MIN_PULSE_COUNT k"
  shows "ChannelMinCount (ThrottleChannel cv) < ChannelMaxCount (ThrottleChannel cv)"
    and "ChannelMinCount (AileronChannel cv) < ChannelMaxCount (AileronChannel cv)"
    and "ChannelMinCount (ElevatorChannel cv) < ChannelMaxCount (ElevatorChannel cv)"
    and "ChannelMinCount (RudderChannel cv) < ChannelMaxCount (RudderChannel cv)"
    and "ChannelMinCount (GearChannel cv) < ChannelMaxCount (GearChannel cv)"
    and "ChannelMinCount (Aux1Channel cv) < ChannelMaxCount (Aux1Channel cv)"
  using assms
  by (simp_all add: IsCalibrationValuesValid_def IsCalibrationMaxPulseValueValid_def
      IsCalibrationMinPulseValueValid_def status_ok_def word_less_nat_alt
      split: if_splits)

text \<open>
  C2. For every calibration record whose minimum is not above its maximum and every pulse
  width, \<open>GetSignedReceiverChannel\<close> returns \<open>INT16_MIN\<close> whenever the pulse is below
  \<open>ChannelMinCount\<close>, returns \<open>INT16_MAX\<close> whenever the pulse is above \<open>ChannelMaxCount\<close>,
  and returns 0 when the pulse lies within the bounds and the two bounds are equal.
\<close>

theorem GetSignedReceiverChannel_saturation:
  assumes "ChannelMinCount cal \<le> ChannelMaxCount cal"
  shows "(PulseTimerCount ic < ChannelMinCount cal \<longrightarrow>
            GetSignedReceiverChannel ic cal = word_of_int INT16_MIN
            \<and> sint (GetSignedReceiverChannel ic cal) = INT16_MIN)
       \<and> (ChannelMaxCount cal < PulseTimerCount ic \<longrightarrow>
            GetSignedReceiverChannel ic cal = word_of_int INT16_MAX
            \<and> sint (GetSignedReceiverChannel ic cal) = INT16_MAX)
       \<and> (ChannelMinCount cal \<le> PulseTimerCount ic \<and> PulseTimerCount ic \<le> ChannelMaxCount cal
            \<and> ChannelMaxCount cal = ChannelMinCount cal \<longrightarrow>
            GetSignedReceiverChannel ic cal = 0)"
proof -
  have lo: "sint (word_of_int INT16_MIN :: int16_t) = INT16_MIN"
    by (simp add: INT16_MIN_def)
  have hi: "sint (word_of_int INT16_MAX :: int16_t) = INT16_MAX"
    by (simp add: INT16_MAX_def)
  have above: "\<not> PulseTimerCount ic < ChannelMinCount cal"
    if "ChannelMaxCount cal < PulseTimerCount ic"
    using that assms by simp
  show ?thesis
    using lo hi above by (auto simp add: GetSignedReceiverChannel_def)
qed

theorem GetSignedReceiverChannel_saturation_witness:
  "ChannelMinCount sample_cal \<le> ChannelMaxCount sample_cal
   \<and> PulseTimerCount (sample_ic\<lparr>PulseTimerCount := 1500\<rparr>) < ChannelMinCount sample_cal
   \<and> sint (GetSignedReceiverChannel (sample_ic\<lparr>PulseTimerCount := 1500\<rparr>) sample_cal) = - 32768
   \<and> ChannelMaxCount sample_cal < PulseTimerCount (sample_ic\<lparr>PulseTimerCount := 4500\<rparr>)
   \<and> sint (GetSignedReceiverChannel (sample_ic\<lparr>PulseTimerCount := 4500\<rparr>) sample_cal) = 32767
   \<and> ChannelMinCount (sample_cal\<lparr>ChannelMaxCount := 2000\<rparr>)
       \<le> ChannelMaxCount (sample_cal\<lparr>ChannelMaxCount := 2000\<rparr>)
   \<and> GetSignedReceiverChannel (sample_ic\<lparr>PulseTimerCount := 2000\<rparr>)
         (sample_cal\<lparr>ChannelMaxCount := 2000\<rparr>) = 0"
proof -
  have h: "ChannelMinCount sample_cal \<le> ChannelMaxCount sample_cal"
    "ChannelMinCount (sample_cal\<lparr>ChannelMaxCount := 2000\<rparr>)
       \<le> ChannelMaxCount (sample_cal\<lparr>ChannelMaxCount := 2000\<rparr>)"
    by (simp_all add: sample_cal_def)
  show ?thesis
    using h
      GetSignedReceiverChannel_saturation [OF h(1), of "sample_ic\<lparr>PulseTimerCount := 1500\<rparr>"]
      GetSignedReceiverChannel_saturation [OF h(1), of "sample_ic\<lparr>PulseTimerCount := 4500\<rparr>"]
      GetSignedReceiverChannel_saturation [OF h(2), of "sample_ic\<lparr>PulseTimerCount := 2000\<rparr>"]
    by (simp add: sample_cal_def INT16_MIN_def INT16_MAX_def)
qed

text \<open>
  C10. For a pulse within the bounds of a calibration record with
  \<open>ChannelMaxCount > ChannelMinCount\<close>, the product
  \<open>(PulseTimerCount - ChannelMinCount) * 65535\<close> is below \<open>2 ^ 32\<close> and the 32-bit
  intermediate holds exactly that product; the value \<open>INT16_MIN + quotient\<close> lies in
  \<open>[-32768, 32767]\<close> and is the signed value of the \<open>int16_t\<close> returned.
\<close>

theorem GetSignedReceiverChannel_no_overflow:
  assumes "ChannelMinCount cal \<le> PulseTimerCount ic"
    and "PulseTimerCount ic \<le> ChannelMaxCount cal"
    and "ChannelMinCount cal < ChannelMaxCount cal"
  shows "(unat (PulseTimerCount ic) - unat (ChannelMinCount cal)) * 65535 < 2 ^ 32
       \<and> unat (scaled_pulse_offset ic cal)
           = (unat (PulseTimerCount ic) - unat (ChannelMinCount cal)) * 65535
       \<and> unat (scaled_pulse_offset ic cal div calibration_span cal)
           = interpolation_quotient ic cal
       \<and> - 32768 \<le> INT16_MIN + int (interpolation_quotient ic cal)
       \<and> INT16_MIN + int (interpolation_quotient ic cal) \<le> 32767
       \<and> sint (GetSignedReceiverChannel ic cal) = INT16_MIN + int (interpolation_quotient ic cal)"
proof -
  have "unat (PulseTimerCount ic) - unat (ChannelMinCount cal) \<le> 65535"
    using unat_uint16_less [of "PulseTimerCount ic"] by simp
  then have "(unat (PulseTimerCount ic) - unat (ChannelMinCount cal)) * 65535 \<le> 65535 * 65535"
    by (rule mult_le_mono1)
  then have fits: "(unat (PulseTimerCount ic) - unat (ChannelMinCount cal)) * 65535 < 2 ^ 32"
    by simp
  have prod: "unat (scaled_pulse_offset ic cal)
                = (unat (PulseTimerCount ic) - unat (ChannelMinCount cal)) * 65535"
    by (rule unat_scaled_pulse_offset [OF assms(1)])
  have quot: "unat (scaled_pulse_offset ic cal div calibration_span cal)
                = interpolation_quotient ic cal"
    using assms(3)
    by (simp add: unat_div prod unat_calibration_span interpolation_quotient_def)
  have q: "interpolation_quotient ic cal \<le> 65535"
    by (rule interpolation_quotient_le [OF assms(2,3)])
  have lo: "- 32768 \<le> INT16_MIN + int (interpolation_quotient ic cal)"
    by (simp add: INT16_MIN_def)
  have hi: "INT16_MIN + int (interpolation_quotient ic cal) \<le> 32767"
    using q by (simp add: INT16_MIN_def)
  have res: "sint (GetSignedReceiverChannel ic cal) = INT16_MIN + int (interpolation_quotient ic cal)"
    by (rule sint_GetSignedReceiverChannel [OF assms])
  show ?thesis
    using fits prod quot lo hi res by blast
qed

theorem GetSignedReceiverChannel_no_overflow_witness:
  "ChannelMinCount sample_cal \<le> PulseTimerCount sample_ic
   \<and> PulseTimerCount sample_ic \<le> ChannelMaxCount sample_cal
   \<and> ChannelMinCount sample_cal < ChannelMaxCount sample_cal
   \<and> unat (scaled_pulse_offset sample_ic sample_cal) = 65535000
   \<and> sint (GetSignedReceiverChannel sample_ic sample_cal) = - 1"
proof -
  have h: "ChannelMinCount sample_cal \<le> PulseTimerCount sample_ic"
    "PulseTimerCount sample_ic \<le> ChannelMaxCount sample_cal"
    "ChannelMinCount sample_cal < ChannelMaxCount sample_cal"
    by (simp_all add: sample_cal_def sample_ic_def)
  have q: "interpolation_quotient sample_ic sample_cal = 32767"
    by (simp add: interpolation_quotient_def sample_cal_def sample_ic_def)
  show ?thesis
    using h GetSignedReceiverChannel_no_overflow [OF h]
    by (simp add: q INT16_MIN_def) (simp add: sample_cal_def sample_ic_def)
qed

subsection \<open>The calibration sampler keeps its cache consistent\<close>

lemma unat_index: "i < 65536 \<Longrightarrow> unat (of_nat i :: uint16_t) = i"
  by (simp add: unsigned_of_nat take_bit_nat_eq_self)

lemma word16_le_max: "(x :: uint16_t) \<le> 0xFFFF"
  using unat_uint16_less [of x] by (simp add: word_le_nat_alt)

lemma scan_max_prefix:
  assumes "n \<le> length (maxSamplesBuffer s)" "n \<le> 65536"
  shows "let t = fold scan_max_buffer_step [0 ..< n] s in
           maxSamplesBuffer t = maxSamplesBuffer s
         \<and> tmpMaxBufferMinValue t = Min (insert (tmpMaxBufferMinValue s) (set (take n (maxSamplesBuffer s))))
         \<and> (if tmpMaxBufferMinValue t < tmpMaxBufferMinValue s
            then unat (tmpMaxIndex t) < n
               \<and> maxSamplesBuffer s ! unat (tmpMaxIndex t) = tmpMaxBufferMinValue t
               \<and> \<not> maxBufferUpdated t
            else t = s)
         \<and> (\<exists>v i b. t = s\<lparr>tmpMaxBufferMinValue := v, tmpMaxIndex := i, maxBufferUpdated := b\<rparr>)"
  using assms
proof (induction n)
  case 0
  show ?case
    apply (simp add: Let_def)
    apply (rule exI [of _ "tmpMaxBufferMinValue s"], rule exI [of _ "tmpMaxIndex s"], rule exI [of _ "maxBufferUpdated s"])
    apply simp
    done
next
  case (Suc n)
  let ?t = "fold scan_max_buffer_step [0 ..< n] s"
  let ?buf = "maxSamplesBuffer s"
  from Suc have n: "n < length ?buf" "n < 65536" by simp_all
  from Suc have IH: "maxSamplesBuffer ?t = ?buf"
    "tmpMaxBufferMinValue ?t = Min (insert (tmpMaxBufferMinValue s) (set (take n ?buf)))"
    "if tmpMaxBufferMinValue ?t < tmpMaxBufferMinValue s
            then unat (tmpMaxIndex ?t) < n
               \<and> ?buf ! unat (tmpMaxIndex ?t) = tmpMaxBufferMinValue ?t
               \<and> \<not> maxBufferUpdated ?t
            else ?t = s"
    "\<exists>v i b. ?t = s\<lparr>tmpMaxBufferMinValue := v, tmpMaxIndex := i, maxBufferUpdated := b\<rparr>"
    by (simp_all add: Let_def)
  have f: "fold scan_max_buffer_step [0 ..< Suc n] s = scan_max_buffer_step n ?t"
    by simp
  have tk: "set (take (Suc n) ?buf) = insert (?buf ! n) (set (take n ?buf))"
    using n(1) by (simp add: take_Suc_conv_app_nth)
  have le: "tmpMaxBufferMinValue ?t \<le> tmpMaxBufferMinValue s"
    unfolding IH(2) by simp
  have "Min (insert (?buf ! n) (insert (tmpMaxBufferMinValue s) (set (take n ?buf))))
          = min (?buf ! n) (Min (insert (tmpMaxBufferMinValue s) (set (take n ?buf))))"
    by (rule Min_insert) simp_all
  then have mn: "Min (insert (tmpMaxBufferMinValue s) (set (take (Suc n) ?buf)))
                   = min (?buf ! n) (tmpMaxBufferMinValue ?t)"
    by (simp only: tk IH(2) insert_commute [of "tmpMaxBufferMinValue s"])
  show ?case
  proof (cases "tmpMaxBufferMinValue ?t > ?buf ! n")
    case True
    then have st: "scan_max_buffer_step n ?t = ?t\<lparr>tmpMaxBufferMinValue := ?buf ! n,
             tmpMaxIndex := of_nat n, maxBufferUpdated := False\<rparr>"
      by (simp add: scan_max_buffer_step_def IH(1))
    have m: "Min (insert (tmpMaxBufferMinValue s) (set (take (Suc n) ?buf))) = ?buf ! n"
      unfolding mn using True by (intro min_absorb1) simp
    have lt: "?buf ! n < tmpMaxBufferMinValue s"
      using True le by simp
    obtain v i b where t: "?t = s\<lparr>tmpMaxBufferMinValue := v, tmpMaxIndex := i, maxBufferUpdated := b\<rparr>"
      using IH(4) by blast
    have "scan_max_buffer_step n ?t = s\<lparr>tmpMaxBufferMinValue := ?buf ! n, tmpMaxIndex := of_nat n, maxBufferUpdated := False\<rparr>"
      by (subst st, subst t) simp
    then have ex: "\<exists>v i b. scan_max_buffer_step n ?t = s\<lparr>tmpMaxBufferMinValue := v, tmpMaxIndex := i, maxBufferUpdated := b\<rparr>"
      by blast
    show ?thesis
      unfolding Let_def f using lt m ex n
      by (simp add: st IH(1) unat_index)
  next
    case False
    then have st: "scan_max_buffer_step n ?t = ?t"
      by (simp add: scan_max_buffer_step_def IH(1))
    have m: "Min (insert (tmpMaxBufferMinValue s) (set (take (Suc n) ?buf))) = tmpMaxBufferMinValue ?t"
      unfolding mn using False by (intro min_absorb2) simp
    show ?thesis
      unfolding Let_def f st using IH m
      by (auto split: if_splits)
  qed
qed


lemma Min_insert_top: "xs \<noteq> [] \<Longrightarrow> Min (insert 0xFFFF (set xs)) = Min (set (xs :: uint16_t list))"
proof -
  assume "xs \<noteq> []"
  then have "Min (insert 0xFFFF (set xs)) = min 0xFFFF (Min (set xs))"
    by (intro Min_insert) simp_all
  also have "\<dots> = Min (set xs)"
    by (intro min_absorb2 word16_le_max)
  finally show ?thesis .
qed

lemma max_cache_ready:
  assumes "buffer_size_ok k" "max_side_inv k s"
  shows "let s1 = (if maxBufferUpdated s then scan_max_buffer k s else s) in
           max_side_inv k s1
         \<and> tmpMaxBufferMinValue s1 = Min (set (maxSamplesBuffer s))
         \<and> maxSamplesBuffer s1 = maxSamplesBuffer s
         \<and> (\<exists>v i b. s1 = s\<lparr>tmpMaxBufferMinValue := v, tmpMaxIndex := i, maxBufferUpdated := b\<rparr>)"
proof (cases "maxBufferUpdated s")
  case False
  have "s = s\<lparr>tmpMaxBufferMinValue := tmpMaxBufferMinValue s, tmpMaxIndex := tmpMaxIndex s,
               maxBufferUpdated := maxBufferUpdated s\<rparr>"
    by simp
  then have "\<exists>v i b. s = s\<lparr>tmpMaxBufferMinValue := v, tmpMaxIndex := i, maxBufferUpdated := b\<rparr>"
    by blast
  then show ?thesis
    using False assms(2) by (simp add: max_side_inv_def)
next
  case True
  let ?n = "RECEIVER_CALIBRATION_SAMPLES_BUFFER_SIZE k"
  let ?t = "fold scan_max_buffer_step [0 ..< ?n] s"
  let ?buf = "maxSamplesBuffer s"
  have len: "length ?buf = ?n" and top: "tmpMaxBufferMinValue s = 0xFFFF"
    and idx: "unat (tmpMaxIndex s) < ?n"
    using assms(2) True by (simp_all add: max_side_inv_def)
  have ne: "?buf \<noteq> []"
    using len assms(1) by (auto simp add: buffer_size_ok_def)
  have "?n \<le> length ?buf" "?n \<le> 65536"
    using len assms(1) by (simp_all add: buffer_size_ok_def)
  note sc = scan_max_prefix [OF this, unfolded Let_def]
  have b: "maxSamplesBuffer ?t = ?buf"
    using sc by blast
  have tk: "take ?n ?buf = ?buf"
    using len by simp
  have "tmpMaxBufferMinValue ?t = Min (insert (tmpMaxBufferMinValue s) (set (take ?n ?buf)))"
    using sc by blast
  then have m: "tmpMaxBufferMinValue ?t = Min (set ?buf)"
    by (simp only: tk top Min_insert_top [OF ne])
  have c: "if tmpMaxBufferMinValue ?t < tmpMaxBufferMinValue s
            then unat (tmpMaxIndex ?t) < ?n
               \<and> ?buf ! unat (tmpMaxIndex ?t) = tmpMaxBufferMinValue ?t
               \<and> \<not> maxBufferUpdated ?t
            else ?t = s"
    using sc by blast
  have e: "\<exists>v i b. ?t = s\<lparr>tmpMaxBufferMinValue := v, tmpMaxIndex := i, maxBufferUpdated := b\<rparr>"
    using sc by blast
  have inv: "max_side_inv k ?t"
  proof (cases "tmpMaxBufferMinValue ?t < tmpMaxBufferMinValue s")
    case True
    with c show ?thesis
      by (simp add: max_side_inv_def b len m)
  next
    case False
    with c have "?t = s" by simp
    then show ?thesis using assms(2) by simp
  qed
  show ?thesis
    using True inv m b e by (simp add: scan_max_buffer_def)
qed

lemma Min_update_ge:
  assumes "i < length xs" "Min (set xs) \<le> (p :: uint16_t)"
  shows "Min (set xs) \<le> Min (set (xs[i := p]))"
proof -
  have ne: "xs[i := p] \<noteq> []"
    using assms(1) by auto
  have "\<And>a. a \<in> set (xs[i := p]) \<Longrightarrow> Min (set xs) \<le> a"
  proof -
    fix a assume "a \<in> set (xs[i := p])"
    then have "a = p \<or> a \<in> set xs"
      using set_update_subset_insert [of xs i p] by auto
    then show "Min (set xs) \<le> a"
      using assms(2) by auto
  qed
  then show ?thesis
    using ne by (intro Min.boundedI) simp_all
qed

lemma update_max_samples_spec:
  assumes "buffer_size_ok k" "max_side_inv k s"
  shows "(if Min (set (maxSamplesBuffer s)) < p
          then \<exists>i < RECEIVER_CALIBRATION_SAMPLES_BUFFER_SIZE k.
                 maxSamplesBuffer s ! i = Min (set (maxSamplesBuffer s))
                 \<and> maxSamplesBuffer (update_max_samples k p s) = (maxSamplesBuffer s)[i := p]
          else maxSamplesBuffer (update_max_samples k p s) = maxSamplesBuffer s)
       \<and> Min (set (maxSamplesBuffer s)) \<le> Min (set (maxSamplesBuffer (update_max_samples k p s)))
       \<and> max_side_inv k (update_max_samples k p s)
       \<and> (\<exists>v i b m. update_max_samples k p s
             = s\<lparr>tmpMaxBufferMinValue := v, tmpMaxIndex := i, maxBufferUpdated := b,
                 maxSamplesBuffer := m\<rparr>)"
proof -
  let ?s1 = "if maxBufferUpdated s then scan_max_buffer k s else s"
  let ?buf = "maxSamplesBuffer s"
  note r = max_cache_ready [OF assms, unfolded Let_def]
  have inv1: "max_side_inv k ?s1" and m: "tmpMaxBufferMinValue ?s1 = Min (set ?buf)"
    and b: "maxSamplesBuffer ?s1 = ?buf"
    using r by blast+
  obtain v i c where e: "?s1 = s\<lparr>tmpMaxBufferMinValue := v, tmpMaxIndex := i, maxBufferUpdated := c\<rparr>"
    using r by blast
  have len: "length ?buf = RECEIVER_CALIBRATION_SAMPLES_BUFFER_SIZE k"
    using assms(2) by (simp add: max_side_inv_def)
  have idx: "unat (tmpMaxIndex ?s1) < RECEIVER_CALIBRATION_SAMPLES_BUFFER_SIZE k"
    using inv1 by (simp add: max_side_inv_def)
  show ?thesis
  proof (cases "Min (set ?buf) < p")
    case True
    have "\<not> maxBufferUpdated ?s1"
    proof
      assume "maxBufferUpdated ?s1"
      then have "tmpMaxBufferMinValue ?s1 = 0xFFFF"
        using inv1 by (simp add: max_side_inv_def)
      then show False
        using True m word16_le_max [of p] by simp
    qed
    then have at: "?buf ! unat (tmpMaxIndex ?s1) = Min (set ?buf)"
      using inv1 m b by (simp add: max_side_inv_def)
    have u: "update_max_samples k p s
               = ?s1\<lparr>tmpMaxBufferMinValue := 0xFFFF,
                      maxSamplesBuffer := ?buf[unat (tmpMaxIndex ?s1) := p],
                      maxBufferUpdated := True\<rparr>"
      using True m b by (simp add: update_max_samples_def Let_def)
    have ub: "maxSamplesBuffer (update_max_samples k p s) = ?buf[unat (tmpMaxIndex ?s1) := p]"
      by (simp add: u)
    have ge: "Min (set ?buf) \<le> Min (set (?buf[unat (tmpMaxIndex ?s1) := p]))"
      using idx True by (intro Min_update_ge) (simp_all add: len)
    have inv': "max_side_inv k (update_max_samples k p s)"
      using idx by (simp add: u max_side_inv_def len)
    have "update_max_samples k p s
            = s\<lparr>tmpMaxBufferMinValue := 0xFFFF, tmpMaxIndex := i, maxBufferUpdated := True,
                maxSamplesBuffer := ?buf[unat (tmpMaxIndex ?s1) := p]\<rparr>"
      by (subst u, subst (1) e) simp
    then have ex: "\<exists>v i b m. update_max_samples k p s
             = s\<lparr>tmpMaxBufferMinValue := v, tmpMaxIndex := i, maxBufferUpdated := b,
                 maxSamplesBuffer := m\<rparr>"
      by blast
    show ?thesis
      using True idx at ub ge inv' ex by (simp only: if_True) blast
  next
    case False
    have u: "update_max_samples k p s = ?s1"
      using False m by (simp add: update_max_samples_def Let_def)
    have "?s1 = s\<lparr>tmpMaxBufferMinValue := v, tmpMaxIndex := i, maxBufferUpdated := c,
                maxSamplesBuffer := ?buf\<rparr>"
      by (subst (1) e) simp
    then have ex: "\<exists>v i b m. update_max_samples k p s
             = s\<lparr>tmpMaxBufferMinValue := v, tmpMaxIndex := i, maxBufferUpdated := b,
                 maxSamplesBuffer := m\<rparr>"
      unfolding u by blast
    show ?thesis
      using False inv1 b ex by (simp only: if_False u) simp
  qed
qed


lemma scan_min_prefix:
  assumes "n \<le> length (minSamplesBuffer s)" "n \<le> 65536"
  shows "let t = fold scan_min_buffer_step [0 ..< n] s in
           minSamplesBuffer t = minSamplesBuffer s
         \<and> tmpMinBufferMaxValue t = Max (insert (tmpMinBufferMaxValue s) (set (take n (minSamplesBuffer s))))
         \<and> (if tmpMinBufferMaxValue s < tmpMinBufferMaxValue t
            then unat (tmpMinIndex t) < n
               \<and> minSamplesBuffer s ! unat (tmpMinIndex t) = tmpMinBufferMaxValue t
               \<and> \<not> minBufferUpdated t
            else t = s)
         \<and> (\<exists>v i b. t = s\<lparr>tmpMinBufferMaxValue := v, tmpMinIndex := i, minBufferUpdated := b\<rparr>)"
  using assms
proof (induction n)
  case 0
  show ?case
    apply (simp add: Let_def)
    apply (rule exI [of _ "tmpMinBufferMaxValue s"], rule exI [of _ "tmpMinIndex s"], rule exI [of _ "minBufferUpdated s"])
    apply simp
    done
next
  case (Suc n)
  let ?t = "fold scan_min_buffer_step [0 ..< n] s"
  let ?buf = "minSamplesBuffer s"
  from Suc have n: "n < length ?buf" "n < 65536" by simp_all
  from Suc have IH: "minSamplesBuffer ?t = ?buf"
    "tmpMinBufferMaxValue ?t = Max (insert (tmpMinBufferMaxValue s) (set (take n ?buf)))"
    "if tmpMinBufferMaxValue s < tmpMinBufferMaxValue ?t
            then unat (tmpMinIndex ?t) < n
               \<and> ?buf ! unat (tmpMinIndex ?t) = tmpMinBufferMaxValue ?t
               \<and> \<not> minBufferUpdated ?t
            else ?t = s"
    "\<exists>v i b. ?t = s\<lparr>tmpMinBufferMaxValue := v, tmpMinIndex := i, minBufferUpdated := b\<rparr>"
    by (simp_all add: Let_def)
  have f: "fold scan_min_buffer_step [0 ..< Suc n] s = scan_min_buffer_step n ?t"
    by simp
  have tk: "set (take (Suc n) ?buf) = insert (?buf ! n) (set (take n ?buf))"
    using n(1) by (simp add: take_Suc_conv_app_nth)
  have le: "tmpMinBufferMaxValue s \<le> tmpMinBufferMaxValue ?t"
    unfolding IH(2) by simp
  have "Max (insert (?buf ! n) (insert (tmpMinBufferMaxValue s) (set (take n ?buf))))
          = max (?buf ! n) (Max (insert (tmpMinBufferMaxValue s) (set (take n ?buf))))"
    by (rule Max_insert) simp_all
  then have mn: "Max (insert (tmpMinBufferMaxValue s) (set (take (Suc n) ?buf)))
                   = max (?buf ! n) (tmpMinBufferMaxValue ?t)"
    by (simp only: tk IH(2) insert_commute [of "tmpMinBufferMaxValue s"])
  show ?case
  proof (cases "tmpMinBufferMaxValue ?t < ?buf ! n")
    case True
    then have st: "scan_min_buffer_step n ?t = ?t\<lparr>tmpMinBufferMaxValue := ?buf ! n,
             tmpMinIndex := of_nat n, minBufferUpdated := False\<rparr>"
      by (simp add: scan_min_buffer_step_def IH(1))
    have m: "Max (insert (tmpMinBufferMaxValue s) (set (take (Suc n) ?buf))) = ?buf ! n"
      unfolding mn using True by (intro max_absorb1) simp
    have lt: "tmpMinBufferMaxValue s < ?buf ! n"
      using True le by simp
    obtain v i b where t: "?t = s\<lparr>tmpMinBufferMaxValue := v, tmpMinIndex := i, minBufferUpdated := b\<rparr>"
      using IH(4) by blast
    have "scan_min_buffer_step n ?t = s\<lparr>tmpMinBufferMaxValue := ?buf ! n, tmpMinIndex := of_nat n, minBufferUpdated := False\<rparr>"
      by (subst st, subst t) simp
    then have ex: "\<exists>v i b. scan_min_buffer_step n ?t = s\<lparr>tmpMinBufferMaxValue := v, tmpMinIndex := i, minBufferUpdated := b\<rparr>"
      by blast
    show ?thesis
      unfolding Let_def f using lt m ex n
      by (simp add: st IH(1) unat_index)
  next
    case False
    then have st: "scan_min_buffer_step n ?t = ?t"
      by (simp add: scan_min_buffer_step_def IH(1))
    have m: "Max (insert (tmpMinBufferMaxValue s) (set (take (Suc n) ?buf))) = tmpMinBufferMaxValue ?t"
      unfolding mn using False by (intro max_absorb2) simp
    show ?thesis
      unfolding Let_def f st using IH m
      by (auto split: if_splits)
  qed
qed


lemma Max_insert_bot: "xs \<noteq> [] \<Longrightarrow> Max (insert 0 (set xs)) = Max (set (xs :: uint16_t list))"
proof -
  assume "xs \<noteq> []"
  then have "Max (insert 0 (set xs)) = max 0 (Max (set xs))"
    by (intro Max_insert) simp_all
  also have "\<dots> = Max (set xs)"
    by (intro max_absorb2) simp
  finally show ?thesis .
qed

lemma min_cache_ready:
  assumes "buffer_size_ok k" "min_side_inv k s"
  shows "let s1 = (if minBufferUpdated s then scan_min_buffer k s else s) in
           min_side_inv k s1
         \<and> tmpMinBufferMaxValue s1 = Max (set (minSamplesBuffer s))
         \<and> minSamplesBuffer s1 = minSamplesBuffer s
         \<and> (\<exists>v i b. s1 = s\<lparr>tmpMinBufferMaxValue := v, tmpMinIndex := i, minBufferUpdated := b\<rparr>)"
proof (cases "minBufferUpdated s")
  case False
  have "s = s\<lparr>tmpMinBufferMaxValue := tmpMinBufferMaxValue s, tmpMinIndex := tmpMinIndex s,
               minBufferUpdated := minBufferUpdated s\<rparr>"
    by simp
  then have "\<exists>v i b. s = s\<lparr>tmpMinBufferMaxValue := v, tmpMinIndex := i, minBufferUpdated := b\<rparr>"
    by blast
  then show ?thesis
    using False assms(2) by (simp add: min_side_inv_def)
next
  case True
  let ?n = "RECEIVER_CALIBRATION_SAMPLES_BUFFER_SIZE k"
  let ?t = "fold scan_min_buffer_step [0 ..< ?n] s"
  let ?buf = "minSamplesBuffer s"
  have len: "length ?buf = ?n" and top: "tmpMinBufferMaxValue s = 0"
    and idx: "unat (tmpMinIndex s) < ?n"
    using assms(2) True by (simp_all add: min_side_inv_def)
  have ne: "?buf \<noteq> []"
    using len assms(1) by (auto simp add: buffer_size_ok_def)
  have "?n \<le> length ?buf" "?n \<le> 65536"
    using len assms(1) by (simp_all add: buffer_size_ok_def)
  note sc = scan_min_prefix [OF this, unfolded Let_def]
  have b: "minSamplesBuffer ?t = ?buf"
    using sc by blast
  have tk: "take ?n ?buf = ?buf"
    using len by simp
  have "tmpMinBufferMaxValue ?t = Max (insert (tmpMinBufferMaxValue s) (set (take ?n ?buf)))"
    using sc by blast
  then have m: "tmpMinBufferMaxValue ?t = Max (set ?buf)"
    by (simp only: tk top Max_insert_bot [OF ne])
  have c: "if tmpMinBufferMaxValue s < tmpMinBufferMaxValue ?t
            then unat (tmpMinIndex ?t) < ?n
               \<and> ?buf ! unat (tmpMinIndex ?t) = tmpMinBufferMaxValue ?t
               \<and> \<not> minBufferUpdated ?t
            else ?t = s"
    using sc by blast
  have e: "\<exists>v i b. ?t = s\<lparr>tmpMinBufferMaxValue := v, tmpMinIndex := i, minBufferUpdated := b\<rparr>"
    using sc by blast
  have inv: "min_side_inv k ?t"
  proof (cases "tmpMinBufferMaxValue s < tmpMinBufferMaxValue ?t")
    case True
    with c show ?thesis
      by (simp add: min_side_inv_def b len m)
  next
    case False
    with c have "?t = s" by simp
    then show ?thesis using assms(2) by simp
  qed
  show ?thesis
    using True inv m b e by (simp add: scan_min_buffer_def)
qed

lemma Max_update_le:
  assumes "i < length xs" "(p :: uint16_t) \<le> Max (set xs)"
  shows "Max (set (xs[i := p])) \<le> Max (set xs)"
proof -
  have ne: "xs[i := p] \<noteq> []"
    using assms(1) by auto
  have "\<And>a. a \<in> set (xs[i := p]) \<Longrightarrow> a \<le> Max (set xs)"
  proof -
    fix a assume "a \<in> set (xs[i := p])"
    then have "a = p \<or> a \<in> set xs"
      using set_update_subset_insert [of xs i p] by auto
    then show "a \<le> Max (set xs)"
      using assms(2) by auto
  qed
  then show ?thesis
    using ne by (intro Max.boundedI) simp_all
qed

lemma update_min_samples_spec:
  assumes "buffer_size_ok k" "min_side_inv k s"
  shows "(if p < Max (set (minSamplesBuffer s))
          then \<exists>i < RECEIVER_CALIBRATION_SAMPLES_BUFFER_SIZE k.
                 minSamplesBuffer s ! i = Max (set (minSamplesBuffer s))
                 \<and> minSamplesBuffer (update_min_samples k p s) = (minSamplesBuffer s)[i := p]
          else minSamplesBuffer (update_min_samples k p s) = minSamplesBuffer s)
       \<and> Max (set (minSamplesBuffer (update_min_samples k p s))) \<le> Max (set (minSamplesBuffer s))
       \<and> min_side_inv k (update_min_samples k p s)
       \<and> (\<exists>v i b m. update_min_samples k p s
             = s\<lparr>tmpMinBufferMaxValue := v, tmpMinIndex := i, minBufferUpdated := b,
                 minSamplesBuffer := m\<rparr>)"
proof -
  let ?s1 = "if minBufferUpdated s then scan_min_buffer k s else s"
  let ?buf = "minSamplesBuffer s"
  note r = min_cache_ready [OF assms, unfolded Let_def]
  have inv1: "min_side_inv k ?s1" and m: "tmpMinBufferMaxValue ?s1 = Max (set ?buf)"
    and b: "minSamplesBuffer ?s1 = ?buf"
    using r by blast+
  obtain v i c where e: "?s1 = s\<lparr>tmpMinBufferMaxValue := v, tmpMinIndex := i, minBufferUpdated := c\<rparr>"
    using r by blast
  have len: "length ?buf = RECEIVER_CALIBRATION_SAMPLES_BUFFER_SIZE k"
    using assms(2) by (simp add: min_side_inv_def)
  have idx: "unat (tmpMinIndex ?s1) < RECEIVER_CALIBRATION_SAMPLES_BUFFER_SIZE k"
    using inv1 by (simp add: min_side_inv_def)
  show ?thesis
  proof (cases "p < Max (set ?buf)")
    case True
    have "\<not> minBufferUpdated ?s1"
    proof
      assume "minBufferUpdated ?s1"
      then have "tmpMinBufferMaxValue ?s1 = 0"
        using inv1 by (simp add: min_side_inv_def)
      then show False
        using True m by simp
    qed
    then have at: "?buf ! unat (tmpMinIndex ?s1) = Max (set ?buf)"
      using inv1 m b by (simp add: min_side_inv_def)
    have u: "update_min_samples k p s
               = ?s1\<lparr>tmpMinBufferMaxValue := 0,
                      minSamplesBuffer := ?buf[unat (tmpMinIndex ?s1) := p],
                      minBufferUpdated := True\<rparr>"
      using True m b by (simp add: update_min_samples_def Let_def)
    have ub: "minSamplesBuffer (update_min_samples k p s) = ?buf[unat (tmpMinIndex ?s1) := p]"
      by (simp add: u)
    have ge: "Max (set (?buf[unat (tmpMinIndex ?s1) := p])) \<le> Max (set ?buf)"
      using idx True by (intro Max_update_le) (simp_all add: len)
    have inv': "min_side_inv k (update_min_samples k p s)"
      using idx by (simp add: u min_side_inv_def len)
    have "update_min_samples k p s
            = s\<lparr>tmpMinBufferMaxValue := 0, tmpMinIndex := i, minBufferUpdated := True,
                minSamplesBuffer := ?buf[unat (tmpMinIndex ?s1) := p]\<rparr>"
      by (subst u, subst (1) e) simp
    then have ex: "\<exists>v i b m. update_min_samples k p s
             = s\<lparr>tmpMinBufferMaxValue := v, tmpMinIndex := i, minBufferUpdated := b,
                 minSamplesBuffer := m\<rparr>"
      by blast
    show ?thesis
      using True idx at ub ge inv' ex by (simp only: if_True) blast
  next
    case False
    have u: "update_min_samples k p s = ?s1"
      using False m by (simp add: update_min_samples_def Let_def)
    have "?s1 = s\<lparr>tmpMinBufferMaxValue := v, tmpMinIndex := i, minBufferUpdated := c,
                minSamplesBuffer := ?buf\<rparr>"
      by (subst (1) e) simp
    then have ex: "\<exists>v i b m. update_min_samples k p s
             = s\<lparr>tmpMinBufferMaxValue := v, tmpMinIndex := i, minBufferUpdated := b,
                 minSamplesBuffer := m\<rparr>"
      unfolding u by blast
    show ?thesis
      using False inv1 b ex by (simp only: if_False u) simp
  qed
qed



lemma ResetCalibrationSampling_inv:
  assumes "buffer_size_ok k"
  shows "max_side_inv k (ResetCalibrationSampling k s) \<and> min_side_inv k (ResetCalibrationSampling k s)"
  using assms
  by (simp add: max_side_inv_def min_side_inv_def ResetCalibrationSampling_def buffer_size_ok_def)

lemma min_side_inv_max_fields:
  "min_side_inv k (s\<lparr>tmpMaxBufferMinValue := v, tmpMaxIndex := i, maxBufferUpdated := b,
                      maxSamplesBuffer := m\<rparr>) = min_side_inv k s"
  by (simp add: min_side_inv_def)

lemma max_side_inv_min_fields:
  "max_side_inv k (s\<lparr>tmpMinBufferMaxValue := v, tmpMinIndex := i, minBufferUpdated := b,
                      minSamplesBuffer := m\<rparr>) = max_side_inv k s"
  by (simp add: max_side_inv_def)

lemma UpdateChannelCalibrationSamples_spec:
  assumes "buffer_size_ok k" "max_side_inv k s" "min_side_inv k s"
  shows "(if Min (set (maxSamplesBuffer s)) < p
          then \<exists>i < RECEIVER_CALIBRATION_SAMPLES_BUFFER_SIZE k.
                 maxSamplesBuffer s ! i = Min (set (maxSamplesBuffer s))
                 \<and> maxSamplesBuffer (snd (UpdateChannelCalibrationSamples k s p))
                     = (maxSamplesBuffer s)[i := p]
          else maxSamplesBuffer (snd (UpdateChannelCalibrationSamples k s p)) = maxSamplesBuffer s)
       \<and> (if p < Max (set (minSamplesBuffer s))
          then \<exists>i < RECEIVER_CALIBRATION_SAMPLES_BUFFER_SIZE k.
                 minSamplesBuffer s ! i = Max (set (minSamplesBuffer s))
                 \<and> minSamplesBuffer (snd (UpdateChannelCalibrationSamples k s p))
                     = (minSamplesBuffer s)[i := p]
          else minSamplesBuffer (snd (UpdateChannelCalibrationSamples k s p)) = minSamplesBuffer s)
       \<and> Min (set (maxSamplesBuffer s))
           \<le> Min (set (maxSamplesBuffer (snd (UpdateChannelCalibrationSamples k s p))))
       \<and> Max (set (minSamplesBuffer (snd (UpdateChannelCalibrationSamples k s p))))
           \<le> Max (set (minSamplesBuffer s))
       \<and> max_side_inv k (snd (UpdateChannelCalibrationSamples k s p))
       \<and> min_side_inv k (snd (UpdateChannelCalibrationSamples k s p))"
proof -
  let ?s1 = "update_max_samples k p s"
  let ?s2 = "update_min_samples k p ?s1"
  note mx = update_max_samples_spec [OF assms(1,2), of p]
  obtain v i b m where e1: "?s1 = s\<lparr>tmpMaxBufferMinValue := v, tmpMaxIndex := i,
      maxBufferUpdated := b, maxSamplesBuffer := m\<rparr>"
    using mx by blast
  have mn1: "minSamplesBuffer ?s1 = minSamplesBuffer s"
    by (subst e1) simp
  have "min_side_inv k ?s1"
    by (subst e1) (simp only: min_side_inv_max_fields assms(3))
  note mn = update_min_samples_spec [OF assms(1) this, of p]
  obtain v' i' b' m' where e2: "?s2 = ?s1\<lparr>tmpMinBufferMaxValue := v', tmpMinIndex := i',
      minBufferUpdated := b', minSamplesBuffer := m'\<rparr>"
    using mn by blast
  have mx2: "maxSamplesBuffer ?s2 = maxSamplesBuffer ?s1"
    by (subst e2) simp
  have "max_side_inv k ?s1"
    using mx by blast
  then have i2: "max_side_inv k ?s2"
    by (subst e2) (simp only: max_side_inv_min_fields)
  have j2: "min_side_inv k ?s2"
    using mn by blast
  have r: "snd (UpdateChannelCalibrationSamples k s p)
             = ?s2\<lparr>channelCalibrationPulseSamples := channelCalibrationPulseSamples ?s2 + 1\<rparr>"
    by (simp add: UpdateChannelCalibrationSamples_def Let_def)
  have rb: "maxSamplesBuffer (snd (UpdateChannelCalibrationSamples k s p)) = maxSamplesBuffer ?s1"
    "minSamplesBuffer (snd (UpdateChannelCalibrationSamples k s p)) = minSamplesBuffer ?s2"
    by (simp_all add: r mx2)
  have ri: "max_side_inv k (snd (UpdateChannelCalibrationSamples k s p))"
    "min_side_inv k (snd (UpdateChannelCalibrationSamples k s p))"
    using i2 j2 by (simp_all add: r max_side_inv_def min_side_inv_def)
  show ?thesis
    using mx mn ri unfolding rb mn1 by blast
qed

lemma observe_samples_inv:
  assumes "buffer_size_ok k"
  shows "max_side_inv k (observe_samples k (ResetCalibrationSampling k s0) ps)
       \<and> min_side_inv k (observe_samples k (ResetCalibrationSampling k s0) ps)"
proof (induction ps rule: rev_induct)
  case Nil
  show ?case
    using ResetCalibrationSampling_inv [OF assms] by (simp add: observe_samples_def)
next
  case (snoc p ps)
  then show ?case
    using UpdateChannelCalibrationSamples_spec [OF assms, of "observe_samples k (ResetCalibrationSampling k s0) ps" p]
    by (simp add: observe_samples_def)
qed

text \<open>An observation always counts: the sampler never returns the window it was given.\<close>

lemma fold_scan_max_count:
  "channelCalibrationPulseSamples (fold scan_max_buffer_step is s) = channelCalibrationPulseSamples s"
  by (induction "is" arbitrary: s) (simp_all add: scan_max_buffer_step_def)

lemma fold_scan_min_count:
  "channelCalibrationPulseSamples (fold scan_min_buffer_step is s) = channelCalibrationPulseSamples s"
  by (induction "is" arbitrary: s) (simp_all add: scan_min_buffer_step_def)

lemma UpdateChannelCalibrationSamples_count:
  "channelCalibrationPulseSamples (snd (UpdateChannelCalibrationSamples k s p))
     = channelCalibrationPulseSamples s + 1"
  by (simp add: UpdateChannelCalibrationSamples_def update_max_samples_def update_min_samples_def
      scan_max_buffer_def scan_min_buffer_def fold_scan_max_count fold_scan_min_count Let_def)

lemma UpdateChannelCalibrationSamples_changes:
  "snd (UpdateChannelCalibrationSamples k s p) \<noteq> s"
proof
  assume "snd (UpdateChannelCalibrationSamples k s p) = s"
  then have "channelCalibrationPulseSamples (snd (UpdateChannelCalibrationSamples k s p))
               = channelCalibrationPulseSamples s"
    by simp
  then show False
    by (simp add: UpdateChannelCalibrationSamples_count)
qed

subsection \<open>Claim about the calibration sampler\<close>

text \<open>
  C6. For every window of a calibration session (the window left by
  \<open>ResetCalibrationSampling\<close> and any sequence of observed pulses) and every pulse width,
  one call of \<open>UpdateChannelCalibrationSamples\<close> writes at most one slot of
  \<open>maxSamplesBuffer\<close> and at most one slot of \<open>minSamplesBuffer\<close>; a slot of the buffer of
  maxima is overwritten only if the pulse is strictly greater than the minimum of that
  buffer (and then a slot holding that minimum is the one replaced), a slot of the buffer
  of minima only if the pulse is strictly smaller than the maximum of that buffer; so the
  minimum of the buffer of maxima never decreases and the maximum of the buffer of minima
  never increases.
\<close>

theorem UpdateChannelCalibrationSamples_extrema:
  assumes "buffer_size_ok k"
    and "s = observe_samples k (ResetCalibrationSampling k s0) ps"
    and "s' = snd (UpdateChannelCalibrationSamples k s p)"
  shows "(maxSamplesBuffer s' = maxSamplesBuffer s
          \<or> (\<exists>i < RECEIVER_CALIBRATION_SAMPLES_BUFFER_SIZE k.
                maxSamplesBuffer s' = (maxSamplesBuffer s)[i := p]))
       \<and> (minSamplesBuffer s' = minSamplesBuffer s
          \<or> (\<exists>i < RECEIVER_CALIBRATION_SAMPLES_BUFFER_SIZE k.
                minSamplesBuffer s' = (minSamplesBuffer s)[i := p]))
       \<and> (maxSamplesBuffer s' \<noteq> maxSamplesBuffer s \<longrightarrow> Min (set (maxSamplesBuffer s)) < p)
       \<and> (minSamplesBuffer s' \<noteq> minSamplesBuffer s \<longrightarrow> p < Max (set (minSamplesBuffer s)))
       \<and> (Min (set (maxSamplesBuffer s)) < p \<longrightarrow>
            (\<exists>i < RECEIVER_CALIBRATION_SAMPLES_BUFFER_SIZE k.
               maxSamplesBuffer s ! i = Min (set (maxSamplesBuffer s))
               \<and> maxSamplesBuffer s' = (maxSamplesBuffer s)[i := p]))
       \<and> (p < Max (set (minSamplesBuffer s)) \<longrightarrow>
            (\<exists>i < RECEIVER_CALIBRATION_SAMPLES_BUFFER_SIZE k.
               minSamplesBuffer s ! i = Max (set (minSamplesBuffer s))
               \<and> minSamplesBuffer s' = (minSamplesBuffer s)[i := p]))
       \<and> Min (set (maxSamplesBuffer s)) \<le> Min (set (maxSamplesBuffer s'))
       \<and> Max (set (minSamplesBuffer s')) \<le> Max (set (minSamplesBuffer s))
       \<and> length (maxSamplesBuffer s') = RECEIVER_CALIBRATION_SAMPLES_BUFFER_SIZE k
       \<and> length (minSamplesBuffer s') = RECEIVER_CALIBRATION_SAMPLES_BUFFER_SIZE k"
proof -
  have inv: "max_side_inv k s" "min_side_inv k s"
    using observe_samples_inv [OF assms(1), of s0 ps] by (simp_all add: assms(2))
  note sp = UpdateChannelCalibrationSamples_spec [OF assms(1) inv, of p, folded assms(3)]
  have mx: "if Min (set (maxSamplesBuffer s)) < p
            then \<exists>i < RECEIVER_CALIBRATION_SAMPLES_BUFFER_SIZE k.
                   maxSamplesBuffer s ! i = Min (set (maxSamplesBuffer s))
                   \<and> maxSamplesBuffer s' = (maxSamplesBuffer s)[i := p]
            else maxSamplesBuffer s' = maxSamplesBuffer s"
    using sp by blast
  have mn: "if p < Max (set (minSamplesBuffer s))
            then \<exists>i < RECEIVER_CALIBRATION_SAMPLES_BUFFER_SIZE k.
                   minSamplesBuffer s ! i = Max (set (minSamplesBuffer s))
                   \<and> minSamplesBuffer s' = (minSamplesBuffer s)[i := p]
            else minSamplesBuffer s' = minSamplesBuffer s"
    using sp by blast
  have ext: "Min (set (maxSamplesBuffer s)) \<le> Min (set (maxSamplesBuffer s'))"
    "Max (set (minSamplesBuffer s')) \<le> Max (set (minSamplesBuffer s))"
    using sp by blast+
  have len: "length (maxSamplesBuffer s') = RECEIVER_CALIBRATION_SAMPLES_BUFFER_SIZE k"
    "length (minSamplesBuffer s') = RECEIVER_CALIBRATION_SAMPLES_BUFFER_SIZE k"
    using sp by (simp_all add: max_side_inv_def min_side_inv_def)
  have one_max: "maxSamplesBuffer s' = maxSamplesBuffer s
          \<or> (\<exists>i < RECEIVER_CALIBRATION_SAMPLES_BUFFER_SIZE k.
                maxSamplesBuffer s' = (maxSamplesBuffer s)[i := p])"
    using mx by (cases "Min (set (maxSamplesBuffer s)) < p") auto
  have one_min: "minSamplesBuffer s' = minSamplesBuffer s
          \<or> (\<exists>i < RECEIVER_CALIBRATION_SAMPLES_BUFFER_SIZE k.
                minSamplesBuffer s' = (minSamplesBuffer s)[i := p])"
    using mn by (cases "p < Max (set (minSamplesBuffer s))") auto
  have only_max: "maxSamplesBuffer s' \<noteq> maxSamplesBuffer s \<longrightarrow> Min (set (maxSamplesBuffer s)) < p"
    using mx by (cases "Min (set (maxSamplesBuffer s)) < p") auto
  have only_min: "minSamplesBuffer s' \<noteq> minSamplesBuffer s \<longrightarrow> p < Max (set (minSamplesBuffer s))"
    using mn by (cases "p < Max (set (minSamplesBuffer s))") auto
  have repl_max: "Min (set (maxSamplesBuffer s)) < p \<longrightarrow>
            (\<exists>i < RECEIVER_CALIBRATION_SAMPLES_BUFFER_SIZE k.
               maxSamplesBuffer s ! i = Min (set (maxSamplesBuffer s))
               \<and> maxSamplesBuffer s' = (maxSamplesBuffer s)[i := p])"
    using mx by (cases "Min (set (maxSamplesBuffer s)) < p") auto
  have repl_min: "p < Max (set (minSamplesBuffer s)) \<longrightarrow>
            (\<exists>i < RECEIVER_CALIBRATION_SAMPLES_BUFFER_SIZE k.
               minSamplesBuffer s ! i = Max (set (minSamplesBuffer s))
               \<and> minSamplesBuffer s' = (minSamplesBuffer s)[i := p])"
    using mn by (cases "p < Max (set (minSamplesBuffer s))") auto
  show ?thesis
    using one_max one_min only_max only_min repl_max repl_min ext len by (intro conjI)
qed

text \<open>The sample window and the observation of a pulse of 4800 ticks, evaluated.\<close>

lemma sample_buffer_size:
  "RECEIVER_CALIBRATION_SAMPLES_BUFFER_SIZE sample_constants = Suc (Suc (Suc 0))"
  by (simp add: sample_constants_def)

lemma sample_reset_value:
  "ResetCalibrationSampling sample_constants zero_sampling
     = \<lparr>maxSamplesBuffer = [3600, 3600, 3600], minSamplesBuffer = [3600, 3600, 3600],
        channelCalibrationPulseSamples = 0, tmpMaxIndex = 0, tmpMaxBufferMinValue = 3600,
        tmpMinIndex = 0, tmpMinBufferMaxValue = 3600, maxBufferUpdated = False,
        minBufferUpdated = False\<rparr>"
proof -
  have "RECEIVER_CALIBRATION_BUFFER_INIT_VALUE sample_constants = 3600"
    by (simp add: sample_constants_def)
  then show ?thesis
    by (simp add: ResetCalibrationSampling_def sample_buffer_size zero_sampling_def)
qed

lemma sample_window_value:
  "sample_window
     = \<lparr>maxSamplesBuffer = [4000, 3600, 3600], minSamplesBuffer = [3600, 3600, 3600],
        channelCalibrationPulseSamples = 1, tmpMaxIndex = 0, tmpMaxBufferMinValue = 0xFFFF,
        tmpMinIndex = 0, tmpMinBufferMaxValue = 3600, maxBufferUpdated = True,
        minBufferUpdated = False\<rparr>"
proof -
  let ?r = "ResetCalibrationSampling sample_constants zero_sampling"
  have mx: "update_max_samples sample_constants 4000 ?r
      = \<lparr>maxSamplesBuffer = [4000, 3600, 3600], minSamplesBuffer = [3600, 3600, 3600],
        channelCalibrationPulseSamples = 0, tmpMaxIndex = 0, tmpMaxBufferMinValue = 0xFFFF,
        tmpMinIndex = 0, tmpMinBufferMaxValue = 3600, maxBufferUpdated = True,
        minBufferUpdated = False\<rparr>"
    by (simp add: sample_reset_value update_max_samples_def)
  have mn: "update_min_samples sample_constants 4000 (update_max_samples sample_constants 4000 ?r)
      = update_max_samples sample_constants 4000 ?r"
    unfolding mx by (simp add: update_min_samples_def)
  show ?thesis
    unfolding sample_window_def observe_samples_def UpdateChannelCalibrationSamples_def Let_def
    by (simp add: mn) (simp add: mx)
qed

lemma sample_window_next:
  "snd (UpdateChannelCalibrationSamples sample_constants sample_window 4800)
     = \<lparr>maxSamplesBuffer = [4000, 4800, 3600], minSamplesBuffer = [3600, 3600, 3600],
        channelCalibrationPulseSamples = 2, tmpMaxIndex = 1, tmpMaxBufferMinValue = 0xFFFF,
        tmpMinIndex = 0, tmpMinBufferMaxValue = 3600, maxBufferUpdated = True,
        minBufferUpdated = False\<rparr>"
proof -
  have mx: "update_max_samples sample_constants 4800 sample_window
      = \<lparr>maxSamplesBuffer = [4000, 4800, 3600], minSamplesBuffer = [3600, 3600, 3600],
        channelCalibrationPulseSamples = 1, tmpMaxIndex = 1, tmpMaxBufferMinValue = 0xFFFF,
        tmpMinIndex = 0, tmpMinBufferMaxValue = 3600, maxBufferUpdated = True,
        minBufferUpdated = False\<rparr>"
    by (simp add: sample_window_value update_max_samples_def scan_max_buffer_def
        scan_max_buffer_step_def sample_buffer_size)
  have mn: "update_min_samples sample_constants 4800 (update_max_samples sample_constants 4800 sample_window)
      = update_max_samples sample_constants 4800 sample_window"
    unfolding mx by (simp add: update_min_samples_def)
  show ?thesis
    unfolding UpdateChannelCalibrationSamples_def Let_def
    by (simp add: mn) (simp add: mx)
qed

theorem UpdateChannelCalibrationSamples_extrema_witness:
  "buffer_size_ok sample_constants
   \<and> sample_window
       = observe_samples sample_constants
           (ResetCalibrationSampling sample_constants zero_sampling) [4000]
   \<and> maxSamplesBuffer sample_window = [4000, 3600, 3600]
   \<and> maxSamplesBuffer (snd (UpdateChannelCalibrationSamples sample_constants sample_window 4800))
       = [4000, 4800, 3600]
   \<and> minSamplesBuffer (snd (UpdateChannelCalibrationSamples sample_constants sample_window 4800))
       = minSamplesBuffer sample_window
   \<and> Min (set (maxSamplesBuffer sample_window))
       \<le> Min (set (maxSamplesBuffer
                      (snd (UpdateChannelCalibrationSamples sample_constants sample_window 4800))))
   \<and> Max (set (minSamplesBuffer
                  (snd (UpdateChannelCalibrationSamples sample_constants sample_window 4800))))
       \<le> Max (set (minSamplesBuffer sample_window))"
proof -
  have h: "buffer_size_ok sample_constants"
    by (simp add: buffer_size_ok_def sample_constants_def)
  note t = UpdateChannelCalibrationSamples_extrema [OF h sample_window_def refl, of 4800]
  have ext: "Min (set (maxSamplesBuffer sample_window))
       \<le> Min (set (maxSamplesBuffer
                      (snd (UpdateChannelCalibrationSamples sample_constants sample_window 4800))))"
    "Max (set (minSamplesBuffer
                  (snd (UpdateChannelCalibrationSamples sample_constants sample_window 4800))))
       \<le> Max (set (minSamplesBuffer sample_window))"
    using t by blast+
  have v: "maxSamplesBuffer sample_window = [4000, 3600, 3600]"
    "maxSamplesBuffer (snd (UpdateChannelCalibrationSamples sample_constants sample_window 4800))
       = [4000, 4800, 3600]"
    "minSamplesBuffer (snd (UpdateChannelCalibrationSamples sample_constants sample_window 4800))
       = minSamplesBuffer sample_window"
    by (simp_all add: sample_window_next) (simp_all add: sample_window_value)
  show ?thesis
    using h sample_window_def ext v by (intro conjI)
qed

subsection \<open>Promoted arithmetic of the decoder\<close>

lemma promote_of_int: "(ucast (x :: uint16_t) :: uint32_t) = word_of_int (uint x)"
  by simp

lemma uint_uint16_less: "uint (x :: uint16_t) < 65536"
  using uint_lt2p [of x] by simp

lemma uint32_of_int_small:
  assumes "0 \<le> i" "i < 4294967296"
  shows "uint (word_of_int i :: uint32_t) = i"
  using assms by (simp add: uint_word_of_int)

lemma promote_diff_of_int:
  "(ucast (x :: uint16_t) :: uint32_t) - ucast (y :: uint16_t) = word_of_int (uint x - uint y)"
  by (simp only: promote_of_int wi_homs)

lemma unwrapped_period_of_int:
  "(ucast (r :: uint16_t) :: uint32_t) + word_of_int 65535 - ucast (p :: uint16_t)
      + word_of_int 65535 * (ucast (c :: uint16_t) - ucast (d :: uint16_t) - 1)
     = word_of_int (uint r + 65535 - uint p + 65535 * (uint c - uint d - 1))"
  by (simp only: promote_of_int word_of_int_homs)

lemma uint_tempPeriod_advanced:
  assumes "PreviousRisingCountTimerPeriodCount ic < c"
  shows "uint (tempPeriodTimerCount ic c)
           = uint (RisingCount ic) + 65535 - uint (PreviousRisingCount ic)
                + 65535 * (uint c - uint (PreviousRisingCountTimerPeriodCount ic) - 1)"
proof -
  define r p d where "r = uint (RisingCount ic)" and "p = uint (PreviousRisingCount ic)"
    and "d = uint c - uint (PreviousRisingCountTimerPeriodCount ic) - 1"
  have d: "0 \<le> d" "d \<le> 65534"
    using assms uint_uint16_less [of c] uint_ge_0 [of "PreviousRisingCountTimerPeriodCount ic"]
    unfolding word_less_def d_def by linarith+
  have r: "0 \<le> r" "r < 65536" "0 \<le> p" "p < 65536"
    using uint_uint16_less by (simp_all add: r_def p_def)
  have "0 \<le> r + 65535 - p + 65535 * d" "r + 65535 - p + 65535 * d < 4294967296"
    using d r by linarith+
  then have "uint (word_of_int (r + 65535 - p + 65535 * d) :: uint32_t) = r + 65535 - p + 65535 * d"
    by (rule uint32_of_int_small)
  moreover have "tempPeriodTimerCount ic c = word_of_int (r + 65535 - p + 65535 * d)"
    using assms unfolding r_def p_def d_def
    by (simp only: tempPeriodTimerCount_def UINT16_MAX_def if_True unwrapped_period_of_int)
  ultimately show ?thesis
    by (simp only: r_def p_def d_def)
qed

lemma sint_promote_diff:
  "sint (ucast (x :: uint16_t) - ucast (y :: uint16_t) :: uint32_t) = uint x - uint y"
proof -
  have b: "- 2147483648 \<le> uint x - uint y" "uint x - uint y < 2147483648"
    using uint_uint16_less [of x] uint_uint16_less [of y] uint_ge_0 [of x] uint_ge_0 [of y]
    by linarith+
  have "sint (ucast x - ucast y :: uint32_t)
               = (uint x - uint y + 2147483648) mod 4294967296 - 2147483648"
    by (simp only: promote_diff_of_int int_word_sint) simp
  also have "\<dots> = uint x - uint y"
    using b by (simp add: mod_pos_pos_trivial)
  finally show ?thesis .
qed

subsection \<open>Rising and falling edges of the decoder\<close>

lemma status_ok_of_bool: "status_ok (status_of_bool b) = b"
  by (simp add: status_ok_def status_of_bool_def)

lemma status_ok_cases: "(if status_ok s then RECEIVER_OK else RECEIVER_ERROR) = s"
  by (cases s) (simp_all add: status_ok_def)

lemma UpdateReceiverChannel_rising:
  assumes "channelInputState f = PULSE_LOW"
  shows "UpdateReceiverChannel k icValue tick startTime c f =
           (IsReceiverPeriodValid k (rising_edge_period (ChannelICValues f) icValue c),
            f\<lparr>channelInputState := PULSE_HIGH,
              ICPolarity := TIM_ICPOLARITY_FALLING,
              ChannelICValues :=
                (ChannelICValues f)
                  \<lparr>PreviousRisingCount := RisingCount (ChannelICValues f),
                   RisingCount := ucast icValue,
                   PeriodCount :=
                     (if status_ok (IsReceiverPeriodValid k
                                      (rising_edge_period (ChannelICValues f) icValue c))
                      then rising_edge_period (ChannelICValues f) icValue c
                      else PeriodCount (ChannelICValues f)),
                   PreviousRisingCountTimerPeriodCount := c\<rparr>\<rparr>)"
  using assms
  by (simp add: UpdateReceiverChannel_def rising_edge_period_def Let_def status_ok_cases)

lemma UpdateReceiverChannel_falling_invalid:
  assumes "channelInputState f = PULSE_HIGH"
    and "\<not> status_ok (IsReceiverPulseValid k (falling_edge_pulse (ChannelICValues f) icValue) c
                         (PreviousRisingCountTimerPeriodCount (ChannelICValues f)))"
  shows "UpdateReceiverChannel k icValue tick startTime c f =
           (RECEIVER_ERROR,
            f\<lparr>channelInputState := PULSE_LOW,
              ICPolarity := TIM_ICPOLARITY_RISING,
              ChannelICValues := (ChannelICValues f)\<lparr>FallingCounter := ucast icValue\<rparr>\<rparr>)"
  using assms
  by (simp add: UpdateReceiverChannel_def falling_edge_pulse_def Let_def)

lemma UpdateReceiverChannel_falling_valid:
  assumes "channelInputState f = PULSE_HIGH"
    and "status_ok (IsReceiverPulseValid k (falling_edge_pulse (ChannelICValues f) icValue) c
                      (PreviousRisingCountTimerPeriodCount (ChannelICValues f)))"
  shows "UpdateReceiverChannel k icValue tick startTime c f =
           (RECEIVER_OK,
            f\<lparr>channelInputState := PULSE_LOW,
              ICPolarity := TIM_ICPOLARITY_RISING,
              ChannelICValues :=
                (ChannelICValues f)
                  \<lparr>FallingCounter := ucast icValue,
                   PulseTimerCount := falling_edge_pulse (ChannelICValues f) icValue,
                   IsActive := RECEIVER_OK\<rparr>,
              calibrationState :=
                (if calibrationState f = RECEIVER_CALIBRATION_IN_PROGRESS
                    \<and> tick > of_nat (RECEIVER_MAX_CALIBRATION_DURATION k) + startTime
                 then RECEIVER_CALIBRATION_WAITING else calibrationState f),
              ChannelCalibrationSampling :=
                (if calibrationState f = RECEIVER_CALIBRATION_IN_PROGRESS
                    \<and> \<not> tick > of_nat (RECEIVER_MAX_CALIBRATION_DURATION k) + startTime
                 then snd (UpdateChannelCalibrationSamples k (ChannelCalibrationSampling f)
                             (falling_edge_pulse (ChannelICValues f) icValue))
                 else ChannelCalibrationSampling f)\<rparr>)"
  using assms
  by (simp add: UpdateReceiverChannel_def falling_edge_pulse_def Let_def)

lemma UpdateReceiverChannel_falling_status:
  assumes "channelInputState f = PULSE_HIGH"
  shows "fst (UpdateReceiverChannel k icValue tick startTime c f)
           = IsReceiverPulseValid k (falling_edge_pulse (ChannelICValues f) icValue) c
               (PreviousRisingCountTimerPeriodCount (ChannelICValues f))"
proof (cases "status_ok (IsReceiverPulseValid k (falling_edge_pulse (ChannelICValues f) icValue) c
                          (PreviousRisingCountTimerPeriodCount (ChannelICValues f)))")
  case True
  then show ?thesis
    using UpdateReceiverChannel_falling_valid [OF assms True, of tick startTime]
    by (cases "IsReceiverPulseValid k (falling_edge_pulse (ChannelICValues f) icValue) c
                 (PreviousRisingCountTimerPeriodCount (ChannelICValues f))")
      (simp_all add: status_ok_def)
next
  case False
  then show ?thesis
    using UpdateReceiverChannel_falling_invalid [OF assms False, of tick startTime]
    by (simp add: status_ok_def)
qed

subsection \<open>Claims about the input capture decoder\<close>

text \<open>
  C3. On a rising edge where the period count has advanced since the previous rising edge,
  the candidate period of the source is
  \<open>rising + 65535 - previous_rising + 65535 * (period_delta - 1)\<close>: the source adds
  \<open>UINT16_MAX\<close> for every period of the counter. The capture values are 16-bit counts,
  which wrap around every \<open>65536\<close> ticks (the falling edge relies on it for the pulse
  width), so the candidate is short of
  \<open>rising + 65536 - previous_rising + 65536 * (period_delta - 1)\<close> by \<open>period_delta\<close> ticks.
  The candidate is what the edge validates and, when valid, stores in \<open>PeriodCount\<close>.
\<close>

theorem UpdateReceiverChannel_period_unwrap:
  assumes "channelInputState f = PULSE_LOW"
    and "PreviousRisingCountTimerPeriodCount (ChannelICValues f) < c"
  shows "uint (rising_edge_period (ChannelICValues f) icValue c)
           = uint (ucast icValue :: uint16_t) + 65535 - uint (RisingCount (ChannelICValues f))
               + 65535 * (uint c - uint (PreviousRisingCountTimerPeriodCount (ChannelICValues f)) - 1)
       \<and> uint (rising_edge_period (ChannelICValues f) icValue c)
             + (uint c - uint (PreviousRisingCountTimerPeriodCount (ChannelICValues f)))
           = uint (ucast icValue :: uint16_t) + 65536 - uint (RisingCount (ChannelICValues f))
               + 65536 * (uint c - uint (PreviousRisingCountTimerPeriodCount (ChannelICValues f)) - 1)
       \<and> fst (UpdateReceiverChannel k icValue tick startTime c f)
           = IsReceiverPeriodValid k (rising_edge_period (ChannelICValues f) icValue c)
       \<and> PeriodCount (ChannelICValues (snd (UpdateReceiverChannel k icValue tick startTime c f)))
           = (if status_ok (IsReceiverPeriodValid k (rising_edge_period (ChannelICValues f) icValue c))
              then rising_edge_period (ChannelICValues f) icValue c
              else PeriodCount (ChannelICValues f))"
proof -
  let ?ic1 = "(ChannelICValues f)\<lparr>PreviousRisingCount := RisingCount (ChannelICValues f),
                RisingCount := ucast icValue\<rparr>"
  have "PreviousRisingCountTimerPeriodCount ?ic1 < c"
    using assms(2) by simp
  from uint_tempPeriod_advanced [OF this]
  have u: "uint (rising_edge_period (ChannelICValues f) icValue c)
           = uint (ucast icValue :: uint16_t) + 65535 - uint (RisingCount (ChannelICValues f))
               + 65535 * (uint c - uint (PreviousRisingCountTimerPeriodCount (ChannelICValues f)) - 1)"
    by (simp add: rising_edge_period_def)
  have v: "uint (rising_edge_period (ChannelICValues f) icValue c)
             + (uint c - uint (PreviousRisingCountTimerPeriodCount (ChannelICValues f)))
           = uint (ucast icValue :: uint16_t) + 65536 - uint (RisingCount (ChannelICValues f))
               + 65536 * (uint c - uint (PreviousRisingCountTimerPeriodCount (ChannelICValues f)) - 1)"
    unfolding u by (simp add: algebra_simps)
  have r: "fst (UpdateReceiverChannel k icValue tick startTime c f)
           = IsReceiverPeriodValid k (rising_edge_period (ChannelICValues f) icValue c)"
    "PeriodCount (ChannelICValues (snd (UpdateReceiverChannel k icValue tick startTime c f)))
           = (if status_ok (IsReceiverPeriodValid k (rising_edge_period (ChannelICValues f) icValue c))
              then rising_edge_period (ChannelICValues f) icValue c
              else PeriodCount (ChannelICValues f))"
    by (simp_all add: UpdateReceiverChannel_rising [OF assms(1)])
  show ?thesis
    using u v r by (intro conjI)
qed

theorem UpdateReceiverChannel_period_unwrap_witness:
  "channelInputState sample_frame_low = PULSE_LOW
   \<and> PreviousRisingCountTimerPeriodCount (ChannelICValues sample_frame_low) < 8
   \<and> uint (ucast (1000 :: uint32_t) :: uint16_t) + 65536
         - uint (RisingCount (ChannelICValues sample_frame_low))
         + 65536 * (uint (8 :: uint16_t)
                      - uint (PreviousRisingCountTimerPeriodCount (ChannelICValues sample_frame_low)) - 1)
       = 65536
   \<and> uint (rising_edge_period (ChannelICValues sample_frame_low) 1000 8) = 65535
   \<and> fst (UpdateReceiverChannel sample_constants 1000 0 0 8 sample_frame_low) = RECEIVER_OK
   \<and> PeriodCount (ChannelICValues
                    (snd (UpdateReceiverChannel sample_constants 1000 0 0 8 sample_frame_low)))
       = 65535"
proof -
  have h: "channelInputState sample_frame_low = PULSE_LOW"
    "PreviousRisingCountTimerPeriodCount (ChannelICValues sample_frame_low) < 8"
    by (simp_all add: sample_frame_low_def sample_ic_def)
  note t = UpdateReceiverChannel_period_unwrap [OF h, of 1000 sample_constants 0 0]
  have c: "uint (ucast (1000 :: uint32_t) :: uint16_t) + 65536
         - uint (RisingCount (ChannelICValues sample_frame_low))
         + 65536 * (uint (8 :: uint16_t)
                      - uint (PreviousRisingCountTimerPeriodCount (ChannelICValues sample_frame_low)) - 1)
       = 65536"
    by (simp add: sample_frame_low_def sample_ic_def)
  have u: "uint (rising_edge_period (ChannelICValues sample_frame_low) 1000 8) = 65535"
    using t by (simp add: sample_frame_low_def sample_ic_def)
  then have e: "rising_edge_period (ChannelICValues sample_frame_low) 1000 8 = 65535"
    by (simp add: word_uint_eq_iff)
  have ok: "IsReceiverPeriodValid sample_constants 65535 = RECEIVER_OK"
    by (simp add: IsReceiverPeriodValid_def sample_constants_def status_of_bool_def)
  have r: "fst (UpdateReceiverChannel sample_constants 1000 0 0 8 sample_frame_low) = RECEIVER_OK"
    "PeriodCount (ChannelICValues
                    (snd (UpdateReceiverChannel sample_constants 1000 0 0 8 sample_frame_low)))
       = 65535"
    using t by (simp_all add: e ok status_ok_def)
  show ?thesis
    using h c u r by (intro conjI)
qed

text \<open>
  C4. On a rising edge where the period count has not advanced since the previous rising
  edge (in particular when it is the same), the candidate period is the difference of the
  two 16-bit capture values with no term for the periods of the counter. The difference is
  taken on the promoted operands, where it is exact (the signed value of the candidate is
  the integer difference), and converted to \<open>uint32_t\<close>, where a negative difference wraps
  around modulo \<open>2 ^ 32\<close>. The edge returns the status of the validation of that candidate
  and leaves the channel waiting for the falling edge.
\<close>

theorem UpdateReceiverChannel_same_period:
  assumes "channelInputState f = PULSE_LOW"
    and "\<not> PreviousRisingCountTimerPeriodCount (ChannelICValues f) < c"
  shows "rising_edge_period (ChannelICValues f) icValue c
           = ucast (ucast icValue :: uint16_t) - ucast (RisingCount (ChannelICValues f))
       \<and> sint (rising_edge_period (ChannelICValues f) icValue c)
           = uint (ucast icValue :: uint16_t) - uint (RisingCount (ChannelICValues f))
       \<and> uint (rising_edge_period (ChannelICValues f) icValue c)
           = (uint (ucast icValue :: uint16_t) - uint (RisingCount (ChannelICValues f)))
               mod 4294967296
       \<and> fst (UpdateReceiverChannel k icValue tick startTime c f)
           = IsReceiverPeriodValid k (rising_edge_period (ChannelICValues f) icValue c)
       \<and> PeriodCount (ChannelICValues (snd (UpdateReceiverChannel k icValue tick startTime c f)))
           = (if status_ok (IsReceiverPeriodValid k (rising_edge_period (ChannelICValues f) icValue c))
              then rising_edge_period (ChannelICValues f) icValue c
              else PeriodCount (ChannelICValues f))
       \<and> channelInputState (snd (UpdateReceiverChannel k icValue tick startTime c f)) = PULSE_HIGH"
proof -
  have e: "rising_edge_period (ChannelICValues f) icValue c
           = ucast (ucast icValue :: uint16_t) - ucast (RisingCount (ChannelICValues f))"
    using assms(2) by (simp add: rising_edge_period_def tempPeriodTimerCount_def)
  have s: "sint (rising_edge_period (ChannelICValues f) icValue c)
           = uint (ucast icValue :: uint16_t) - uint (RisingCount (ChannelICValues f))"
    unfolding e by (rule sint_promote_diff)
  have u: "uint (rising_edge_period (ChannelICValues f) icValue c)
           = (uint (ucast icValue :: uint16_t) - uint (RisingCount (ChannelICValues f)))
               mod 4294967296"
    unfolding e by (simp only: promote_diff_of_int uint_word_of_int) simp
  have r: "fst (UpdateReceiverChannel k icValue tick startTime c f)
           = IsReceiverPeriodValid k (rising_edge_period (ChannelICValues f) icValue c)"
    "PeriodCount (ChannelICValues (snd (UpdateReceiverChannel k icValue tick startTime c f)))
           = (if status_ok (IsReceiverPeriodValid k (rising_edge_period (ChannelICValues f) icValue c))
              then rising_edge_period (ChannelICValues f) icValue c
              else PeriodCount (ChannelICValues f))"
    "channelInputState (snd (UpdateReceiverChannel k icValue tick startTime c f)) = PULSE_HIGH"
    by (simp_all add: UpdateReceiverChannel_rising [OF assms(1)])
  show ?thesis
    using e s u r by (intro conjI)
qed

theorem UpdateReceiverChannel_same_period_witness:
  "channelInputState sample_frame_low = PULSE_LOW
   \<and> \<not> PreviousRisingCountTimerPeriodCount (ChannelICValues sample_frame_low) < 7
   \<and> (ucast (500 :: uint32_t) :: uint16_t) < RisingCount (ChannelICValues sample_frame_low)
   \<and> sint (rising_edge_period (ChannelICValues sample_frame_low) 500 7) = - 500
   \<and> uint (rising_edge_period (ChannelICValues sample_frame_low) 500 7) = 4294966796
   \<and> fst (UpdateReceiverChannel sample_constants 500 0 0 7 sample_frame_low) = RECEIVER_ERROR
   \<and> PeriodCount (ChannelICValues
                    (snd (UpdateReceiverChannel sample_constants 500 0 0 7 sample_frame_low)))
       = 52800
   \<and> channelInputState (snd (UpdateReceiverChannel sample_constants 500 0 0 7 sample_frame_low))
       = PULSE_HIGH"
proof -
  have h: "channelInputState sample_frame_low = PULSE_LOW"
    "\<not> PreviousRisingCountTimerPeriodCount (ChannelICValues sample_frame_low) < 7"
    by (simp_all add: sample_frame_low_def sample_ic_def)
  note t = UpdateReceiverChannel_same_period [OF h, of 500 sample_constants 0 0]
  have lt: "(ucast (500 :: uint32_t) :: uint16_t) < RisingCount (ChannelICValues sample_frame_low)"
    by (simp add: sample_frame_low_def sample_ic_def)
  have s: "sint (rising_edge_period (ChannelICValues sample_frame_low) 500 7) = - 500"
    using t by (simp add: sample_frame_low_def sample_ic_def)
  have u: "uint (rising_edge_period (ChannelICValues sample_frame_low) 500 7) = 4294966796"
    using t by (simp add: sample_frame_low_def sample_ic_def)
  then have e: "rising_edge_period (ChannelICValues sample_frame_low) 500 7 = 4294966796"
    by (simp add: word_uint_eq_iff)
  have bad: "IsReceiverPeriodValid sample_constants 4294966796 = RECEIVER_ERROR"
    by (simp add: IsReceiverPeriodValid_def sample_constants_def status_of_bool_def)
  have r: "fst (UpdateReceiverChannel sample_constants 500 0 0 7 sample_frame_low) = RECEIVER_ERROR"
    "PeriodCount (ChannelICValues
                    (snd (UpdateReceiverChannel sample_constants 500 0 0 7 sample_frame_low)))
       = 52800"
    "channelInputState (snd (UpdateReceiverChannel sample_constants 500 0 0 7 sample_frame_low))
       = PULSE_HIGH"
    using t by (simp_all add: e bad status_ok_def) (simp add: sample_frame_low_def sample_ic_def)
  show ?thesis
    using h lt s u r by (intro conjI)
qed

lemma IsReceiverPulseValid_fails_iff:
  "\<not> status_ok (IsReceiverPulseValid k p c prev)
     \<longleftrightarrow> (RECEIVER_MAX_VALID_IC_PULSE_COUNT k < unat p
          \<or> unat p < RECEIVER_MIN_VALID_IC_PULSE_COUNT k
          \<or> 1 < uint c - uint prev)"
  by (auto simp add: IsReceiverPulseValid_def status_ok_of_bool sint_promote_diff)

lemma IsReceiverPeriodValid_fails_iff:
  "\<not> status_ok (IsReceiverPeriodValid k t)
     \<longleftrightarrow> (RECEIVER_MAX_VALID_PERIOD_COUNT k < unat t \<or> unat t < RECEIVER_MIN_VALID_PERIOD_COUNT k)"
  by (auto simp add: IsReceiverPeriodValid_def status_ok_of_bool)

text \<open>
  An edge that the validation of the source rejects. A falling edge whose pulse is above
  the maximum or below the minimum valid pulse count, or whose promoted period count is
  more than one above the promoted period count of the last rising edge, returns
  \<open>RECEIVER_ERROR\<close>, keeps \<open>PulseTimerCount\<close> and \<open>IsActive\<close>, leaves the sampling window and
  the calibration state untouched and leaves the channel waiting for the next rising edge.
  A rising edge whose period fails validation returns \<open>RECEIVER_ERROR\<close>, keeps \<open>PeriodCount\<close>
  and leaves the channel waiting for the falling edge. In both cases the next capture event
  is decoded as the opposite edge, with the status of its own validation.
\<close>

lemma UpdateReceiverChannel_rejected_edge:
  "(channelInputState f = PULSE_HIGH
      \<and> (RECEIVER_MAX_VALID_IC_PULSE_COUNT k < unat (falling_edge_pulse (ChannelICValues f) icValue)
         \<or> unat (falling_edge_pulse (ChannelICValues f) icValue) < RECEIVER_MIN_VALID_IC_PULSE_COUNT k
         \<or> 1 < uint c - uint (PreviousRisingCountTimerPeriodCount (ChannelICValues f)))
    \<longrightarrow> fst (UpdateReceiverChannel k icValue tick startTime c f) = RECEIVER_ERROR
      \<and> PulseTimerCount (ChannelICValues (snd (UpdateReceiverChannel k icValue tick startTime c f)))
          = PulseTimerCount (ChannelICValues f)
      \<and> IsActive (ChannelICValues (snd (UpdateReceiverChannel k icValue tick startTime c f)))
          = IsActive (ChannelICValues f)
      \<and> ChannelCalibrationSampling (snd (UpdateReceiverChannel k icValue tick startTime c f))
          = ChannelCalibrationSampling f
      \<and> calibrationState (snd (UpdateReceiverChannel k icValue tick startTime c f))
          = calibrationState f
      \<and> channelInputState (snd (UpdateReceiverChannel k icValue tick startTime c f)) = PULSE_LOW
      \<and> ICPolarity (snd (UpdateReceiverChannel k icValue tick startTime c f))
          = TIM_ICPOLARITY_RISING
      \<and> fst (UpdateReceiverChannel k icValue' tick' startTime c'
                (snd (UpdateReceiverChannel k icValue tick startTime c f)))
          = IsReceiverPeriodValid k
              (rising_edge_period
                 (ChannelICValues (snd (UpdateReceiverChannel k icValue tick startTime c f)))
                 icValue' c'))
   \<and> (channelInputState f = PULSE_LOW
      \<and> (RECEIVER_MAX_VALID_PERIOD_COUNT k < unat (rising_edge_period (ChannelICValues f) icValue c)
         \<or> unat (rising_edge_period (ChannelICValues f) icValue c) < RECEIVER_MIN_VALID_PERIOD_COUNT k)
    \<longrightarrow> fst (UpdateReceiverChannel k icValue tick startTime c f) = RECEIVER_ERROR
      \<and> PeriodCount (ChannelICValues (snd (UpdateReceiverChannel k icValue tick startTime c f)))
          = PeriodCount (ChannelICValues f)
      \<and> channelInputState (snd (UpdateReceiverChannel k icValue tick startTime c f)) = PULSE_HIGH
      \<and> ICPolarity (snd (UpdateReceiverChannel k icValue tick startTime c f))
          = TIM_ICPOLARITY_FALLING
      \<and> fst (UpdateReceiverChannel k icValue' tick' startTime c'
                (snd (UpdateReceiverChannel k icValue tick startTime c f)))
          = IsReceiverPulseValid k
              (falling_edge_pulse
                 (ChannelICValues (snd (UpdateReceiverChannel k icValue tick startTime c f)))
                 icValue')
              c'
              (PreviousRisingCountTimerPeriodCount
                 (ChannelICValues (snd (UpdateReceiverChannel k icValue tick startTime c f)))))"
proof (intro conjI impI)
  assume a: "channelInputState f = PULSE_HIGH
      \<and> (RECEIVER_MAX_VALID_IC_PULSE_COUNT k < unat (falling_edge_pulse (ChannelICValues f) icValue)
         \<or> unat (falling_edge_pulse (ChannelICValues f) icValue) < RECEIVER_MIN_VALID_IC_PULSE_COUNT k
         \<or> 1 < uint c - uint (PreviousRisingCountTimerPeriodCount (ChannelICValues f)))"
  then have hi: "channelInputState f = PULSE_HIGH"
    and bad: "\<not> status_ok (IsReceiverPulseValid k (falling_edge_pulse (ChannelICValues f) icValue) c
                         (PreviousRisingCountTimerPeriodCount (ChannelICValues f)))"
    by (simp_all only: IsReceiverPulseValid_fails_iff)
  note r = UpdateReceiverChannel_falling_invalid [OF hi bad, of tick startTime]
  show "fst (UpdateReceiverChannel k icValue tick startTime c f) = RECEIVER_ERROR"
    by (simp add: r)
  show "PulseTimerCount (ChannelICValues (snd (UpdateReceiverChannel k icValue tick startTime c f)))
          = PulseTimerCount (ChannelICValues f)"
    by (simp add: r)
  show "IsActive (ChannelICValues (snd (UpdateReceiverChannel k icValue tick startTime c f)))
          = IsActive (ChannelICValues f)"
    by (simp add: r)
  show "ChannelCalibrationSampling (snd (UpdateReceiverChannel k icValue tick startTime c f))
          = ChannelCalibrationSampling f"
    by (simp add: r)
  show "calibrationState (snd (UpdateReceiverChannel k icValue tick startTime c f))
          = calibrationState f"
    by (simp add: r)
  show "channelInputState (snd (UpdateReceiverChannel k icValue tick startTime c f)) = PULSE_LOW"
    by (simp add: r)
  show "ICPolarity (snd (UpdateReceiverChannel k icValue tick startTime c f))
          = TIM_ICPOLARITY_RISING"
    by (simp add: r)
  have "channelInputState (snd (UpdateReceiverChannel k icValue tick startTime c f)) = PULSE_LOW"
    by (simp add: r)
  then show "fst (UpdateReceiverChannel k icValue' tick' startTime c'
                (snd (UpdateReceiverChannel k icValue tick startTime c f)))
          = IsReceiverPeriodValid k
              (rising_edge_period
                 (ChannelICValues (snd (UpdateReceiverChannel k icValue tick startTime c f)))
                 icValue' c')"
    by (simp only: UpdateReceiverChannel_rising fst_conv)
next
  assume a: "channelInputState f = PULSE_LOW
      \<and> (RECEIVER_MAX_VALID_PERIOD_COUNT k < unat (rising_edge_period (ChannelICValues f) icValue c)
         \<or> unat (rising_edge_period (ChannelICValues f) icValue c) < RECEIVER_MIN_VALID_PERIOD_COUNT k)"
  then have lo: "channelInputState f = PULSE_LOW"
    and bad: "\<not> status_ok (IsReceiverPeriodValid k (rising_edge_period (ChannelICValues f) icValue c))"
    by (simp_all only: IsReceiverPeriodValid_fails_iff)
  note r = UpdateReceiverChannel_rising [OF lo, of k icValue tick startTime c]
  have e: "IsReceiverPeriodValid k (rising_edge_period (ChannelICValues f) icValue c) = RECEIVER_ERROR"
    using bad by (simp add: status_ok_def)
  show "fst (UpdateReceiverChannel k icValue tick startTime c f) = RECEIVER_ERROR"
    by (simp add: r e)
  show "PeriodCount (ChannelICValues (snd (UpdateReceiverChannel k icValue tick startTime c f)))
          = PeriodCount (ChannelICValues f)"
    using bad by (simp add: r)
  show "channelInputState (snd (UpdateReceiverChannel k icValue tick startTime c f)) = PULSE_HIGH"
    by (simp add: r)
  show "ICPolarity (snd (UpdateReceiverChannel k icValue tick startTime c f))
          = TIM_ICPOLARITY_FALLING"
    by (simp add: r)
  have "channelInputState (snd (UpdateReceiverChannel k icValue tick startTime c f)) = PULSE_HIGH"
    by (simp add: r)
  then show "fst (UpdateReceiverChannel k icValue' tick' startTime c'
                (snd (UpdateReceiverChannel k icValue tick startTime c f)))
          = IsReceiverPulseValid k
              (falling_edge_pulse
                 (ChannelICValues (snd (UpdateReceiverChannel k icValue tick startTime c f)))
                 icValue')
              c'
              (PreviousRisingCountTimerPeriodCount
                 (ChannelICValues (snd (UpdateReceiverChannel k icValue tick startTime c f))))"
    by (rule UpdateReceiverChannel_falling_status)
qed

lemma IsReceiverPulseValid_wrapped_period:
  assumes "RECEIVER_MIN_VALID_IC_PULSE_COUNT k \<le> unat p"
    and "unat p \<le> RECEIVER_MAX_VALID_IC_PULSE_COUNT k"
    and "c < prev"
  shows "status_ok (IsReceiverPulseValid k p c prev)"
  using assms
  by (simp add: IsReceiverPulseValid_def status_ok_of_bool sint_promote_diff word_less_def)

text \<open>
  C5. The period count is a \<open>uint16_t\<close> that the period elapsed interrupt increments, so it
  wraps from 65535 to 0, and the difference \<open>c - p\<close> on 16 bits is the number of increments
  since the rising edge that recorded \<open>p\<close>. \<open>IsReceiverPulseValid\<close> compares the difference
  of the promoted counts, which is negative once the count has wrapped. A falling edge
  whose pulse is within the valid pulse counts is then accepted although more than one
  increment lies between the rising and the falling edge: the edge returns \<open>RECEIVER_OK\<close>,
  overwrites \<open>PulseTimerCount\<close>, sets \<open>IsActive\<close> and, in a session that the tick test does
  not time out, calls the sampler, which counts the pulse.
\<close>

theorem UpdateReceiverChannel_wrapped_period_accepted:
  assumes "channelInputState f = PULSE_HIGH"
    and "RECEIVER_MIN_VALID_IC_PULSE_COUNT k
           \<le> unat (falling_edge_pulse (ChannelICValues f) icValue)"
    and "unat (falling_edge_pulse (ChannelICValues f) icValue)
           \<le> RECEIVER_MAX_VALID_IC_PULSE_COUNT k"
    and "c < PreviousRisingCountTimerPeriodCount (ChannelICValues f)"
    and "1 < unat (c - PreviousRisingCountTimerPeriodCount (ChannelICValues f))"
  shows "fst (UpdateReceiverChannel k icValue tick startTime c f) = RECEIVER_OK
       \<and> PulseTimerCount (ChannelICValues (snd (UpdateReceiverChannel k icValue tick startTime c f)))
           = falling_edge_pulse (ChannelICValues f) icValue
       \<and> IsActive (ChannelICValues (snd (UpdateReceiverChannel k icValue tick startTime c f)))
           = RECEIVER_OK
       \<and> (calibrationState f = RECEIVER_CALIBRATION_IN_PROGRESS
            \<and> \<not> tick > of_nat (RECEIVER_MAX_CALIBRATION_DURATION k) + startTime
          \<longrightarrow> ChannelCalibrationSampling (snd (UpdateReceiverChannel k icValue tick startTime c f))
                = snd (UpdateChannelCalibrationSamples k (ChannelCalibrationSampling f)
                         (falling_edge_pulse (ChannelICValues f) icValue))
              \<and> channelCalibrationPulseSamples
                    (ChannelCalibrationSampling (snd (UpdateReceiverChannel k icValue tick startTime c f)))
                  = channelCalibrationPulseSamples (ChannelCalibrationSampling f) + 1)"
proof -
  note v = IsReceiverPulseValid_wrapped_period [OF assms(2,3,4)]
  note r = UpdateReceiverChannel_falling_valid [OF assms(1) v, of tick startTime]
  show ?thesis
    by (simp add: r UpdateChannelCalibrationSamples_count)
qed

theorem UpdateReceiverChannel_wrapped_period_accepted_witness:
  "channelInputState period_wrap_frame = PULSE_HIGH
   \<and> PreviousRisingCountTimerPeriodCount (ChannelICValues period_wrap_frame) = 65534
   \<and> unat ((0 :: uint16_t) - PreviousRisingCountTimerPeriodCount (ChannelICValues period_wrap_frame)) = 2
   \<and> PulseTimerCount (ChannelICValues period_wrap_frame) = 3000
   \<and> IsActive (ChannelICValues period_wrap_frame) = RECEIVER_ERROR
   \<and> channelCalibrationPulseSamples (ChannelCalibrationSampling period_wrap_frame) = 0
   \<and> fst (UpdateReceiverChannel sample_constants 4600 2000 1000 0 period_wrap_frame) = RECEIVER_OK
   \<and> PulseTimerCount
       (ChannelICValues (snd (UpdateReceiverChannel sample_constants 4600 2000 1000 0 period_wrap_frame)))
       = 3600
   \<and> IsActive
       (ChannelICValues (snd (UpdateReceiverChannel sample_constants 4600 2000 1000 0 period_wrap_frame)))
       = RECEIVER_OK
   \<and> channelCalibrationPulseSamples
       (ChannelCalibrationSampling
          (snd (UpdateReceiverChannel sample_constants 4600 2000 1000 0 period_wrap_frame)))
       = 1"
proof -
  have p: "falling_edge_pulse (ChannelICValues period_wrap_frame) 4600 = 3600"
    by (simp add: falling_edge_pulse_def tempPulseTimerCount_def period_wrap_frame_def
        sample_frame_high_def sample_ic_def)
  have s: "channelInputState period_wrap_frame = PULSE_HIGH"
    "PreviousRisingCountTimerPeriodCount (ChannelICValues period_wrap_frame) = 65534"
    "PulseTimerCount (ChannelICValues period_wrap_frame) = 3000"
    "IsActive (ChannelICValues period_wrap_frame) = RECEIVER_ERROR"
    "channelCalibrationPulseSamples (ChannelCalibrationSampling period_wrap_frame) = 0"
    "calibrationState period_wrap_frame = RECEIVER_CALIBRATION_IN_PROGRESS"
    by (simp_all add: period_wrap_frame_def sample_frame_high_def sample_ic_def zero_sampling_def)
  have d: "unat ((0 :: uint16_t) - PreviousRisingCountTimerPeriodCount (ChannelICValues period_wrap_frame)) = 2"
    by (simp add: s(2))
  have h: "RECEIVER_MIN_VALID_IC_PULSE_COUNT sample_constants
             \<le> unat (falling_edge_pulse (ChannelICValues period_wrap_frame) 4600)"
    "unat (falling_edge_pulse (ChannelICValues period_wrap_frame) 4600)
       \<le> RECEIVER_MAX_VALID_IC_PULSE_COUNT sample_constants"
    "0 < PreviousRisingCountTimerPeriodCount (ChannelICValues period_wrap_frame)"
    "1 < unat (0 - PreviousRisingCountTimerPeriodCount (ChannelICValues period_wrap_frame))"
    by (simp_all add: p d s(2)) (simp_all add: sample_constants_def)
  have t: "\<not> (2000 :: uint32_t) > of_nat (RECEIVER_MAX_CALIBRATION_DURATION sample_constants) + 1000"
    by (simp add: sample_constants_def)
  note r = UpdateReceiverChannel_wrapped_period_accepted [OF s(1) h, of 2000 1000]
  have r1: "fst (UpdateReceiverChannel sample_constants 4600 2000 1000 0 period_wrap_frame) = RECEIVER_OK"
    "PulseTimerCount
       (ChannelICValues (snd (UpdateReceiverChannel sample_constants 4600 2000 1000 0 period_wrap_frame)))
       = 3600"
    "IsActive
       (ChannelICValues (snd (UpdateReceiverChannel sample_constants 4600 2000 1000 0 period_wrap_frame)))
       = RECEIVER_OK"
    using r by (simp_all add: p)
  have r2: "channelCalibrationPulseSamples
       (ChannelCalibrationSampling
          (snd (UpdateReceiverChannel sample_constants 4600 2000 1000 0 period_wrap_frame)))
       = 1"
  proof -
    have "channelCalibrationPulseSamples
       (ChannelCalibrationSampling
          (snd (UpdateReceiverChannel sample_constants 4600 2000 1000 0 period_wrap_frame)))
       = channelCalibrationPulseSamples (ChannelCalibrationSampling period_wrap_frame) + 1"
      using r s(6) t by blast
    then show ?thesis
      by (simp only: s(5)) simp
  qed
  show ?thesis
    using s(1-5) d r1 r2 by (intro conjI)
qed

subsection \<open>Claims about the calibration controller\<close>

lemma StopReceiverCalibration_idle:
  assumes "receiverCalibrationState g \<noteq> RECEIVER_CALIBRATION_IN_PROGRESS"
  shows "StopReceiverCalibration k mean g = (RECEIVER_ERROR, g)"
  using assms by (simp add: StopReceiverCalibration_def)

text \<open>
  C7. If \<open>StopReceiverCalibration\<close> is called in a session where some channel has counted
  fewer than \<open>RECEIVER_CALIBRATION_MIN_PULSE_COUNT\<close> samples, it returns \<open>RECEIVER_ERROR\<close>,
  the calibration values in use are unchanged and the calibration state is waiting.
\<close>

theorem StopReceiverCalibration_under_sampled:
  assumes "receiverCalibrationState g = RECEIVER_CALIBRATION_IN_PROGRESS"
    and "unat (channelCalibrationPulseSamples (CalibrationSampling g ch))
           < RECEIVER_CALIBRATION_MIN_PULSE_COUNT k"
  shows "fst (StopReceiverCalibration k mean g) = RECEIVER_ERROR
       \<and> CalibrationValues (snd (StopReceiverCalibration k mean g)) = CalibrationValues g
       \<and> receiverCalibrationState (snd (StopReceiverCalibration k mean g))
           = RECEIVER_CALIBRATION_WAITING"
proof -
  have u: "under_sampled k g ch"
    using assms(2) by (simp add: under_sampled_def)
  have "under_sampled k g Throttle \<or> under_sampled k g Aileron \<or> under_sampled k g Elevator
        \<or> under_sampled k g Rudder \<or> under_sampled k g Gear \<or> under_sampled k g Aux1"
    using u by (cases ch) simp_all
  then show ?thesis
    using assms(1) by (auto simp add: StopReceiverCalibration_def Let_def)
qed


lemma sample_window_count: "channelCalibrationPulseSamples sample_window = 1"
  by (simp add: sample_window_def observe_samples_def UpdateChannelCalibrationSamples_count
      ResetCalibrationSampling_def)

theorem StopReceiverCalibration_under_sampled_witness:
  "receiverCalibrationState sample_state = RECEIVER_CALIBRATION_IN_PROGRESS
   \<and> unat (channelCalibrationPulseSamples (CalibrationSampling sample_state Gear))
       < RECEIVER_CALIBRATION_MIN_PULSE_COUNT sample_constants
   \<and> fst (StopReceiverCalibration sample_constants sample_mean sample_state) = RECEIVER_ERROR
   \<and> CalibrationValues (snd (StopReceiverCalibration sample_constants sample_mean sample_state))
       = CalibrationValues sample_state
   \<and> receiverCalibrationState (snd (StopReceiverCalibration sample_constants sample_mean sample_state))
       = RECEIVER_CALIBRATION_WAITING"
proof -
  have h: "receiverCalibrationState sample_state = RECEIVER_CALIBRATION_IN_PROGRESS"
    "unat (channelCalibrationPulseSamples (CalibrationSampling sample_state Gear))
       < RECEIVER_CALIBRATION_MIN_PULSE_COUNT sample_constants"
    by (simp_all add: sample_state_def sample_window_count sample_constants_def)
  show ?thesis
    using h StopReceiverCalibration_under_sampled [OF h, of sample_mean] by (intro conjI) blast+
qed

lemma timeout_reached:
  assumes "unat (startTime :: uint32_t) + d < unat (tick :: uint32_t)"
  shows "of_nat d + startTime < tick"
proof -
  have t: "unat tick < 4294967296"
    using unsigned_less [of tick, where 'a = nat] by simp
  then have d: "d < 4294967296"
    using assms by simp
  have "unat (of_nat d :: uint32_t) = d"
    using d by (simp add: unsigned_of_nat take_bit_nat_eq_self)
  then have "unat (of_nat d + startTime) = (d + unat startTime) mod 4294967296"
    by (simp add: unat_word_ariths)
  also have "\<dots> = d + unat startTime"
    using assms t by simp
  finally show ?thesis
    using assms by (simp add: word_less_nat_alt)
qed

lemma UpdateReceiverChannel_timeout:
  assumes "channelInputState f = PULSE_HIGH"
    and "status_ok (IsReceiverPulseValid k (falling_edge_pulse (ChannelICValues f) icValue) c
                      (PreviousRisingCountTimerPeriodCount (ChannelICValues f)))"
    and "calibrationState f = RECEIVER_CALIBRATION_IN_PROGRESS"
    and "unat startTime + RECEIVER_MAX_CALIBRATION_DURATION k < unat tick"
  shows "UpdateReceiverChannel k icValue tick startTime c f =
           (RECEIVER_OK,
            f\<lparr>channelInputState := PULSE_LOW,
              ICPolarity := TIM_ICPOLARITY_RISING,
              ChannelICValues :=
                (ChannelICValues f)
                  \<lparr>FallingCounter := ucast icValue,
                   PulseTimerCount := falling_edge_pulse (ChannelICValues f) icValue,
                   IsActive := RECEIVER_OK\<rparr>,
              calibrationState := RECEIVER_CALIBRATION_WAITING\<rparr>)"
  using timeout_reached [OF assms(4)] assms(3)
  by (simp add: UpdateReceiverChannel_falling_valid [OF assms(1,2)])

text \<open>
  While the tick count has not wrapped since the start of the session: if it has passed the
  start by more than \<open>RECEIVER_MAX_CALIBRATION_DURATION\<close> when a valid falling edge is
  processed, the session state reverts to waiting, the calibration values and the sampling
  windows are as before, and a following \<open>StopReceiverCalibration\<close> returns \<open>RECEIVER_ERROR\<close>
  and changes nothing.
\<close>

lemma UpdateReceiverChannel_timeout_then_stop:
  assumes "receiverCalibrationState g = RECEIVER_CALIBRATION_IN_PROGRESS"
    and "ReceiverPulseStates g ch = PULSE_HIGH"
    and "status_ok (IsReceiverPulseValid k (falling_edge_pulse (ICValues g ch) icValue)
                      (channel_timer_period_count g ch)
                      (PreviousRisingCountTimerPeriodCount (ICValues g ch)))"
    and "unat (calibrationStartTime g) + RECEIVER_MAX_CALIBRATION_DURATION k < unat tick"
  shows "fst (UpdateReceiverChannelOf k ch icValue tick g) = RECEIVER_OK
       \<and> receiverCalibrationState (snd (UpdateReceiverChannelOf k ch icValue tick g))
           = RECEIVER_CALIBRATION_WAITING
       \<and> CalibrationValues (snd (UpdateReceiverChannelOf k ch icValue tick g)) = CalibrationValues g
       \<and> CalibrationSampling (snd (UpdateReceiverChannelOf k ch icValue tick g))
           = CalibrationSampling g
       \<and> PulseTimerCount (ICValues (snd (UpdateReceiverChannelOf k ch icValue tick g)) ch)
           = falling_edge_pulse (ICValues g ch) icValue
       \<and> fst (StopReceiverCalibration k mean (snd (UpdateReceiverChannelOf k ch icValue tick g)))
           = RECEIVER_ERROR
       \<and> snd (StopReceiverCalibration k mean (snd (UpdateReceiverChannelOf k ch icValue tick g)))
           = snd (UpdateReceiverChannelOf k ch icValue tick g)"
proof -
  let ?f = "channel_frame g ch"
  have f: "channelInputState ?f = PULSE_HIGH"
    "status_ok (IsReceiverPulseValid k (falling_edge_pulse (ChannelICValues ?f) icValue)
                  (channel_timer_period_count g ch)
                  (PreviousRisingCountTimerPeriodCount (ChannelICValues ?f)))"
    "calibrationState ?f = RECEIVER_CALIBRATION_IN_PROGRESS"
    using assms(1,2,3) by (simp_all add: channel_frame_def)
  note u = UpdateReceiverChannel_timeout [OF f assms(4)]
  have st: "fst (UpdateReceiverChannelOf k ch icValue tick g) = RECEIVER_OK"
    by (simp only: UpdateReceiverChannelOf_def Let_def u) simp
  have g1: "snd (UpdateReceiverChannelOf k ch icValue tick g)
      = g\<lparr>ReceiverPulseStates := (ReceiverPulseStates g)(ch := PULSE_LOW),
          ChannelICConfig := (ChannelICConfig g)(ch := TIM_ICPOLARITY_RISING),
          ICValues := (ICValues g)
            (ch := (ICValues g ch)
                     \<lparr>FallingCounter := ucast icValue,
                      PulseTimerCount := falling_edge_pulse (ICValues g ch) icValue,
                      IsActive := RECEIVER_OK\<rparr>),
          CalibrationSampling := (CalibrationSampling g)(ch := CalibrationSampling g ch),
          receiverCalibrationState := RECEIVER_CALIBRATION_WAITING\<rparr>"
    by (simp only: UpdateReceiverChannelOf_def Let_def u)
      (simp add: store_channel_frame_def channel_frame_def)
  have w: "receiverCalibrationState (snd (UpdateReceiverChannelOf k ch icValue tick g))
           = RECEIVER_CALIBRATION_WAITING"
    and cv: "CalibrationValues (snd (UpdateReceiverChannelOf k ch icValue tick g)) = CalibrationValues g"
    and cs: "CalibrationSampling (snd (UpdateReceiverChannelOf k ch icValue tick g))
           = CalibrationSampling g"
    and pt: "PulseTimerCount (ICValues (snd (UpdateReceiverChannelOf k ch icValue tick g)) ch)
           = falling_edge_pulse (ICValues g ch) icValue"
    by (simp_all add: g1)
  have "receiverCalibrationState (snd (UpdateReceiverChannelOf k ch icValue tick g))
          \<noteq> RECEIVER_CALIBRATION_IN_PROGRESS"
    by (simp add: w)
  note sp = StopReceiverCalibration_idle [OF this, of k mean]
  show ?thesis
    using st w cv cs pt sp by (intro conjI) simp_all
qed

lemma timeout_missed:
  assumes "(tick :: uint32_t) < startTime"
    and "unat startTime + d < 4294967296"
  shows "\<not> of_nat d + startTime < tick"
proof -
  have d: "d < 4294967296"
    using assms(2) by simp
  have "unat (of_nat d :: uint32_t) = d"
    using d by (simp add: unsigned_of_nat take_bit_nat_eq_self)
  then have "unat (of_nat d + startTime) = (d + unat startTime) mod 4294967296"
    by (simp add: unat_word_ariths)
  also have "\<dots> = d + unat startTime"
    using assms(2) by simp
  finally show ?thesis
    using assms(1) by (simp add: word_less_nat_alt)
qed

text \<open>
  C8. The timeout test of the source compares the tick count itself with the sum of
  \<open>RECEIVER_MAX_CALIBRATION_DURATION\<close> and the start time. Once the 32 bit tick count has
  wrapped since the start of the session, \<open>tick - calibrationStartTime\<close> on 32 bits is the age
  of the session, and a session older than \<open>RECEIVER_MAX_CALIBRATION_DURATION\<close> is not timed
  out by a valid falling edge: the edge returns \<open>RECEIVER_OK\<close>, the session stays in
  progress, the sampler observes and counts the pulse, and a following
  \<open>StopReceiverCalibration\<close> finds the session in progress and ends it itself.
\<close>

theorem calibration_timeout_missed_after_tick_wrap:
  assumes "receiverCalibrationState g = RECEIVER_CALIBRATION_IN_PROGRESS"
    and "ReceiverPulseStates g ch = PULSE_HIGH"
    and "status_ok (IsReceiverPulseValid k (falling_edge_pulse (ICValues g ch) icValue)
                      (channel_timer_period_count g ch)
                      (PreviousRisingCountTimerPeriodCount (ICValues g ch)))"
    and "tick < calibrationStartTime g"
    and "RECEIVER_MAX_CALIBRATION_DURATION k < unat (tick - calibrationStartTime g)"
    and "unat (calibrationStartTime g) + RECEIVER_MAX_CALIBRATION_DURATION k < 4294967296"
  shows "fst (UpdateReceiverChannelOf k ch icValue tick g) = RECEIVER_OK
       \<and> receiverCalibrationState (snd (UpdateReceiverChannelOf k ch icValue tick g))
           = RECEIVER_CALIBRATION_IN_PROGRESS
       \<and> CalibrationSampling (snd (UpdateReceiverChannelOf k ch icValue tick g)) ch
           = snd (UpdateChannelCalibrationSamples k (CalibrationSampling g ch)
                    (falling_edge_pulse (ICValues g ch) icValue))
       \<and> channelCalibrationPulseSamples
             (CalibrationSampling (snd (UpdateReceiverChannelOf k ch icValue tick g)) ch)
           = channelCalibrationPulseSamples (CalibrationSampling g ch) + 1
       \<and> receiverCalibrationState
             (snd (StopReceiverCalibration k mean (snd (UpdateReceiverChannelOf k ch icValue tick g))))
           = RECEIVER_CALIBRATION_WAITING"
proof -
  let ?f = "channel_frame g ch"
  have f: "channelInputState ?f = PULSE_HIGH"
    "status_ok (IsReceiverPulseValid k (falling_edge_pulse (ChannelICValues ?f) icValue)
                  (channel_timer_period_count g ch)
                  (PreviousRisingCountTimerPeriodCount (ChannelICValues ?f)))"
    using assms(2,3) by (simp_all add: channel_frame_def)
  have c: "calibrationState ?f = RECEIVER_CALIBRATION_IN_PROGRESS"
    using assms(1) by (simp add: channel_frame_def)
  note m = timeout_missed [OF assms(4,6)]
  note u = UpdateReceiverChannel_falling_valid [OF f, of tick "calibrationStartTime g"]
  have st: "fst (UpdateReceiverChannelOf k ch icValue tick g) = RECEIVER_OK"
    by (simp only: UpdateReceiverChannelOf_def Let_def u) simp
  have ip: "receiverCalibrationState (snd (UpdateReceiverChannelOf k ch icValue tick g))
           = RECEIVER_CALIBRATION_IN_PROGRESS"
    using c m by (simp only: UpdateReceiverChannelOf_def Let_def u)
      (simp add: store_channel_frame_def)
  have cs: "CalibrationSampling (snd (UpdateReceiverChannelOf k ch icValue tick g)) ch
           = snd (UpdateChannelCalibrationSamples k (CalibrationSampling g ch)
                    (falling_edge_pulse (ICValues g ch) icValue))"
    using c m by (simp only: UpdateReceiverChannelOf_def Let_def u)
      (simp add: store_channel_frame_def channel_frame_def)
  have n: "channelCalibrationPulseSamples
             (CalibrationSampling (snd (UpdateReceiverChannelOf k ch icValue tick g)) ch)
           = channelCalibrationPulseSamples (CalibrationSampling g ch) + 1"
    by (simp only: cs UpdateChannelCalibrationSamples_count)
  have sp: "receiverCalibrationState
             (snd (StopReceiverCalibration k mean (snd (UpdateReceiverChannelOf k ch icValue tick g))))
           = RECEIVER_CALIBRATION_WAITING"
    using ip by (simp add: StopReceiverCalibration_def Let_def)
  show ?thesis
    using st ip cs n sp by (intro conjI)
qed

theorem calibration_timeout_missed_after_tick_wrap_witness:
  "receiverCalibrationState tick_wrap_state = RECEIVER_CALIBRATION_IN_PROGRESS
   \<and> ReceiverPulseStates tick_wrap_state Aileron = PULSE_HIGH
   \<and> falling_edge_pulse (ICValues tick_wrap_state Aileron) 4600 = 3600
   \<and> calibrationStartTime tick_wrap_state = 4294930000
   \<and> unat ((2704 :: uint32_t) - calibrationStartTime tick_wrap_state) = 40000
   \<and> RECEIVER_MAX_CALIBRATION_DURATION sample_constants = 30000
   \<and> channelCalibrationPulseSamples (CalibrationSampling tick_wrap_state Aileron) = 1
   \<and> fst (UpdateReceiverChannelOf sample_constants Aileron 4600 2704 tick_wrap_state) = RECEIVER_OK
   \<and> receiverCalibrationState
       (snd (UpdateReceiverChannelOf sample_constants Aileron 4600 2704 tick_wrap_state))
       = RECEIVER_CALIBRATION_IN_PROGRESS
   \<and> channelCalibrationPulseSamples
       (CalibrationSampling
          (snd (UpdateReceiverChannelOf sample_constants Aileron 4600 2704 tick_wrap_state)) Aileron)
       = 2
   \<and> receiverCalibrationState
       (snd (StopReceiverCalibration sample_constants sample_mean
               (snd (UpdateReceiverChannelOf sample_constants Aileron 4600 2704 tick_wrap_state))))
       = RECEIVER_CALIBRATION_WAITING"
proof -
  have p: "falling_edge_pulse (ICValues tick_wrap_state Aileron) 4600 = 3600"
    by (simp add: falling_edge_pulse_def tempPulseTimerCount_def tick_wrap_state_def
        sample_state_def sample_ic_def)
  have s: "receiverCalibrationState tick_wrap_state = RECEIVER_CALIBRATION_IN_PROGRESS"
    "ReceiverPulseStates tick_wrap_state Aileron = PULSE_HIGH"
    "calibrationStartTime tick_wrap_state = 4294930000"
    "RECEIVER_MAX_CALIBRATION_DURATION sample_constants = 30000"
    "channelCalibrationPulseSamples (CalibrationSampling tick_wrap_state Aileron) = 1"
    by (simp_all add: tick_wrap_state_def sample_state_def sample_constants_def sample_window_count)
  have e: "unat ((2704 :: uint32_t) - calibrationStartTime tick_wrap_state) = 40000"
    by (simp add: s(3))
  have v: "status_ok (IsReceiverPulseValid sample_constants
                  (falling_edge_pulse (ICValues tick_wrap_state Aileron) 4600)
                  (channel_timer_period_count tick_wrap_state Aileron)
                  (PreviousRisingCountTimerPeriodCount (ICValues tick_wrap_state Aileron)))"
    unfolding p
    by (simp add: tick_wrap_state_def sample_state_def sample_ic_def sample_constants_def
        IsReceiverPulseValid_def status_ok_of_bool channel_timer_period_count_def)
  have h: "(2704 :: uint32_t) < calibrationStartTime tick_wrap_state"
    "RECEIVER_MAX_CALIBRATION_DURATION sample_constants
       < unat ((2704 :: uint32_t) - calibrationStartTime tick_wrap_state)"
    "unat (calibrationStartTime tick_wrap_state) + RECEIVER_MAX_CALIBRATION_DURATION sample_constants
       < 4294967296"
    by (simp_all add: e s(4)) (simp_all add: s(3))
  note t = calibration_timeout_missed_after_tick_wrap [OF s(1,2) v h, of sample_mean]
  have n: "channelCalibrationPulseSamples
       (CalibrationSampling
          (snd (UpdateReceiverChannelOf sample_constants Aileron 4600 2704 tick_wrap_state)) Aileron)
       = 2"
  proof -
    have "channelCalibrationPulseSamples
       (CalibrationSampling
          (snd (UpdateReceiverChannelOf sample_constants Aileron 4600 2704 tick_wrap_state)) Aileron)
       = channelCalibrationPulseSamples (CalibrationSampling tick_wrap_state Aileron) + 1"
      using t by blast
    then show ?thesis
      by (simp only: s(5)) simp
  qed
  show ?thesis
    using s(1,2) p s(3) e s(4,5) t n by (intro conjI) blast+
qed

subsection \<open>Claim about the activity monitor\<close>

lemma IsReceiverChannelActive_fst:
  "fst (IsReceiverChannelActive k ic c) = RECEIVER_OK
     \<longleftrightarrow> IsActive ic = RECEIVER_OK
         \<and> unat (periodsSinceLastChannelPulse ic c) \<le> IS_RECEIVER_CHANNEL_INACTIVE_PERIODS_COUNT k"
  by (auto simp add: IsReceiverChannelActive_def Let_def)

lemma IsReceiverActive_fst:
  "fst (IsReceiverActive k g) =
     status_of_bool
       (status_ok (fst (IsReceiverChannelActive k (ICValues g Aileron) (PrimaryReceiverTimerPeriodCount g)))
        \<and> status_ok (fst (IsReceiverChannelActive k (ICValues g Elevator) (PrimaryReceiverTimerPeriodCount g)))
        \<and> status_ok (fst (IsReceiverChannelActive k (ICValues g Rudder) (PrimaryReceiverTimerPeriodCount g))))"
  by (simp add: IsReceiverActive_def Let_def)

lemma IsReceiverActive_snd:
  "snd (IsReceiverActive k g) =
     g\<lparr>ICValues := (ICValues g)
          (Aileron := snd (IsReceiverChannelActive k (ICValues g Aileron) (PrimaryReceiverTimerPeriodCount g)),
           Elevator := snd (IsReceiverChannelActive k (ICValues g Elevator) (PrimaryReceiverTimerPeriodCount g)),
           Rudder := snd (IsReceiverChannelActive k (ICValues g Rudder) (PrimaryReceiverTimerPeriodCount g)))\<rparr>"
  by (simp add: IsReceiverActive_def Let_def)

lemma status_ok_iff: "status_ok s \<longleftrightarrow> s = RECEIVER_OK"
  by (cases s) (simp_all add: status_ok_def)

text \<open>
  The effect of the interrupts on the variables that the monitor reads, and the states
  reached from \<open>link_start\<close>.
\<close>

lemma HAL_TIM_IC_CaptureCallback_eq:
  "HAL_TIM_IC_CaptureCallback k ch icValue tick g = snd (UpdateReceiverChannelOf k ch icValue tick g)"
  by (cases ch)
    (simp_all add: HAL_TIM_IC_CaptureCallback_def UpdateReceiverThrottleChannel_def
      UpdateReceiverAileronChannel_def UpdateReceiverElevatorChannel_def
      UpdateReceiverRudderChannel_def UpdateReceiverGearChannel_def UpdateReceiverAux1Channel_def)

lemma capture_period_counts:
  "PrimaryReceiverTimerPeriodCount (HAL_TIM_IC_CaptureCallback k ch icValue tick g)
     = PrimaryReceiverTimerPeriodCount g"
  "AuxReceiverTimerPeriodCount (HAL_TIM_IC_CaptureCallback k ch icValue tick g)
     = AuxReceiverTimerPeriodCount g"
  by (simp_all add: HAL_TIM_IC_CaptureCallback_eq UpdateReceiverChannelOf_def Let_def
      store_channel_frame_def)

lemma capture_other_channel:
  assumes "ch' \<noteq> ch"
  shows "ICValues (HAL_TIM_IC_CaptureCallback k ch icValue tick g) ch' = ICValues g ch'"
    and "ReceiverPulseStates (HAL_TIM_IC_CaptureCallback k ch icValue tick g) ch'
           = ReceiverPulseStates g ch'"
  using assms
  by (simp_all add: HAL_TIM_IC_CaptureCallback_eq UpdateReceiverChannelOf_def Let_def
      store_channel_frame_def)

lemma capture_this_channel:
  "ICValues (HAL_TIM_IC_CaptureCallback k ch icValue tick g) ch
     = ChannelICValues (snd (UpdateReceiverChannel k icValue tick (calibrationStartTime g)
                               (channel_timer_period_count g ch) (channel_frame g ch)))"
  "ReceiverPulseStates (HAL_TIM_IC_CaptureCallback k ch icValue tick g) ch
     = channelInputState (snd (UpdateReceiverChannel k icValue tick (calibrationStartTime g)
                                 (channel_timer_period_count g ch) (channel_frame g ch)))"
  by (simp_all add: HAL_TIM_IC_CaptureCallback_eq UpdateReceiverChannelOf_def Let_def
      store_channel_frame_def)

lemma capture_rising_edge:
  assumes "ReceiverPulseStates g ch = PULSE_LOW"
  shows "ReceiverPulseStates (HAL_TIM_IC_CaptureCallback k ch icValue tick g) ch = PULSE_HIGH
       \<and> PreviousRisingCountTimerPeriodCount
             (ICValues (HAL_TIM_IC_CaptureCallback k ch icValue tick g) ch)
           = channel_timer_period_count g ch
       \<and> RisingCount (ICValues (HAL_TIM_IC_CaptureCallback k ch icValue tick g) ch) = ucast icValue
       \<and> IsActive (ICValues (HAL_TIM_IC_CaptureCallback k ch icValue tick g) ch)
           = IsActive (ICValues g ch)"
proof -
  have f: "channelInputState (channel_frame g ch) = PULSE_LOW"
    using assms by (simp add: channel_frame_def)
  note r = UpdateReceiverChannel_rising [OF f, of k icValue tick "calibrationStartTime g"
      "channel_timer_period_count g ch"]
  show ?thesis
    by (simp only: capture_this_channel r snd_conv) (simp add: channel_frame_def)
qed

lemma capture_falling_edge:
  assumes "ReceiverPulseStates g ch = PULSE_HIGH"
  shows "ReceiverPulseStates (HAL_TIM_IC_CaptureCallback k ch icValue tick g) ch = PULSE_LOW
       \<and> PreviousRisingCountTimerPeriodCount
             (ICValues (HAL_TIM_IC_CaptureCallback k ch icValue tick g) ch)
           = PreviousRisingCountTimerPeriodCount (ICValues g ch)
       \<and> RisingCount (ICValues (HAL_TIM_IC_CaptureCallback k ch icValue tick g) ch)
           = RisingCount (ICValues g ch)
       \<and> IsActive (ICValues (HAL_TIM_IC_CaptureCallback k ch icValue tick g) ch)
           = (if status_ok (IsReceiverPulseValid k (falling_edge_pulse (ICValues g ch) icValue)
                              (channel_timer_period_count g ch)
                              (PreviousRisingCountTimerPeriodCount (ICValues g ch)))
              then RECEIVER_OK else IsActive (ICValues g ch))"
proof (cases "status_ok (IsReceiverPulseValid k (falling_edge_pulse (ICValues g ch) icValue)
                              (channel_timer_period_count g ch)
                              (PreviousRisingCountTimerPeriodCount (ICValues g ch)))")
  case True
  have f: "channelInputState (channel_frame g ch) = PULSE_HIGH"
    using assms by (simp add: channel_frame_def)
  have v: "status_ok (IsReceiverPulseValid k
                    (falling_edge_pulse (ChannelICValues (channel_frame g ch)) icValue)
                    (channel_timer_period_count g ch)
                    (PreviousRisingCountTimerPeriodCount (ChannelICValues (channel_frame g ch))))"
    using True by (simp add: channel_frame_def)
  note r = UpdateReceiverChannel_falling_valid [OF f v, of tick "calibrationStartTime g"]
  show ?thesis
    using True by (simp only: capture_this_channel r snd_conv) (simp add: channel_frame_def)
next
  case False
  have f: "channelInputState (channel_frame g ch) = PULSE_HIGH"
    using assms by (simp add: channel_frame_def)
  have v: "\<not> status_ok (IsReceiverPulseValid k
                    (falling_edge_pulse (ChannelICValues (channel_frame g ch)) icValue)
                    (channel_timer_period_count g ch)
                    (PreviousRisingCountTimerPeriodCount (ChannelICValues (channel_frame g ch))))"
    using False by (simp add: channel_frame_def)
  note r = UpdateReceiverChannel_falling_invalid [OF f v, of tick "calibrationStartTime g"]
  show ?thesis
    using False by (simp only: capture_this_channel r snd_conv) (simp add: channel_frame_def)
qed

lemma period_elapsed_fields:
  "ICValues (HAL_TIM_PeriodElapsedCallback htim g) = ICValues g"
  "ReceiverPulseStates (HAL_TIM_PeriodElapsedCallback htim g) = ReceiverPulseStates g"
  "PrimaryReceiverTimerPeriodCount (HAL_TIM_PeriodElapsedCallback PRIMARY_RECEIVER_TIM g)
     = PrimaryReceiverTimerPeriodCount g + 1"
  by (cases htim; simp add: HAL_TIM_PeriodElapsedCallback_def)+


lemma run_interrupts_append:
  "run_interrupts k g (xs @ ys) = run_interrupts k (run_interrupts k g xs) ys"
  by (simp add: run_interrupts_def)

lemma run_interrupts_Cons:
  "run_interrupts k g (x # xs) = run_interrupts k (handle_interrupt k g x) xs"
  by (simp add: run_interrupts_def)

lemma run_interrupts_Nil: "run_interrupts k g [] = g"
  by (simp add: run_interrupts_def)

lemma summary_other_channel:
  assumes "ch' \<noteq> ch"
  shows "channel_summary (HAL_TIM_IC_CaptureCallback k ch icValue tick g) ch' = channel_summary g ch'"
  using assms by (simp add: channel_summary_def capture_other_channel)

lemma summary_rising_edge:
  assumes "channel_summary g ch = (PULSE_LOW, a, r, p)"
  shows "channel_summary (HAL_TIM_IC_CaptureCallback k ch icValue tick g) ch
           = (PULSE_HIGH, a, ucast icValue, channel_timer_period_count g ch)"
proof -
  have "ReceiverPulseStates g ch = PULSE_LOW" and a: "IsActive (ICValues g ch) = a"
    using assms by (simp_all add: channel_summary_def)
  from capture_rising_edge [OF this(1), of k icValue tick] a show ?thesis
    by (simp add: channel_summary_def)
qed

lemma summary_falling_edge:
  assumes "channel_summary g ch = (PULSE_HIGH, a, r, p)"
  shows "channel_summary (HAL_TIM_IC_CaptureCallback k ch icValue tick g) ch
           = (PULSE_LOW,
              if status_ok (IsReceiverPulseValid k (ucast icValue - r)
                              (channel_timer_period_count g ch) p)
              then RECEIVER_OK else a,
              r, p)"
proof -
  have h: "ReceiverPulseStates g ch = PULSE_HIGH" and a: "IsActive (ICValues g ch) = a"
    and r: "RisingCount (ICValues g ch) = r"
    and p: "PreviousRisingCountTimerPeriodCount (ICValues g ch) = p"
    using assms by (simp_all add: channel_summary_def)
  have e: "falling_edge_pulse (ICValues g ch) icValue = ucast icValue - r"
    by (simp add: falling_edge_pulse_def tempPulseTimerCount_def r)
  from capture_falling_edge [OF h, of k icValue tick] show ?thesis
    by (simp add: channel_summary_def a r p e)
qed

lemma summary_period_elapsed:
  "channel_summary (HAL_TIM_PeriodElapsedCallback htim g) ch = channel_summary g ch"
  by (simp add: channel_summary_def period_elapsed_fields)

lemma run_periods_elapsed:
  "channel_summary (run_interrupts k g (replicate n (PeriodElapsed PRIMARY_RECEIVER_TIM))) ch
     = channel_summary g ch
   \<and> PrimaryReceiverTimerPeriodCount
         (run_interrupts k g (replicate n (PeriodElapsed PRIMARY_RECEIVER_TIM)))
       = PrimaryReceiverTimerPeriodCount g + of_nat n"
proof (induction n arbitrary: g)
  case 0
  show ?case by (simp add: run_interrupts_Nil)
next
  case (Suc n)
  show ?case
    using Suc [of "HAL_TIM_PeriodElapsedCallback PRIMARY_RECEIVER_TIM g"]
    by (simp add: run_interrupts_Cons summary_period_elapsed period_elapsed_fields)
qed

lemma IsReceiverActive_summary:
  assumes "channel_summary g Aileron = (sa, RECEIVER_OK, ra, PrimaryReceiverTimerPeriodCount g)"
    and "channel_summary g Elevator = (se, RECEIVER_OK, re, PrimaryReceiverTimerPeriodCount g)"
    and "channel_summary g Rudder = (sr, RECEIVER_OK, rr, PrimaryReceiverTimerPeriodCount g)"
  shows "fst (IsReceiverActive k g) = RECEIVER_OK"
  using assms
  by (simp add: channel_summary_def IsReceiverActive_fst IsReceiverChannelActive_def Let_def
      periodsSinceLastChannelPulse_def status_ok_def status_of_bool_def)

lemma link_start_summary:
  "channel_summary link_start Aileron = (PULSE_HIGH, RECEIVER_ERROR, 1000, 7)"
  "channel_summary link_start Elevator = (PULSE_LOW, RECEIVER_ERROR, 1000, 7)"
  "channel_summary link_start Rudder = (PULSE_LOW, RECEIVER_ERROR, 1000, 7)"
  "PrimaryReceiverTimerPeriodCount link_start = 7"
  by (simp_all add: channel_summary_def link_start_def sample_ic_def)

lemma sample_pulse_validity:
  "status_ok (IsReceiverPulseValid sample_constants 3600 c c)"
  "\<not> status_ok (IsReceiverPulseValid sample_constants 9000 c c)"
  by (simp_all add: IsReceiverPulseValid_def status_ok_of_bool sample_constants_def)

lemma primary_channels:
  "channel_timer_period_count g Aileron = PrimaryReceiverTimerPeriodCount g"
  "channel_timer_period_count g Elevator = PrimaryReceiverTimerPeriodCount g"
  "channel_timer_period_count g Rudder = PrimaryReceiverTimerPeriodCount g"
  by (simp_all add: channel_timer_period_count_def)

lemma link_before_invalid_pulse_summary:
  "channel_summary link_before_invalid_pulse Aileron = (PULSE_HIGH, RECEIVER_OK, 2000, 18)"
  "channel_summary link_before_invalid_pulse Elevator = (PULSE_LOW, RECEIVER_ERROR, 1000, 7)"
  "channel_summary link_before_invalid_pulse Rudder = (PULSE_LOW, RECEIVER_ERROR, 1000, 7)"
  "PrimaryReceiverTimerPeriodCount link_before_invalid_pulse = 18"
proof -
  let ?g1 = "HAL_TIM_IC_CaptureCallback sample_constants Aileron 4600 0 link_start"
  let ?g2 = "run_interrupts sample_constants ?g1 (replicate 11 (PeriodElapsed PRIMARY_RECEIVER_TIM))"
  have g: "link_before_invalid_pulse = HAL_TIM_IC_CaptureCallback sample_constants Aileron 2000 0 ?g2"
    by (simp add: link_before_invalid_pulse_def aileron_pulse_ends_def eleven_periods_def
        aileron_rises_def run_interrupts_append run_interrupts_Cons run_interrupts_Nil)
  have a1: "channel_summary ?g1 Aileron = (PULSE_LOW, RECEIVER_OK, 1000, 7)"
    using summary_falling_edge [OF link_start_summary(1), of sample_constants 4600 0]
    by (simp add: primary_channels link_start_summary sample_pulse_validity)
  have o1: "channel_summary ?g1 Elevator = (PULSE_LOW, RECEIVER_ERROR, 1000, 7)"
    "channel_summary ?g1 Rudder = (PULSE_LOW, RECEIVER_ERROR, 1000, 7)"
    by (simp_all add: summary_other_channel link_start_summary)
  have p1: "PrimaryReceiverTimerPeriodCount ?g1 = 7"
    by (simp add: capture_period_counts link_start_summary)
  have a2: "channel_summary ?g2 Aileron = (PULSE_LOW, RECEIVER_OK, 1000, 7)"
    and o2: "channel_summary ?g2 Elevator = (PULSE_LOW, RECEIVER_ERROR, 1000, 7)"
    "channel_summary ?g2 Rudder = (PULSE_LOW, RECEIVER_ERROR, 1000, 7)"
    and p2: "PrimaryReceiverTimerPeriodCount ?g2 = 18"
    by (simp_all add: run_periods_elapsed a1 o1 p1)
  show "channel_summary link_before_invalid_pulse Aileron = (PULSE_HIGH, RECEIVER_OK, 2000, 18)"
    unfolding g using summary_rising_edge [OF a2, of sample_constants 2000 0]
    by (simp add: primary_channels p2)
  show "channel_summary link_before_invalid_pulse Elevator = (PULSE_LOW, RECEIVER_ERROR, 1000, 7)"
    "channel_summary link_before_invalid_pulse Rudder = (PULSE_LOW, RECEIVER_ERROR, 1000, 7)"
    unfolding g by (simp_all add: summary_other_channel o2)
  show "PrimaryReceiverTimerPeriodCount link_before_invalid_pulse = 18"
    unfolding g by (simp add: capture_period_counts p2)
qed

lemma link_at_query_summary:
  "channel_summary link_at_query Aileron = (PULSE_LOW, RECEIVER_OK, 2000, 18)"
  "channel_summary link_at_query Elevator = (PULSE_LOW, RECEIVER_OK, 2000, 18)"
  "channel_summary link_at_query Rudder = (PULSE_LOW, RECEIVER_OK, 2000, 18)"
  "PrimaryReceiverTimerPeriodCount link_at_query = 18"
proof -
  let ?g4 = "HAL_TIM_IC_CaptureCallback sample_constants Aileron 11000 0 link_before_invalid_pulse"
  let ?g5 = "HAL_TIM_IC_CaptureCallback sample_constants Elevator 2000 0 ?g4"
  let ?g6 = "HAL_TIM_IC_CaptureCallback sample_constants Elevator 5600 0 ?g5"
  let ?g7 = "HAL_TIM_IC_CaptureCallback sample_constants Rudder 2000 0 ?g6"
  let ?g8 = "HAL_TIM_IC_CaptureCallback sample_constants Rudder 5600 0 ?g7"
  note s3 = link_before_invalid_pulse_summary
  have g: "link_at_query = ?g8"
    by (simp add: link_at_query_def others_pulse_def run_interrupts_Cons run_interrupts_Nil)
  have p: "PrimaryReceiverTimerPeriodCount ?g4 = 18" "PrimaryReceiverTimerPeriodCount ?g5 = 18"
    "PrimaryReceiverTimerPeriodCount ?g6 = 18" "PrimaryReceiverTimerPeriodCount ?g7 = 18"
    "PrimaryReceiverTimerPeriodCount ?g8 = 18"
    by (simp_all add: capture_period_counts s3)
  have a4: "channel_summary ?g4 Aileron = (PULSE_LOW, RECEIVER_OK, 2000, 18)"
    using summary_falling_edge [OF s3(1), of sample_constants 11000 0]
    by (simp add: primary_channels s3 sample_pulse_validity)
  have a8: "channel_summary ?g8 Aileron = (PULSE_LOW, RECEIVER_OK, 2000, 18)"
    by (simp add: summary_other_channel a4)
  have e4: "channel_summary ?g4 Elevator = (PULSE_LOW, RECEIVER_ERROR, 1000, 7)"
    by (simp add: summary_other_channel s3)
  have e5: "channel_summary ?g5 Elevator = (PULSE_HIGH, RECEIVER_ERROR, 2000, 18)"
    using summary_rising_edge [OF e4, of sample_constants 2000 0]
    by (simp add: primary_channels p)
  have e6: "channel_summary ?g6 Elevator = (PULSE_LOW, RECEIVER_OK, 2000, 18)"
    using summary_falling_edge [OF e5, of sample_constants 5600 0]
    by (simp add: primary_channels p sample_pulse_validity)
  have e8: "channel_summary ?g8 Elevator = (PULSE_LOW, RECEIVER_OK, 2000, 18)"
    by (simp add: summary_other_channel e6)
  have r6: "channel_summary ?g6 Rudder = (PULSE_LOW, RECEIVER_ERROR, 1000, 7)"
    by (simp add: summary_other_channel s3)
  have r7: "channel_summary ?g7 Rudder = (PULSE_HIGH, RECEIVER_ERROR, 2000, 18)"
    using summary_rising_edge [OF r6, of sample_constants 2000 0]
    by (simp add: primary_channels p)
  have r8: "channel_summary ?g8 Rudder = (PULSE_LOW, RECEIVER_OK, 2000, 18)"
    using summary_falling_edge [OF r7, of sample_constants 5600 0]
    by (simp add: primary_channels p sample_pulse_validity)
  show "channel_summary link_at_query Aileron = (PULSE_LOW, RECEIVER_OK, 2000, 18)"
    "channel_summary link_at_query Elevator = (PULSE_LOW, RECEIVER_OK, 2000, 18)"
    "channel_summary link_at_query Rudder = (PULSE_LOW, RECEIVER_OK, 2000, 18)"
    "PrimaryReceiverTimerPeriodCount link_at_query = 18"
    unfolding g by (rule a8 e8 r8 p(5))+
qed

text \<open>
  C9, as stated: \<open>IsReceiverActive\<close> returns \<open>RECEIVER_OK\<close> only if each of the aileron,
  elevator and rudder channels has produced a valid pulse within
  \<open>IS_RECEIVER_CHANNEL_INACTIVE_PERIODS_COUNT\<close> increments of the period count. From
  \<open>link_start\<close> the only valid pulse of the aileron channel ends at period count 7; its next
  pulse, eleven increments later, is invalid. At period count 18, with the threshold 10,
  \<open>IsReceiverActive\<close> returns \<open>RECEIVER_OK\<close>: the rising edge of the invalid pulse has
  recorded the period count, and the invalid pulse has kept the \<open>IsActive\<close> flag.
\<close>

theorem IsReceiverActive_stale_channel_counterexample:
  "PrimaryReceiverTimerPeriodCount link_start = 7
   \<and> fst (UpdateReceiverChannelOf sample_constants Aileron 4600 0 link_start) = RECEIVER_OK
   \<and> fst (UpdateReceiverChannelOf sample_constants Aileron 11000 0 link_before_invalid_pulse)
       = RECEIVER_ERROR
   \<and> PrimaryReceiverTimerPeriodCount link_at_query = 18
   \<and> IS_RECEIVER_CHANNEL_INACTIVE_PERIODS_COUNT sample_constants = 10
   \<and> fst (IsReceiverActive sample_constants link_at_query) = RECEIVER_OK"
proof -
  have f0: "channelInputState (channel_frame link_start Aileron) = PULSE_HIGH"
    "ChannelICValues (channel_frame link_start Aileron) = sample_ic\<lparr>IsActive := RECEIVER_ERROR\<rparr>"
    by (simp_all add: channel_frame_def link_start_def)
  have v0: "fst (UpdateReceiverChannelOf sample_constants Aileron 4600 0 link_start) = RECEIVER_OK"
    using link_start_summary(1,4) sample_pulse_validity(1) [of 7]
    by (simp add: UpdateReceiverChannelOf_def Let_def UpdateReceiverChannel_falling_status [OF f0(1)]
        f0(2) primary_channels falling_edge_pulse_def tempPulseTimerCount_def sample_ic_def
        status_ok_iff)
  have f3: "channelInputState (channel_frame link_before_invalid_pulse Aileron) = PULSE_HIGH"
    "RisingCount (ChannelICValues (channel_frame link_before_invalid_pulse Aileron)) = 2000"
    "PreviousRisingCountTimerPeriodCount
       (ChannelICValues (channel_frame link_before_invalid_pulse Aileron)) = 18"
    using link_before_invalid_pulse_summary(1)
    by (simp_all add: channel_frame_def channel_summary_def)
  have v3: "fst (UpdateReceiverChannelOf sample_constants Aileron 11000 0 link_before_invalid_pulse)
       = RECEIVER_ERROR"
    using link_before_invalid_pulse_summary(4) sample_pulse_validity(2) [of 18]
    by (simp add: UpdateReceiverChannelOf_def Let_def UpdateReceiverChannel_falling_status [OF f3(1)]
        f3 primary_channels falling_edge_pulse_def tempPulseTimerCount_def status_ok_def)
  have q: "fst (IsReceiverActive sample_constants link_at_query) = RECEIVER_OK"
    by (rule IsReceiverActive_summary) (simp_all add: link_at_query_summary)
  have t: "IS_RECEIVER_CHANNEL_INACTIVE_PERIODS_COUNT sample_constants = 10"
    by (simp add: sample_constants_def)
  show ?thesis
    using link_start_summary(4) v0 v3 link_at_query_summary(4) t q by (intro conjI)
qed

lemma periodsSinceLastChannelPulse_no_wrap:
  assumes "PreviousRisingCountTimerPeriodCount ic \<le> c"
  shows "unat (periodsSinceLastChannelPulse ic c)
           = unat c - unat (PreviousRisingCountTimerPeriodCount ic)"
proof -
  let ?p = "PreviousRisingCountTimerPeriodCount ic"
  have le: "uint ?p \<le> uint c"
    using assms by (simp add: word_le_def)
  have b: "0 \<le> uint c - uint ?p" "uint c - uint ?p < 4294967296"
    using le uint_uint16_less [of c] uint_ge_0 [of ?p] by linarith+
  have "uint (periodsSinceLastChannelPulse ic c) = (uint c - uint ?p) mod 4294967296"
    by (simp only: periodsSinceLastChannelPulse_def promote_diff_of_int uint_word_of_int) simp
  also have "\<dots> = uint c - uint ?p"
    using b by (simp add: mod_pos_pos_trivial)
  finally have "uint (periodsSinceLastChannelPulse ic c) = uint c - uint ?p" .
  then have "int (unat (periodsSinceLastChannelPulse ic c)) = int (unat c) - int (unat ?p)"
    by simp
  moreover have "unat ?p \<le> unat c"
    using assms by (simp add: word_le_nat_alt)
  ultimately show ?thesis
    by linarith
qed

lemma IsReceiverChannelActive_no_wrap:
  assumes "PreviousRisingCountTimerPeriodCount ic \<le> c"
  shows "fst (IsReceiverChannelActive k ic c) = RECEIVER_OK
     \<longleftrightarrow> IsActive ic = RECEIVER_OK
         \<and> unat c - unat (PreviousRisingCountTimerPeriodCount ic)
             \<le> IS_RECEIVER_CHANNEL_INACTIVE_PERIODS_COUNT k"
  by (simp only: IsReceiverChannelActive_fst periodsSinceLastChannelPulse_no_wrap [OF assms])

text \<open>
  C9, amended: while the period count has not wrapped since the last rising edges of the
  aileron, elevator and rudder channels, \<open>IsReceiverActive\<close> returns \<open>RECEIVER_OK\<close> if and only
  if each of the three has its \<open>IsActive\<close> flag set and its last rising edge at most
  \<open>IS_RECEIVER_CHANNEL_INACTIVE_PERIODS_COUNT\<close> increments of the primary period count ago;
  otherwise it returns \<open>RECEIVER_ERROR\<close>. The variables of the throttle, gear and aux1
  channels and the auxiliary period count neither influence the result nor are changed.
  A rising edge records the period count whatever the pulse that follows and keeps the
  flag; a falling edge keeps the recorded count, sets the flag when its pulse is valid and
  keeps the flag otherwise.
\<close>

theorem IsReceiverActive_flag_and_last_rising_edge:
  assumes "\<forall>v \<in> {Aileron, Elevator, Rudder}.
             PreviousRisingCountTimerPeriodCount (ICValues g v) \<le> PrimaryReceiverTimerPeriodCount g"
  shows "(fst (IsReceiverActive k g) = RECEIVER_OK
      \<longleftrightarrow> (\<forall>v \<in> {Aileron, Elevator, Rudder}.
            IsActive (ICValues g v) = RECEIVER_OK
            \<and> unat (PrimaryReceiverTimerPeriodCount g)
                - unat (PreviousRisingCountTimerPeriodCount (ICValues g v))
                \<le> IS_RECEIVER_CHANNEL_INACTIVE_PERIODS_COUNT k))
   \<and> (fst (IsReceiverActive k g) \<noteq> RECEIVER_OK \<longrightarrow> fst (IsReceiverActive k g) = RECEIVER_ERROR)
   \<and> (\<forall>g'. ICValues g' Aileron = ICValues g Aileron
           \<and> ICValues g' Elevator = ICValues g Elevator
           \<and> ICValues g' Rudder = ICValues g Rudder
           \<and> PrimaryReceiverTimerPeriodCount g' = PrimaryReceiverTimerPeriodCount g
         \<longrightarrow> fst (IsReceiverActive k g') = fst (IsReceiverActive k g))
   \<and> ICValues (snd (IsReceiverActive k g)) Throttle = ICValues g Throttle
   \<and> ICValues (snd (IsReceiverActive k g)) Gear = ICValues g Gear
   \<and> ICValues (snd (IsReceiverActive k g)) Aux1 = ICValues g Aux1
   \<and> (ReceiverPulseStates g ch = PULSE_LOW
      \<longrightarrow> PreviousRisingCountTimerPeriodCount
             (ICValues (HAL_TIM_IC_CaptureCallback k ch icValue tick g) ch)
           = channel_timer_period_count g ch
        \<and> IsActive (ICValues (HAL_TIM_IC_CaptureCallback k ch icValue tick g) ch)
           = IsActive (ICValues g ch))
   \<and> (ReceiverPulseStates g ch = PULSE_HIGH
      \<longrightarrow> PreviousRisingCountTimerPeriodCount
             (ICValues (HAL_TIM_IC_CaptureCallback k ch icValue tick g) ch)
           = PreviousRisingCountTimerPeriodCount (ICValues g ch)
        \<and> IsActive (ICValues (HAL_TIM_IC_CaptureCallback k ch icValue tick g) ch)
           = (if status_ok (IsReceiverPulseValid k (falling_edge_pulse (ICValues g ch) icValue)
                              (channel_timer_period_count g ch)
                              (PreviousRisingCountTimerPeriodCount (ICValues g ch)))
              then RECEIVER_OK else IsActive (ICValues g ch)))"
proof -
  have n: "PreviousRisingCountTimerPeriodCount (ICValues g Aileron) \<le> PrimaryReceiverTimerPeriodCount g"
    "PreviousRisingCountTimerPeriodCount (ICValues g Elevator) \<le> PrimaryReceiverTimerPeriodCount g"
    "PreviousRisingCountTimerPeriodCount (ICValues g Rudder) \<le> PrimaryReceiverTimerPeriodCount g"
    using assms by simp_all
  have a: "fst (IsReceiverActive k g) = RECEIVER_OK
      \<longleftrightarrow> fst (IsReceiverChannelActive k (ICValues g Aileron) (PrimaryReceiverTimerPeriodCount g))
            = RECEIVER_OK
          \<and> fst (IsReceiverChannelActive k (ICValues g Elevator) (PrimaryReceiverTimerPeriodCount g))
            = RECEIVER_OK
          \<and> fst (IsReceiverChannelActive k (ICValues g Rudder) (PrimaryReceiverTimerPeriodCount g))
            = RECEIVER_OK"
    by (simp add: IsReceiverActive_fst status_ok_iff status_of_bool_def)
  have b: "fst (IsReceiverActive k g) = RECEIVER_OK
      \<longleftrightarrow> (\<forall>v \<in> {Aileron, Elevator, Rudder}.
            IsActive (ICValues g v) = RECEIVER_OK
            \<and> unat (PrimaryReceiverTimerPeriodCount g)
                - unat (PreviousRisingCountTimerPeriodCount (ICValues g v))
                \<le> IS_RECEIVER_CHANNEL_INACTIVE_PERIODS_COUNT k)"
    unfolding a
    by (simp only: IsReceiverChannelActive_no_wrap [OF n(1)] IsReceiverChannelActive_no_wrap [OF n(2)]
        IsReceiverChannelActive_no_wrap [OF n(3)]) simp
  have c: "fst (IsReceiverActive k g) \<noteq> RECEIVER_OK \<longrightarrow> fst (IsReceiverActive k g) = RECEIVER_ERROR"
    by (cases "fst (IsReceiverActive k g)") simp_all
  have d: "\<forall>g'. ICValues g' Aileron = ICValues g Aileron
           \<and> ICValues g' Elevator = ICValues g Elevator
           \<and> ICValues g' Rudder = ICValues g Rudder
           \<and> PrimaryReceiverTimerPeriodCount g' = PrimaryReceiverTimerPeriodCount g
         \<longrightarrow> fst (IsReceiverActive k g') = fst (IsReceiverActive k g)"
    by (simp add: IsReceiverActive_fst)
  have e: "ICValues (snd (IsReceiverActive k g)) Throttle = ICValues g Throttle"
    "ICValues (snd (IsReceiverActive k g)) Gear = ICValues g Gear"
    "ICValues (snd (IsReceiverActive k g)) Aux1 = ICValues g Aux1"
    by (simp_all add: IsReceiverActive_snd)
  have r: "ReceiverPulseStates g ch = PULSE_LOW
      \<longrightarrow> PreviousRisingCountTimerPeriodCount
             (ICValues (HAL_TIM_IC_CaptureCallback k ch icValue tick g) ch)
           = channel_timer_period_count g ch
        \<and> IsActive (ICValues (HAL_TIM_IC_CaptureCallback k ch icValue tick g) ch)
           = IsActive (ICValues g ch)"
    using capture_rising_edge [of g ch k icValue tick] by blast
  have f: "ReceiverPulseStates g ch = PULSE_HIGH
      \<longrightarrow> PreviousRisingCountTimerPeriodCount
             (ICValues (HAL_TIM_IC_CaptureCallback k ch icValue tick g) ch)
           = PreviousRisingCountTimerPeriodCount (ICValues g ch)
        \<and> IsActive (ICValues (HAL_TIM_IC_CaptureCallback k ch icValue tick g) ch)
           = (if status_ok (IsReceiverPulseValid k (falling_edge_pulse (ICValues g ch) icValue)
                              (channel_timer_period_count g ch)
                              (PreviousRisingCountTimerPeriodCount (ICValues g ch)))
              then RECEIVER_OK else IsActive (ICValues g ch))"
    using capture_falling_edge [of g ch k icValue tick] by blast
  show ?thesis
    using b c d e r f by (intro conjI)
qed

lemma summary_fields:
  assumes "channel_summary g ch = (s, a, r, p)"
  shows "ReceiverPulseStates g ch = s" "IsActive (ICValues g ch) = a"
    "RisingCount (ICValues g ch) = r" "PreviousRisingCountTimerPeriodCount (ICValues g ch) = p"
  using assms by (simp_all add: channel_summary_def)

theorem IsReceiverActive_flag_and_last_rising_edge_witness:
  "fst (IsReceiverActive sample_constants sample_state) = RECEIVER_OK
   \<and> PrimaryReceiverTimerPeriodCount aged_state = 18
   \<and> PreviousRisingCountTimerPeriodCount (ICValues aged_state Rudder) = 7
   \<and> IsActive (ICValues aged_state Rudder) = RECEIVER_OK
   \<and> fst (IsReceiverActive sample_constants aged_state) = RECEIVER_ERROR
   \<and> ReceiverPulseStates link_before_invalid_pulse Aileron = PULSE_HIGH
   \<and> falling_edge_pulse (ICValues link_before_invalid_pulse Aileron) 11000 = 9000
   \<and> IsActive (ICValues (HAL_TIM_IC_CaptureCallback sample_constants Aileron 11000 0
                           link_before_invalid_pulse) Aileron) = RECEIVER_OK
   \<and> ReceiverPulseStates link_before_invalid_pulse Elevator = PULSE_LOW
   \<and> PreviousRisingCountTimerPeriodCount (ICValues link_before_invalid_pulse Elevator) = 7
   \<and> PreviousRisingCountTimerPeriodCount
       (ICValues (HAL_TIM_IC_CaptureCallback sample_constants Elevator 2000 0
                    link_before_invalid_pulse) Elevator) = 18"
proof -
  note t0 = IsReceiverActive_flag_and_last_rising_edge
    [of sample_state sample_constants Aileron 0 0]
  note t1 = IsReceiverActive_flag_and_last_rising_edge
    [of aged_state sample_constants Aileron 0 0]
  note t2 = IsReceiverActive_flag_and_last_rising_edge
    [of link_before_invalid_pulse sample_constants Aileron 11000 0]
  note t3 = IsReceiverActive_flag_and_last_rising_edge
    [of link_before_invalid_pulse sample_constants Elevator 2000 0]
  have n0: "\<forall>v \<in> {Aileron, Elevator, Rudder}.
             PreviousRisingCountTimerPeriodCount (ICValues sample_state v)
               \<le> PrimaryReceiverTimerPeriodCount sample_state"
    by (simp add: sample_state_def sample_ic_def)
  have v0: "\<forall>v \<in> {Aileron, Elevator, Rudder}.
            IsActive (ICValues sample_state v) = RECEIVER_OK
            \<and> unat (PrimaryReceiverTimerPeriodCount sample_state)
                - unat (PreviousRisingCountTimerPeriodCount (ICValues sample_state v))
                \<le> IS_RECEIVER_CHANNEL_INACTIVE_PERIODS_COUNT sample_constants"
    by (simp add: sample_state_def sample_ic_def)
  have r0: "fst (IsReceiverActive sample_constants sample_state) = RECEIVER_OK"
    using t0 [OF n0] v0 by blast
  have s1: "PrimaryReceiverTimerPeriodCount aged_state = 18"
    "PreviousRisingCountTimerPeriodCount (ICValues aged_state Rudder) = 7"
    "IsActive (ICValues aged_state Rudder) = RECEIVER_OK"
    by (simp_all add: aged_state_def sample_state_def sample_ic_def)
  have n1: "\<forall>v \<in> {Aileron, Elevator, Rudder}.
             PreviousRisingCountTimerPeriodCount (ICValues aged_state v)
               \<le> PrimaryReceiverTimerPeriodCount aged_state"
    by (simp add: aged_state_def sample_state_def sample_ic_def)
  have v1: "\<not> unat (PrimaryReceiverTimerPeriodCount aged_state)
                - unat (PreviousRisingCountTimerPeriodCount (ICValues aged_state Rudder))
                \<le> IS_RECEIVER_CHANNEL_INACTIVE_PERIODS_COUNT sample_constants"
    by (simp add: s1 sample_constants_def)
  have r1: "fst (IsReceiverActive sample_constants aged_state) = RECEIVER_ERROR"
    using t1 [OF n1] v1 by blast
  note a = summary_fields [OF link_before_invalid_pulse_summary(1)]
  note e = summary_fields [OF link_before_invalid_pulse_summary(2)]
  note r = summary_fields [OF link_before_invalid_pulse_summary(3)]
  note p = link_before_invalid_pulse_summary(4)
  have n2: "\<forall>v \<in> {Aileron, Elevator, Rudder}.
             PreviousRisingCountTimerPeriodCount (ICValues link_before_invalid_pulse v)
               \<le> PrimaryReceiverTimerPeriodCount link_before_invalid_pulse"
    by (simp add: a e r p)
  have w: "falling_edge_pulse (ICValues link_before_invalid_pulse Aileron) 11000 = 9000"
    by (simp add: falling_edge_pulse_def tempPulseTimerCount_def a)
  have bad: "\<not> status_ok (IsReceiverPulseValid sample_constants
                  (falling_edge_pulse (ICValues link_before_invalid_pulse Aileron) 11000)
                  (channel_timer_period_count link_before_invalid_pulse Aileron)
                  (PreviousRisingCountTimerPeriodCount (ICValues link_before_invalid_pulse Aileron)))"
    by (simp add: w a primary_channels p sample_pulse_validity)
  have "IsActive (ICValues (HAL_TIM_IC_CaptureCallback sample_constants Aileron 11000 0
                           link_before_invalid_pulse) Aileron)
        = (if status_ok (IsReceiverPulseValid sample_constants
                  (falling_edge_pulse (ICValues link_before_invalid_pulse Aileron) 11000)
                  (channel_timer_period_count link_before_invalid_pulse Aileron)
                  (PreviousRisingCountTimerPeriodCount (ICValues link_before_invalid_pulse Aileron)))
           then RECEIVER_OK else IsActive (ICValues link_before_invalid_pulse Aileron))"
    using t2 [OF n2] a(1) by blast
  then have r2: "IsActive (ICValues (HAL_TIM_IC_CaptureCallback sample_constants Aileron 11000 0
                           link_before_invalid_pulse) Aileron) = RECEIVER_OK"
    using bad by (simp add: a)
  have "PreviousRisingCountTimerPeriodCount
       (ICValues (HAL_TIM_IC_CaptureCallback sample_constants Elevator 2000 0
                    link_before_invalid_pulse) Elevator)
        = channel_timer_period_count link_before_invalid_pulse Elevator"
    using t3 [OF n2] e(1) by blast
  then have r3: "PreviousRisingCountTimerPeriodCount
       (ICValues (HAL_TIM_IC_CaptureCallback sample_constants Elevator 2000 0
                    link_before_invalid_pulse) Elevator) = 18"
    by (simp add: primary_channels p)
  show ?thesis
    using r0 s1 r1 a(1) w r2 e(1) e(4) r3 by (intro conjI)
qed

end
